theory Spec2Isabelle
  imports Main "HOL-Library.Word" "HOL-Library.Signed_Division"
begin

unbundle bit_operations_syntax

section \<open>The LE Audio unicast client (system/bta/le_audio/client.cc)\<close>

text \<open>
  The development embeds the member functions of \<^verbatim>\<open>LeAudioClientImpl\<close> that the
  properties below talk about.  Member variables become fields of a record that is
  passed in and returned; calls into collaborators (audio HAL, group state machine,
  GATT, HCI, upper-layer callbacks) are appended to a trace.  The headers and the
  other translation units of the module (devices, state machine, types) are not part
  of the sources at hand; what is needed from them is either taken as a parameter or
  introduced by a definition whose comment says so.
\<close>

subsection \<open>Enumerations\<close>

text \<open>\<^verbatim>\<open>enum class AudioState\<close>, with the numeric order of the declaration.\<close>

datatype AudioState = IDLE | READY_TO_START | STARTED | READY_TO_RELEASE | RELEASING

fun AudioState_val :: "AudioState \<Rightarrow> nat" where
  "AudioState_val IDLE = 0"
| "AudioState_val READY_TO_START = 1"
| "AudioState_val STARTED = 2"
| "AudioState_val READY_TO_RELEASE = 3"
| "AudioState_val RELEASING = 4"

text \<open>
  Modelled from the spec: the audio context enumeration \<^verbatim>\<open>LeAudioContextType\<close> of
  le_audio_types.h (section 3 of the specification lists its members; the last one
  is the reserved value \<^verbatim>\<open>RFU\<close>).
\<close>

datatype LeAudioContextType =
  UNSPECIFIED | CONVERSATIONAL | MEDIA | GAME | RINGTONE | NOTIFICATIONS
  | INSTRUCTIONAL | ALERTS | EMERGENCYALARM | RFU

text \<open>
  The audio framework's \<^verbatim>\<open>audio_content_type_t\<close> and \<^verbatim>\<open>audio_usage_t\<close>: the
  enumerators that client.cc names, the zero value tested by the metadata loop, and
  one constructor standing for every other value.
\<close>

datatype audio_content_type_t =
  AUDIO_CONTENT_TYPE_UNKNOWN | AUDIO_CONTENT_TYPE_SPEECH | AUDIO_CONTENT_TYPE_MUSIC
  | AUDIO_CONTENT_TYPE_MOVIE | AUDIO_CONTENT_TYPE_SONIFICATION | AUDIO_CONTENT_TYPE_unlisted

datatype audio_usage_t =
  AUDIO_USAGE_UNKNOWN | AUDIO_USAGE_VOICE_COMMUNICATION | AUDIO_USAGE_GAME
  | AUDIO_USAGE_NOTIFICATION | AUDIO_USAGE_NOTIFICATION_TELEPHONY_RINGTONE
  | AUDIO_USAGE_ALARM | AUDIO_USAGE_EMERGENCY | AUDIO_USAGE_unlisted

subsection \<open>Context classification\<close>

text \<open>The first two switches, entered only when the current context is conversational.\<close>

fun sticky_content :: "audio_content_type_t \<Rightarrow> bool" where
  "sticky_content AUDIO_CONTENT_TYPE_SONIFICATION = True"
| "sticky_content AUDIO_CONTENT_TYPE_SPEECH = True"
| "sticky_content _ = False"

fun sticky_usage :: "audio_usage_t \<Rightarrow> bool" where
  "sticky_usage AUDIO_USAGE_NOTIFICATION_TELEPHONY_RINGTONE = True"
| "sticky_usage AUDIO_USAGE_NOTIFICATION = True"
| "sticky_usage AUDIO_USAGE_ALARM = True"
| "sticky_usage AUDIO_USAGE_EMERGENCY = True"
| "sticky_usage AUDIO_USAGE_VOICE_COMMUNICATION = True"
| "sticky_usage _ = False"

text \<open>The switch on the content type; \<open>None\<close> is its \<^verbatim>\<open>default: break\<close>.\<close>

fun by_content :: "audio_content_type_t \<Rightarrow> LeAudioContextType option" where
  "by_content AUDIO_CONTENT_TYPE_SPEECH = Some CONVERSATIONAL"
| "by_content AUDIO_CONTENT_TYPE_MUSIC = Some MEDIA"
| "by_content AUDIO_CONTENT_TYPE_MOVIE = Some MEDIA"
| "by_content AUDIO_CONTENT_TYPE_SONIFICATION = Some MEDIA"
| "by_content _ = None"

text \<open>The switch on the usage (``context is not clear, consider also usage of stream'').\<close>

fun by_usage :: "audio_usage_t \<Rightarrow> LeAudioContextType option" where
  "by_usage AUDIO_USAGE_VOICE_COMMUNICATION = Some CONVERSATIONAL"
| "by_usage AUDIO_USAGE_GAME = Some GAME"
| "by_usage AUDIO_USAGE_NOTIFICATION = Some NOTIFICATIONS"
| "by_usage AUDIO_USAGE_NOTIFICATION_TELEPHONY_RINGTONE = Some RINGTONE"
| "by_usage AUDIO_USAGE_ALARM = Some ALERTS"
| "by_usage AUDIO_USAGE_EMERGENCY = Some EMERGENCYALARM"
| "by_usage _ = None"

definition AudioContentToLeAudioContext ::
  "LeAudioContextType \<Rightarrow> audio_content_type_t \<Rightarrow> audio_usage_t \<Rightarrow> LeAudioContextType" where
  "AudioContentToLeAudioContext current_context_type content_type usage =
     (if current_context_type = CONVERSATIONAL \<and> sticky_content content_type then CONVERSATIONAL
      else if current_context_type = CONVERSATIONAL \<and> sticky_usage usage then CONVERSATIONAL
      else case by_content content_type of
             Some c \<Rightarrow> c
           | None \<Rightarrow> (case by_usage usage of Some c \<Rightarrow> c | None \<Rightarrow> MEDIA))"

text \<open>
  \<^verbatim>\<open>ChooseContextType\<close>.  The final \<^verbatim>\<open>available_contents[0]\<close> reads past the end of
  an empty vector; the model answers \<open>None\<close> there.
\<close>

definition ChooseContextType :: "LeAudioContextType list \<Rightarrow> LeAudioContextType option" where
  "ChooseContextType available_contents =
     (if CONVERSATIONAL \<in> set available_contents then Some CONVERSATIONAL
      else if MEDIA \<in> set available_contents then Some MEDIA
      else case available_contents of [] \<Rightarrow> None | c # _ \<Rightarrow> Some c)"

text \<open>
  The track loop of \<^verbatim>\<open>OnAudioMetadataUpdate\<close>: tracks whose content type and usage
  are both zero are skipped, every other track contributes one candidate.
\<close>

fun metadata_contexts ::
  "LeAudioContextType \<Rightarrow> (audio_content_type_t \<times> audio_usage_t) list \<Rightarrow> LeAudioContextType list" where
  "metadata_contexts cur [] = []"
| "metadata_contexts cur ((content_type, usage) # tracks) =
     (if content_type = AUDIO_CONTENT_TYPE_UNKNOWN \<and> usage = AUDIO_USAGE_UNKNOWN
      then metadata_contexts cur tracks
      else AudioContentToLeAudioContext cur content_type usage # metadata_contexts cur tracks)"

text \<open>The rule as the specification words it, for comparison with the code.\<close>

definition classify_rule ::
  "LeAudioContextType \<Rightarrow> audio_content_type_t \<Rightarrow> audio_usage_t \<Rightarrow> LeAudioContextType" where
  "classify_rule cur ct u =
     (if cur = CONVERSATIONAL \<and>
         (ct \<in> {AUDIO_CONTENT_TYPE_SPEECH, AUDIO_CONTENT_TYPE_SONIFICATION} \<or>
          u \<in> {AUDIO_USAGE_VOICE_COMMUNICATION, AUDIO_USAGE_NOTIFICATION,
                AUDIO_USAGE_NOTIFICATION_TELEPHONY_RINGTONE, AUDIO_USAGE_ALARM,
                AUDIO_USAGE_EMERGENCY})
      then CONVERSATIONAL
      else if ct = AUDIO_CONTENT_TYPE_SPEECH then CONVERSATIONAL
      else if ct \<in> {AUDIO_CONTENT_TYPE_MUSIC, AUDIO_CONTENT_TYPE_MOVIE,
                     AUDIO_CONTENT_TYPE_SONIFICATION} then MEDIA
      else if u = AUDIO_USAGE_VOICE_COMMUNICATION then CONVERSATIONAL
      else if u = AUDIO_USAGE_GAME then GAME
      else if u = AUDIO_USAGE_NOTIFICATION then NOTIFICATIONS
      else if u = AUDIO_USAGE_NOTIFICATION_TELEPHONY_RINGTONE then RINGTONE
      else if u = AUDIO_USAGE_ALARM then ALERTS
      else if u = AUDIO_USAGE_EMERGENCY then EMERGENCYALARM
      else MEDIA)"

definition choose_rule :: "LeAudioContextType list \<Rightarrow> LeAudioContextType" where
  "choose_rule cs =
     (if CONVERSATIONAL \<in> set cs then CONVERSATIONAL
      else if MEDIA \<in> set cs then MEDIA
      else hd cs)"

subsection \<open>Downlink mono mix\<close>

datatype fault =
  OutOfBounds | SignedOverflow | NullDereference | UseAfterFree
  | EmptyOptionalAccess | AssertionFailed | BadAlloc

text \<open>
  The 16-bit sample at byte offset \<open>k\<close>: \<^verbatim>\<open>(int16_t)((*(sample + 1) << 8) + *sample)\<close>.
\<close>

definition sample_s16 :: "8 word list \<Rightarrow> nat \<Rightarrow> 16 word" where
  "sample_s16 data k = push_bit 8 (ucast (data ! (k + 1))) + ucast (data ! k)"

text \<open>
  One iteration of the loop in \<^verbatim>\<open>get_mono_stream\<close> for frame index \<open>i\<close>.  The cast
  binds tighter than the shift, so \<open>left\<close> and \<open>right\<close> are the samples shifted right
  arithmetically by one; their sum is formed in \<^verbatim>\<open>uint32_t\<close> after sign extension,
  shifted right logically by one and cut back to 16 bits.
\<close>

definition mono_frame :: "8 word list \<Rightarrow> nat \<Rightarrow> 16 word" where
  "mono_frame data i =
     (let left = signed_drop_bit 1 (sample_s16 data (i * 4));
          right = signed_drop_bit 1 (sample_s16 data (i * 4 + 2));
          mono_data = (ucast (drop_bit 1 ((scast left :: 32 word) + scast right)) :: 16 word)
      in mono_data)"

text \<open>The values of \<^verbatim>\<open>int\<close>; arithmetic that leaves them is a fault.\<close>

definition in_int_range :: "int \<Rightarrow> bool" where
  "in_int_range x = (- (2 ^ 31) \<le> x \<and> x < 2 ^ 31)"

text \<open>
  \<^verbatim>\<open>get_mono_stream\<close>.  \<open>num_of_frames_per_ch\<close> is what \<^verbatim>\<open>lc3_frame_samples\<close>
  returned (the codec library is external).  The loop
  \<^verbatim>\<open>for (int i = 0; i < pitch * num_of_frames_per_ch; i += pitch)\<close> visits the frame
  indices \<open>0, pitch, 2 * pitch, ...\<close> below the bound and appends one sample per visit;
  with a pitch of zero or less the bound is not positive and the loop body never
  runs.  A read behind the end of \<open>data\<close> is a fault.  Both callers pass the default
  pitch 1.
\<close>

definition get_mono_stream ::
  "nat \<Rightarrow> 8 word list \<Rightarrow> 16 word list \<Rightarrow> int \<Rightarrow> fault + 16 word list" where
  "get_mono_stream num_of_frames_per_ch data chan_mono pitch =
     (if \<not> in_int_range (pitch * int num_of_frames_per_ch) then Inl SignedOverflow
      else if pitch * int num_of_frames_per_ch \<le> 0 then Inr chan_mono
      else if length data < (num_of_frames_per_ch - 1) * nat pitch * 4 + 4 then Inl OutOfBounds
      else Inr (chan_mono @
                map (\<lambda>k. mono_frame data (k * nat pitch)) [0..<num_of_frames_per_ch]))"

text \<open>The arithmetic mean of two signed 16-bit samples, rounded towards minus infinity.\<close>

definition mean_s16 :: "16 word \<Rightarrow> 16 word \<Rightarrow> int" where
  "mean_s16 l r = (sint l + sint r) div 2"

subsection \<open>Devices and groups\<close>

type_synonym RawAddress = nat
type_synonym AudioContexts = "16 word"
type_synonym AudioLocations = "32 word"

text \<open>
  Modelled from the spec: the group id that stands for ``unassigned''
  (\<^verbatim>\<open>bluetooth::groups::kGroupUnknown\<close> of bta_groups.h).  Only its being one fixed
  value is used.
\<close>

definition kGroupUnknown :: int where
  "kGroupUnknown = - 1"

text \<open>Modelled from the spec: the ASE states of section 3 (le_audio_types.h).\<close>

datatype AseState =
  BTA_LE_AUDIO_ASE_STATE_IDLE | BTA_LE_AUDIO_ASE_STATE_CODEC_CONFIGURED
  | BTA_LE_AUDIO_ASE_STATE_QOS_CONFIGURED | BTA_LE_AUDIO_ASE_STATE_ENABLING
  | BTA_LE_AUDIO_ASE_STATE_STREAMING | BTA_LE_AUDIO_ASE_STATE_DISABLING
  | BTA_LE_AUDIO_ASE_STATE_RELEASING

datatype direction = kLeAudioDirectionSink | kLeAudioDirectionSource

text \<open>
  Modelled from the spec: an ASE (le_audio_types.h) with the members that client.cc
  reads when it assembles a stream configuration.  The three optional values of the
  codec configuration are \<^verbatim>\<open>std::optional\<close> in the source.
\<close>

datatype codec_config =
  codec_config (audio_channel_allocation: "32 word option") (channel_count: nat)
    (GetSamplingFrequencyHz: nat) (GetFrameDurationUs: nat)
    (octets_per_codec_frame: "nat option") (codec_frames_blocks_per_sdu: "nat option")

datatype ase =
  ase (active: bool) (ase_direction: direction) (cis_conn_hdl: "16 word")
    (ase_codec_config: codec_config)

text \<open>
  Modelled from the spec: the part of \<^verbatim>\<open>LeAudioDevice\<close> (devices.h) that the embedded
  functions read and write.  \<open>conn_id\<close> is \<open>None\<close> for \<^verbatim>\<open>GATT_INVALID_CONN_ID\<close>.
  A device is an active member of its group when one of its ASEs is active.
\<close>

record LeAudioDevice =
  address :: RawAddress
  conn_id :: "nat option"
  dev_group_id :: int
  ases :: "ase list"
  dev_snk_audio_locations :: AudioLocations
  dev_src_audio_locations :: AudioLocations
  GetAvailableContexts :: AudioContexts

definition HaveActiveAse :: "LeAudioDevice \<Rightarrow> bool" where
  "HaveActiveAse d = list_ex active (ases d)"

text \<open>
  One entry of an \<^verbatim>\<open>AudioSetConfiguration\<close>, the configuration itself and the stream
  configuration descriptor of a group, as far as client.cc uses them.  The
  descriptor points to the chosen configuration; \<open>None\<close> is the null pointer.
\<close>

datatype SetConfiguration = SetConfiguration (ent_direction: direction)

datatype AudioSetConfiguration =
  AudioSetConfiguration (conf_name: string) (confs: "SetConfiguration list")

record stream_configuration =
  conf :: "AudioSetConfiguration option"
  sink_streams :: "(16 word \<times> 32 word) list"
  sink_num_of_devices :: nat
  sink_num_of_channels :: nat
  sink_sample_frequency_hz :: nat
  sink_frame_duration_us :: nat
  sink_audio_channel_allocation :: "32 word"
  sink_octets_per_codec_frame :: nat
  sink_codec_frames_blocks_per_sdu :: nat
  source_streams :: "(16 word \<times> 32 word) list"
  source_num_of_devices :: nat
  source_num_of_channels :: nat
  source_sample_frequency_hz :: nat
  source_frame_duration_us :: nat
  source_audio_channel_allocation :: "32 word"
  source_octets_per_codec_frame :: nat
  source_codec_frames_blocks_per_sdu :: nat

text \<open>
  Modelled from the spec: \<^verbatim>\<open>LeAudioDeviceGroup\<close> (devices.h) with the attributes of
  section 3.  The member list holds the addresses of the members in insertion order;
  the devices themselves live in the device registry.
\<close>

record LeAudioDeviceGroup =
  group_id :: int
  grp_leAudioDevices :: "RawAddress list"
  audio_directions :: "8 word"
  snk_audio_locations :: AudioLocations
  src_audio_locations :: AudioLocations
  active_contexts_mask :: AudioContexts
  current_state :: AseState
  target_state :: AseState
  cig_created :: bool
  pending_configuration :: bool
  pending_update_available_contexts :: "AudioContexts option"
  GetCurrentContextType :: LeAudioContextType
  stream_conf :: stream_configuration

text \<open>
  Modelled from the spec: the registries \<^verbatim>\<open>LeAudioDevices\<close> and
  \<^verbatim>\<open>LeAudioDeviceGroups\<close> (devices.cc): lookup by key, replacement of the found
  entry (the code writes through the pointer that the lookup returned), creation
  and removal.  \<open>Add_group\<close> answers \<open>None\<close> when the id is taken; a new group is
  empty, idle and has no CIG.
\<close>

definition FindByAddress :: "LeAudioDevice list \<Rightarrow> RawAddress \<Rightarrow> LeAudioDevice option" where
  "FindByAddress devs a = find (\<lambda>d. address d = a) devs"

definition FindById :: "LeAudioDeviceGroup list \<Rightarrow> int \<Rightarrow> LeAudioDeviceGroup option" where
  "FindById groups gid = find (\<lambda>g. group_id g = gid) groups"

fun store_device :: "LeAudioDevice \<Rightarrow> LeAudioDevice list \<Rightarrow> LeAudioDevice list" where
  "store_device d [] = []"
| "store_device d (x # xs) = (if address x = address d then d # xs else x # store_device d xs)"

fun store_group :: "LeAudioDeviceGroup \<Rightarrow> LeAudioDeviceGroup list \<Rightarrow> LeAudioDeviceGroup list" where
  "store_group g [] = []"
| "store_group g (x # xs) = (if group_id x = group_id g then g # xs else x # store_group g xs)"

fun Remove_group :: "int \<Rightarrow> LeAudioDeviceGroup list \<Rightarrow> LeAudioDeviceGroup list" where
  "Remove_group gid [] = []"
| "Remove_group gid (x # xs) = (if group_id x = gid then xs else x # Remove_group gid xs)"

definition empty_stream_configuration :: stream_configuration where
  "empty_stream_configuration =
     \<lparr>conf = None, sink_streams = [], sink_num_of_devices = 0, sink_num_of_channels = 0,
      sink_sample_frequency_hz = 0, sink_frame_duration_us = 0,
      sink_audio_channel_allocation = 0, sink_octets_per_codec_frame = 0,
      sink_codec_frames_blocks_per_sdu = 0, source_streams = [], source_num_of_devices = 0,
      source_num_of_channels = 0, source_sample_frequency_hz = 0, source_frame_duration_us = 0,
      source_audio_channel_allocation = 0, source_octets_per_codec_frame = 0,
      source_codec_frames_blocks_per_sdu = 0\<rparr>"

definition new_group :: "int \<Rightarrow> LeAudioDeviceGroup" where
  "new_group gid =
     \<lparr>group_id = gid, grp_leAudioDevices = [], audio_directions = 0, snk_audio_locations = 0,
      src_audio_locations = 0, active_contexts_mask = 0,
      current_state = BTA_LE_AUDIO_ASE_STATE_IDLE, target_state = BTA_LE_AUDIO_ASE_STATE_IDLE,
      cig_created = False, pending_configuration = False,
      pending_update_available_contexts = None, GetCurrentContextType = UNSPECIFIED,
      stream_conf = empty_stream_configuration\<rparr>"

definition Add_group :: "int \<Rightarrow> LeAudioDeviceGroup list \<Rightarrow> LeAudioDeviceGroup list option" where
  "Add_group gid groups =
     (case FindById groups gid of
        Some _ \<Rightarrow> None
      | None \<Rightarrow> Some (groups @ [new_group gid]))"

definition new_device :: "RawAddress \<Rightarrow> LeAudioDevice" where
  "new_device a =
     \<lparr>address = a, conn_id = None, dev_group_id = kGroupUnknown, ases = [],
      dev_snk_audio_locations = 0, dev_src_audio_locations = 0, GetAvailableContexts = 0\<rparr>"

text \<open>
  Modelled from the spec: the queries of \<^verbatim>\<open>LeAudioDeviceGroup\<close> that client.cc calls.
  A group is in transition when its current state differs from its target state; a
  member whose device no longer exists is skipped.
\<close>

definition group_devices :: "LeAudioDevice list \<Rightarrow> LeAudioDeviceGroup \<Rightarrow> LeAudioDevice list" where
  "group_devices devs g = List.map_filter (FindByAddress devs) (grp_leAudioDevices g)"

definition IsEmpty :: "LeAudioDeviceGroup \<Rightarrow> bool" where
  "IsEmpty g = (grp_leAudioDevices g = [])"

definition IsDeviceInTheGroup :: "LeAudioDeviceGroup \<Rightarrow> RawAddress \<Rightarrow> bool" where
  "IsDeviceInTheGroup g a = (a \<in> set (grp_leAudioDevices g))"

definition IsAnyDeviceConnected :: "LeAudioDevice list \<Rightarrow> LeAudioDeviceGroup \<Rightarrow> bool" where
  "IsAnyDeviceConnected devs g = list_ex (\<lambda>d. conn_id d \<noteq> None) (group_devices devs g)"

definition NumOfConnected :: "LeAudioDevice list \<Rightarrow> LeAudioDeviceGroup \<Rightarrow> nat" where
  "NumOfConnected devs g = length (filter (\<lambda>d. conn_id d \<noteq> None) (group_devices devs g))"

definition IsInTransition :: "LeAudioDeviceGroup \<Rightarrow> bool" where
  "IsInTransition g = (target_state g \<noteq> current_state g)"

definition IsAnyInTransition :: "LeAudioDeviceGroup list \<Rightarrow> bool" where
  "IsAnyInTransition groups = list_ex IsInTransition groups"

text \<open>
  Modelled from the spec: ``a group's aggregated sink/source locations equal the OR of
  members' locations''.  \<^verbatim>\<open>ReloadAudioLocations\<close> recomputes both and reports whether
  either changed.
\<close>

definition ReloadAudioLocations ::
  "LeAudioDevice list \<Rightarrow> LeAudioDeviceGroup \<Rightarrow> bool \<times> LeAudioDeviceGroup" where
  "ReloadAudioLocations devs g =
     (let snk = fold (\<lambda>d acc. acc OR dev_snk_audio_locations d) (group_devices devs g) 0;
          src = fold (\<lambda>d acc. acc OR dev_src_audio_locations d) (group_devices devs g) 0
      in if snk = snk_audio_locations g \<and> src = src_audio_locations g then (False, g)
         else (True, g\<lparr>snk_audio_locations := snk, src_audio_locations := src\<rparr>))"

text \<open>
  Modelled from the spec: the iteration over the active members of a group
  (\<^verbatim>\<open>GetFirstActiveDevice\<close>, \<^verbatim>\<open>GetNextActiveDevice\<close>).  The search runs through the
  member list in order; its result is the first active member found together with
  the members behind it, where the next search continues.
\<close>

fun GetNextActive ::
  "LeAudioDevice list \<Rightarrow> RawAddress list \<Rightarrow> (LeAudioDevice \<times> RawAddress list) option" where
  "GetNextActive devs [] = None"
| "GetNextActive devs (a # as) =
     (case FindByAddress devs a of
        Some d \<Rightarrow> if HaveActiveAse d then Some (d, as) else GetNextActive devs as
      | None \<Rightarrow> GetNextActive devs as)"

text \<open>\<^verbatim>\<open>GetFirstDevice\<close>: the first member that still exists, and the members behind it.\<close>

fun GetFirst ::
  "LeAudioDevice list \<Rightarrow> RawAddress list \<Rightarrow> (LeAudioDevice \<times> RawAddress list) option" where
  "GetFirst devs [] = None"
| "GetFirst devs (a # as) =
     (case FindByAddress devs a of Some d \<Rightarrow> Some (d, as) | None \<Rightarrow> GetFirst devs as)"

subsection \<open>Collaborators and the client state\<close>

text \<open>
  Calls that leave client.cc, in the order in which they are made: the audio HAL
  (\<^verbatim>\<open>LeAudioClientAudioSource\<close>, \<^verbatim>\<open>LeAudioClientAudioSink\<close>), the codec manager and the
  codec library, the group state machine, the group-membership service, the
  upper-layer callbacks, GATT and HCI.  \<open>AseInitialStateReadRequest\<close> stands for the
  characteristic reads that the function of that name queues.
\<close>

datatype effect =
  Source_CancelStreamingRequest | Sink_CancelStreamingRequest
  | Source_ConfirmStreamingRequest | Sink_ConfirmStreamingRequest
  | Source_SuspendedForReconfiguration | Sink_SuspendedForReconfiguration
  | Source_UpdateRemoteDelay nat | Sink_UpdateRemoteDelay nat
  | Sink_SendData "16 word list"
  | UpdateActiveSourceAudioConfig nat | UpdateActiveSinkAudioConfig nat
  | lc3_decode bool "8 word list option"
  | StartStream int "16 word" | StopStream int | SuspendStream int
  | ConfigureStream int LeAudioContextType | AttachToStream int RawAddress
  | ProcessHciNotifOnCigCreate int nat | ProcessHciNotifOnCigRemove nat int
  | ConfigureAses RawAddress SetConfiguration
  | OnAudioConf "8 word" int AudioLocations AudioLocations AudioContexts
  | OnGroupNodeStatus_ADDED RawAddress int | OnGroupNodeStatus_REMOVED RawAddress int
  | DeviceGroups_RemoveDevice RawAddress int | DeviceGroups_AddDevice RawAddress
  | AseInitialStateReadRequest RawAddress
  | acl_disconnect_from_handle "16 word"
  | BtaGattQueue_Clean nat | BTA_GATTC_Close nat

text \<open>
  \<^verbatim>\<open>LeAudioCodecConfiguration\<close> (client_audio.h): two \<^verbatim>\<open>uint8_t\<close> and two \<^verbatim>\<open>uint32_t\<close>
  fields.
\<close>

datatype LeAudioCodecConfiguration =
  LeAudioCodecConfiguration (num_channels: "8 word") (sample_rate: "32 word")
    (bits_per_sample: "8 word") (data_interval_us: "32 word")

datatype CodecLocation = HOST | ADSP | CodecLocation_unlisted

text \<open>
  What the embedded functions obtain from code outside client.cc, as parameters.
  \<^item> \<open>context_value\<close>: the numeric value of a context type
    (\<^verbatim>\<open>static_cast<uint16_t>\<close>; le_audio_types.h).
  \<^item> devices.cc: \<open>UpdateActiveContextsMap\<close> answers \<open>None\<close> when the group's set of
    supported contexts did not change and otherwise the new bitmap;
    \<open>SetAvailableContexts\<close> stores the pair read from the peer and answers the bitmap
    that the caller names \<open>updated_avail_contexts\<close>, together with the device;
    \<open>GetCodecConfigurationByDirection\<close>, \<open>ConfigureAses_result\<close> (success, the counter
    behind the pointer argument, the device afterwards), \<open>GetRemoteDelay\<close>.
  \<^item> le_audio_types.cc: \<open>get_num_of_devices_in_configuration\<close>.
  \<^item> the group state machine: the results of \<open>StartStream\<close> and \<open>ConfigureStream\<close>, and
    the value of \<open>cig_created\<close> that the CIG notifications leave behind.
  \<^item> the stack, the group-membership service, the masks of the left and of the
    right audio locations, the codec manager, the codec library, the property
    store and the clock.
\<close>

record environment =
  context_value :: "LeAudioContextType \<Rightarrow> 16 word"
  UpdateActiveContextsMap :: "LeAudioDeviceGroup \<Rightarrow> AudioContexts \<Rightarrow> AudioContexts option"
  SetAvailableContexts ::
    "LeAudioDevice \<Rightarrow> AudioContexts \<Rightarrow> AudioContexts \<Rightarrow> AudioContexts \<times> LeAudioDevice"
  GetCodecConfigurationByDirection ::
    "LeAudioDeviceGroup \<Rightarrow> LeAudioContextType \<Rightarrow> direction \<Rightarrow> LeAudioCodecConfiguration option"
  ConfigureAses_result ::
    "LeAudioDevice \<Rightarrow> SetConfiguration \<Rightarrow> LeAudioContextType \<Rightarrow> nat \<Rightarrow> AudioLocations
       \<Rightarrow> AudioLocations \<Rightarrow> bool \<times> nat \<times> LeAudioDevice"
  GetRemoteDelay :: "LeAudioDeviceGroup \<Rightarrow> direction \<Rightarrow> nat"
  get_num_of_devices_in_configuration :: "AudioSetConfiguration \<Rightarrow> nat"
  StartStream_result :: "LeAudioDeviceGroup \<Rightarrow> 16 word \<Rightarrow> bool"
  ConfigureStream_result :: "LeAudioDeviceGroup \<Rightarrow> LeAudioContextType \<Rightarrow> bool"
  OnCigCreate_cig_created :: "LeAudioDeviceGroup \<Rightarrow> nat \<Rightarrow> bool"
  OnCigRemove_cig_created :: "nat \<Rightarrow> LeAudioDeviceGroup \<Rightarrow> bool"
  BTM_GetHCIConnHandle :: "RawAddress \<Rightarrow> 16 word option"
  GetGroupId :: "RawAddress \<Rightarrow> int"
  kLeAudioLocationAnyLeft :: "32 word"
  kLeAudioLocationAnyRight :: "32 word"
  GetCodecLocation :: CodecLocation
  lc3_frame_samples :: "int \<Rightarrow> int \<Rightarrow> int"
  lc3_decode_result :: "bool \<Rightarrow> 8 word list option \<Rightarrow> int \<times> 16 word list"
  osi_property_get_int32 :: "nat \<Rightarrow> nat"
  time_get_os_boottime_us :: nat

text \<open>
  The member variables of \<^verbatim>\<open>LeAudioClientImpl\<close> and the trace of outgoing calls.
  The four codec memory pointers are represented by whether they are non-null,
  the suspend alarm by its timeout and the group id it was armed with.
\<close>

record LeAudioClientImpl =
  leAudioDevices :: "LeAudioDevice list"
  aseGroups :: "LeAudioDeviceGroup list"
  active_group_id :: int
  current_context_type :: LeAudioContextType
  stream_setup_start_timestamp :: nat
  stream_setup_end_timestamp :: nat
  audio_receiver_state :: AudioState
  audio_sender_state :: AudioState
  current_source_codec_config :: LeAudioCodecConfiguration
  current_sink_codec_config :: LeAudioCodecConfiguration
  audio_framework_source_config :: LeAudioCodecConfiguration
  audio_framework_sink_config :: LeAudioCodecConfiguration
  lc3_encoder_left_mem :: bool
  lc3_encoder_right_mem :: bool
  lc3_decoder_left_mem :: bool
  lc3_decoder_right_mem :: bool
  suspend_timeout :: "(nat \<times> int) option"
  cached_channel_data :: "16 word list"
  cached_channel_timestamp :: "32 word"
  cached_channel_is_left :: bool
  trace :: "effect list"

definition emit :: "effect \<Rightarrow> LeAudioClientImpl \<Rightarrow> LeAudioClientImpl" where
  "emit e c = c\<lparr>trace := trace c @ [e]\<rparr>"

text \<open>What a handler added to the trace.\<close>

definition emitted :: "LeAudioClientImpl \<Rightarrow> LeAudioClientImpl \<Rightarrow> effect list" where
  "emitted c c' = drop (length (trace c)) (trace c')"

definition put_group :: "LeAudioDeviceGroup \<Rightarrow> LeAudioClientImpl \<Rightarrow> LeAudioClientImpl" where
  "put_group g c = c\<lparr>aseGroups := store_group g (aseGroups c)\<rparr>"

definition put_device :: "LeAudioDevice \<Rightarrow> LeAudioClientImpl \<Rightarrow> LeAudioClientImpl" where
  "put_device d c = c\<lparr>leAudioDevices := store_device d (leAudioDevices c)\<rparr>"

definition apply_UpdateActiveContextsMap ::
  "environment \<Rightarrow> LeAudioDeviceGroup \<Rightarrow> AudioContexts
     \<Rightarrow> AudioContexts option \<times> LeAudioDeviceGroup" where
  "apply_UpdateActiveContextsMap env g update_contexts =
     (case UpdateActiveContextsMap env g update_contexts of
        None \<Rightarrow> (None, g)
      | Some contexts \<Rightarrow> (Some contexts, g\<lparr>active_contexts_mask := contexts\<rparr>))"

subsection \<open>Cancelling a streaming request, disconnecting a device\<close>

definition CancelStreamingRequest :: "LeAudioClientImpl \<Rightarrow> LeAudioClientImpl" where
  "CancelStreamingRequest c =
     (let c1 = (if AudioState_val (audio_sender_state c) \<ge> AudioState_val READY_TO_START
                then (emit Source_CancelStreamingRequest c)\<lparr>audio_sender_state := IDLE\<rparr>
                else c)
      in if AudioState_val (audio_receiver_state c1) \<ge> AudioState_val READY_TO_START
         then (emit Sink_CancelStreamingRequest c1)\<lparr>audio_receiver_state := IDLE\<rparr>
         else c1)"

definition SuspendedForReconfiguration :: "LeAudioClientImpl \<Rightarrow> LeAudioClientImpl" where
  "SuspendedForReconfiguration c =
     (let c1 = (if AudioState_val (audio_sender_state c) > AudioState_val IDLE
                then emit Source_SuspendedForReconfiguration c else c)
      in if AudioState_val (audio_receiver_state c1) > AudioState_val IDLE
         then emit Sink_SuspendedForReconfiguration c1 else c1)"

text \<open>
  \<^verbatim>\<open>DisconnectDevice\<close>.  \<^verbatim>\<open>BTM_GetHCIConnHandle\<close> answers \<open>None\<close> for
  \<^verbatim>\<open>HCI_INVALID_HANDLE\<close>.
\<close>

definition DisconnectDevice ::
  "environment \<Rightarrow> LeAudioDevice \<Rightarrow> bool \<Rightarrow> LeAudioClientImpl \<Rightarrow> LeAudioClientImpl" where
  "DisconnectDevice env leAudioDevice acl_force_disconnect c =
     (case conn_id leAudioDevice of
        None \<Rightarrow> c
      | Some cid \<Rightarrow>
          (case (if acl_force_disconnect then BTM_GetHCIConnHandle env (address leAudioDevice)
                 else None) of
             Some acl_handle \<Rightarrow> emit (acl_disconnect_from_handle acl_handle) c
           | None \<Rightarrow>
               put_device (leAudioDevice\<lparr>conn_id := None\<rparr>)
                 (emit (BTA_GATTC_Close cid) (emit (BtaGattQueue_Clean cid) c))))"

subsection \<open>Expiry of the transition timer\<close>

lemma GetNextActive_shorter:
  "GetNextActive devs as = Some (d, rest) \<Longrightarrow> length rest < length as"
  by (induction as) (auto split: option.splits if_splits)

text \<open>
  The \<^verbatim>\<open>do ... while\<close> loop of \<^verbatim>\<open>OnLeAudioDeviceSetStateTimeout\<close>: disconnect the
  current device, then move to the next active member behind it.
\<close>

function disconnect_loop ::
  "environment \<Rightarrow> LeAudioDevice \<Rightarrow> RawAddress list \<Rightarrow> LeAudioClientImpl \<Rightarrow> LeAudioClientImpl" where
  "disconnect_loop env leAudioDevice behind c =
     (let c1 = DisconnectDevice env leAudioDevice True c
      in case GetNextActive (leAudioDevices c1) behind of
           None \<Rightarrow> c1
         | Some (next_dev, behind') \<Rightarrow> disconnect_loop env next_dev behind' c1)"
  by pat_completeness auto

termination
  by (relation "measure (\<lambda>(env, d, behind, c). length behind)")
     (auto dest: GetNextActive_shorter)

declare disconnect_loop.simps [simp del]

definition OnLeAudioDeviceSetStateTimeout ::
  "environment \<Rightarrow> int \<Rightarrow> LeAudioClientImpl \<Rightarrow> LeAudioClientImpl" where
  "OnLeAudioDeviceSetStateTimeout env gid c =
     (case FindById (aseGroups c) gid of
        None \<Rightarrow> c
      | Some grp \<Rightarrow>
          (let c1 = put_group (grp\<lparr>target_state := BTA_LE_AUDIO_ASE_STATE_IDLE\<rparr>) c;
               c2 = CancelStreamingRequest c1
           in case GetNextActive (leAudioDevices c2) (grp_leAudioDevices grp) of
                Some (leAudioDevice, behind) \<Rightarrow> disconnect_loop env leAudioDevice behind c2
              | None \<Rightarrow>
                  (case GetFirst (leAudioDevices c2) (grp_leAudioDevices grp) of
                     None \<Rightarrow> c2
                   | Some (leAudioDevice, behind) \<Rightarrow>
                       disconnect_loop env leAudioDevice behind c2)))"

subsection \<open>Contexts and locations of a group\<close>

text \<open>
  \<^verbatim>\<open>UpdateContextAndLocations\<close>.  A group is referred to by its id and a device by its
  address; a failed lookup is the null pointer, and using it is a fault.  The
  condition is evaluated left to right, so the locations are reloaded only when the
  contexts did not change; the last argument of \<^verbatim>\<open>OnAudioConf\<close> reads the optional
  without a test.
\<close>

definition UpdateContextAndLocations ::
  "environment \<Rightarrow> int \<Rightarrow> RawAddress \<Rightarrow> LeAudioClientImpl \<Rightarrow> fault + LeAudioClientImpl" where
  "UpdateContextAndLocations env gid addr c =
     (case FindById (aseGroups c) gid of
        None \<Rightarrow> Inl NullDereference
      | Some grp \<Rightarrow>
     (case FindByAddress (leAudioDevices c) addr of
        None \<Rightarrow> Inl NullDereference
      | Some leAudioDevice \<Rightarrow>
          (let (new_group_updated_contexts, g1) =
                 apply_UpdateActiveContextsMap env grp (GetAvailableContexts leAudioDevice);
               (cond, g2) = (if new_group_updated_contexts \<noteq> None then (True, g1)
                             else ReloadAudioLocations (leAudioDevices c) g1)
           in if cond
              then (case new_group_updated_contexts of
                      None \<Rightarrow> Inl EmptyOptionalAccess
                    | Some contexts \<Rightarrow>
                        Inr (emit (OnAudioConf (audio_directions g2) (group_id g2)
                                     (snk_audio_locations g2) (src_audio_locations g2) contexts)
                               (put_group g2 c)))
              else Inr (put_group g2 c))))"

subsection \<open>Group membership\<close>

text \<open>
  \<^verbatim>\<open>remove_group_if_possible\<close>.  The argument is the group behind the pointer as it
  is when the function is called, \<open>None\<close> for the null pointer.
\<close>

definition remove_group_if_possible ::
  "LeAudioDeviceGroup option \<Rightarrow> LeAudioClientImpl \<Rightarrow> LeAudioClientImpl" where
  "remove_group_if_possible grp c =
     (case grp of
        None \<Rightarrow> c
      | Some g \<Rightarrow>
          if IsEmpty g \<and> \<not> cig_created g
          then c\<lparr>aseGroups := Remove_group (group_id g) (aseGroups c)\<rparr>
          else c)"

text \<open>
  The closing lines shared by \<^verbatim>\<open>group_remove_node\<close> and by the old-group part of
  \<^verbatim>\<open>group_add_node\<close>: re-evaluate the contexts of a group that lost a member and
  report the configuration when contexts or locations changed.  Here the reported
  contexts are \<^verbatim>\<open>GetActiveContexts()\<close>.
\<close>

definition report_after_removal ::
  "environment \<Rightarrow> LeAudioDeviceGroup \<Rightarrow> LeAudioClientImpl \<Rightarrow> LeAudioClientImpl" where
  "report_after_removal env g c =
     (let (updated_contexts, g1) = apply_UpdateActiveContextsMap env g (active_contexts_mask g);
          (cond, g2) = (if updated_contexts \<noteq> None then (True, g1)
                        else ReloadAudioLocations (leAudioDevices c) g1)
      in if cond
         then emit (OnAudioConf (audio_directions g2) (group_id g2) (snk_audio_locations g2)
                      (src_audio_locations g2) (active_contexts_mask g2))
                (put_group g2 c)
         else put_group g2 c)"

text \<open>
  \<^verbatim>\<open>group_remove_node\<close>.  Modelled from the spec: \<^verbatim>\<open>RemoveNode\<close> (devices.cc) takes the
  device out of the member list and marks it unassigned.
\<close>

definition group_remove_node ::
  "environment \<Rightarrow> int \<Rightarrow> RawAddress \<Rightarrow> bool \<Rightarrow> LeAudioClientImpl \<Rightarrow> fault + LeAudioClientImpl" where
  "group_remove_node env gid addr update_group_module c =
     (case FindById (aseGroups c) gid of
        None \<Rightarrow> Inl NullDereference
      | Some grp \<Rightarrow>
     (case FindByAddress (leAudioDevices c) addr of
        None \<Rightarrow> Inl NullDereference
      | Some leAudioDevice \<Rightarrow>
          (let g1 = grp\<lparr>grp_leAudioDevices := removeAll addr (grp_leAudioDevices grp)\<rparr>;
               c1 = put_device (leAudioDevice\<lparr>dev_group_id := kGroupUnknown\<rparr>) (put_group g1 c);
               c2 = (if update_group_module \<and> GetGroupId env addr = gid
                     then emit (DeviceGroups_RemoveDevice addr gid) c1 else c1);
               c3 = emit (OnGroupNodeStatus_REMOVED addr gid) c2
           in if IsEmpty g1 then Inr (remove_group_if_possible (Some g1) c3)
              else Inr (report_after_removal env g1 c3))))"

text \<open>
  \<^verbatim>\<open>group_add_node\<close>, in three stages.  The last stage moves the device: it leaves the
  old group (\<open>old\<close> is the id of that group when the pointer \<^verbatim>\<open>old_group\<close> is set),
  joins the new one, and both groups are re-evaluated.  Modelled from the spec:
  \<^verbatim>\<open>AddNode\<close> (devices.cc) appends the device to the member list and assigns the group
  id to it.
\<close>

definition group_add_node_move ::
  "environment \<Rightarrow> int \<Rightarrow> RawAddress \<Rightarrow> bool \<Rightarrow> int option \<Rightarrow> LeAudioClientImpl
     \<Rightarrow> fault + LeAudioClientImpl" where
  "group_add_node_move env new_gid addr update_group_module old c =
     (case (case old of None \<Rightarrow> Inr c
            | Some old_gid \<Rightarrow> group_remove_node env old_gid addr update_group_module c) of
        Inl f \<Rightarrow> Inl f
      | Inr c1 \<Rightarrow>
     (case FindById (aseGroups c1) new_gid of
        None \<Rightarrow> Inl UseAfterFree
      | Some new_grp \<Rightarrow>
     (case FindByAddress (leAudioDevices c1) addr of
        None \<Rightarrow> Inl NullDereference
      | Some leAudioDevice \<Rightarrow>
          (let g1 = new_grp\<lparr>grp_leAudioDevices := grp_leAudioDevices new_grp @ [addr]\<rparr>;
               c2 = put_device (leAudioDevice\<lparr>dev_group_id := new_gid\<rparr>) (put_group g1 c1);
               c3 = emit (OnGroupNodeStatus_ADDED addr new_gid) c2;
               c4 = (if conn_id leAudioDevice \<noteq> None
                     then emit (AseInitialStateReadRequest addr) c3 else c3);
               old_group_id = (case old of None \<Rightarrow> kGroupUnknown | Some old_gid \<Rightarrow> old_gid)
           in case FindById (aseGroups c4) old_group_id of
                None \<Rightarrow> UpdateContextAndLocations env new_gid addr c4
              | Some old_grp \<Rightarrow>
                  if old = None then Inl NullDereference
                  else UpdateContextAndLocations env new_gid addr
                         (report_after_removal env old_grp c4)))))"

definition group_add_node_join ::
  "environment \<Rightarrow> int \<Rightarrow> RawAddress \<Rightarrow> bool \<Rightarrow> int option \<Rightarrow> LeAudioClientImpl
     \<Rightarrow> fault + LeAudioClientImpl" where
  "group_add_node_join env gid addr update_group_module old c =
     (let id = GetGroupId env addr
      in if gid = kGroupUnknown
         then (if id = kGroupUnknown then Inr (emit (DeviceGroups_AddDevice addr) c)
               else (case Add_group id (aseGroups c) of
                       None \<Rightarrow> Inr c
                     | Some groups \<Rightarrow>
                         group_add_node_move env id addr update_group_module old
                           (c\<lparr>aseGroups := groups\<rparr>)))
         else if id \<noteq> gid then Inl AssertionFailed
         else (case FindById (aseGroups c) gid of
                 None \<Rightarrow>
                   (case Add_group gid (aseGroups c) of
                      None \<Rightarrow> Inl NullDereference
                    | Some groups \<Rightarrow>
                        group_add_node_move env gid addr update_group_module old
                          (c\<lparr>aseGroups := groups\<rparr>))
               | Some new_grp \<Rightarrow>
                   if IsDeviceInTheGroup new_grp addr then Inr c
                   else group_add_node_move env gid addr update_group_module old c))"

definition group_add_node ::
  "environment \<Rightarrow> int \<Rightarrow> RawAddress \<Rightarrow> bool \<Rightarrow> LeAudioClientImpl \<Rightarrow> fault + LeAudioClientImpl" where
  "group_add_node env gid addr update_group_module c =
     (case FindByAddress (leAudioDevices c) addr of
        None \<Rightarrow>
          if gid = kGroupUnknown then Inr c
          else group_add_node_join env gid addr update_group_module None
                 (c\<lparr>leAudioDevices := leAudioDevices c @ [new_device addr]\<rparr>)
      | Some leAudioDevice \<Rightarrow>
          if dev_group_id leAudioDevice \<noteq> kGroupUnknown
          then (case FindById (aseGroups c) (dev_group_id leAudioDevice) of
                  None \<Rightarrow> Inl NullDereference
                | Some old_grp \<Rightarrow>
                    group_add_node_join env gid addr update_group_module
                      (Some (group_id old_grp)) c)
          else group_add_node_join env gid addr update_group_module None c)"

text \<open>
  \<^verbatim>\<open>IsoCigEventsCb\<close>.  The state machine is told first; what it leaves in
  \<open>cig_created\<close> is a parameter.  After a CIG-remove completion the group is removed
  if that is possible now.
\<close>

datatype cig_event =
  kIsoEventCigOnCreateCmpl int nat | kIsoEventCigOnRemoveCmpl nat int | cig_event_unlisted

definition IsoCigEventsCb ::
  "environment \<Rightarrow> cig_event \<Rightarrow> LeAudioClientImpl \<Rightarrow> LeAudioClientImpl" where
  "IsoCigEventsCb env event c =
     (case event of
        kIsoEventCigOnCreateCmpl cig_id status \<Rightarrow>
          (let c1 = emit (ProcessHciNotifOnCigCreate cig_id status) c
           in case FindById (aseGroups c) cig_id of
                None \<Rightarrow> c1
              | Some grp \<Rightarrow>
                  put_group (grp\<lparr>cig_created := OnCigCreate_cig_created env grp status\<rparr>) c1)
      | kIsoEventCigOnRemoveCmpl status cig_id \<Rightarrow>
          (let c1 = emit (ProcessHciNotifOnCigRemove status cig_id) c
           in case FindById (aseGroups c) cig_id of
                None \<Rightarrow> remove_group_if_possible None c1
              | Some grp \<Rightarrow>
                  (let g1 = grp\<lparr>cig_created := OnCigRemove_cig_created env status grp\<rparr>
                   in remove_group_if_possible (Some g1) (put_group g1 c1)))
      | cig_event_unlisted \<Rightarrow> c)"

subsection \<open>Starting and stopping the stream of a group\<close>

definition InternalGroupStream ::
  "environment \<Rightarrow> int \<Rightarrow> 16 word \<Rightarrow> LeAudioClientImpl \<Rightarrow> bool \<times> LeAudioClientImpl" where
  "InternalGroupStream env gid context_type c =
     (if context_type \<ge> context_value env RFU then (False, c)
      else case FindById (aseGroups c) gid of
        None \<Rightarrow> (False, c)
      | Some grp \<Rightarrow>
          (let final_context_type =
                 (if context_type AND active_contexts_mask grp = 0
                  then context_value env UNSPECIFIED else context_type)
           in if \<not> IsAnyDeviceConnected (leAudioDevices c) grp then (False, c)
              else if IsAnyInTransition (aseGroups c) then (False, c)
              else (let result = StartStream_result env grp final_context_type;
                        c1 = emit (StartStream gid final_context_type) c
                    in (result,
                        if result
                        then c1\<lparr>stream_setup_start_timestamp := time_get_os_boottime_us env\<rparr>
                        else c1))))"

definition GroupStream :: "environment \<Rightarrow> int \<Rightarrow> 16 word \<Rightarrow> LeAudioClientImpl \<Rightarrow> LeAudioClientImpl" where
  "GroupStream env gid context_type c = snd (InternalGroupStream env gid context_type c)"

definition GroupStop :: "int \<Rightarrow> LeAudioClientImpl \<Rightarrow> LeAudioClientImpl" where
  "GroupStop gid c =
     (case FindById (aseGroups c) gid of
        None \<Rightarrow> c
      | Some grp \<Rightarrow>
          if IsEmpty grp then c
          else if current_state grp = BTA_LE_AUDIO_ASE_STATE_IDLE then c
          else emit (StopStream gid) c)"

subsection \<open>A device joins a streaming group\<close>

text \<open>
  The loop over the entries of the current configuration in
  \<^verbatim>\<open>AttachToStreamingGroupIfNeeded\<close>.  \<open>sink_n\<close> and \<open>source_n\<close> are the counters whose
  addresses are handed to \<^verbatim>\<open>ConfigureAses\<close>; the result says whether every entry
  was configured.
\<close>

fun configure_entries ::
  "environment \<Rightarrow> LeAudioContextType \<Rightarrow> AudioLocations \<Rightarrow> AudioLocations
     \<Rightarrow> SetConfiguration list \<Rightarrow> nat \<Rightarrow> nat \<Rightarrow> LeAudioDevice \<Rightarrow> LeAudioClientImpl
     \<Rightarrow> bool \<times> LeAudioClientImpl" where
  "configure_entries env ctx snk_locs src_locs [] sink_n source_n dev c = (True, c)"
| "configure_entries env ctx snk_locs src_locs (ent # ents) sink_n source_n dev c =
     (let n = (if ent_direction ent = kLeAudioDirectionSink then sink_n else source_n);
          (ok, n', dev') = ConfigureAses_result env dev ent ctx n snk_locs src_locs;
          c1 = emit (ConfigureAses (address dev) ent) (put_device dev' c)
      in if \<not> ok then (False, c1)
         else if ent_direction ent = kLeAudioDirectionSink
         then configure_entries env ctx snk_locs src_locs ents n' source_n dev' c1
         else configure_entries env ctx snk_locs src_locs ents sink_n n' dev' c1)"

definition stream_locations :: "(16 word \<times> 32 word) list \<Rightarrow> AudioLocations" where
  "stream_locations cis_list =
     fold (\<lambda>(cis_handle, audio_location) acc. acc OR audio_location) cis_list 0"

definition AttachToStreamingGroupIfNeeded ::
  "environment \<Rightarrow> RawAddress \<Rightarrow> LeAudioClientImpl \<Rightarrow> fault + LeAudioClientImpl" where
  "AttachToStreamingGroupIfNeeded env addr c =
     (case FindByAddress (leAudioDevices c) addr of
        None \<Rightarrow> Inl NullDereference
      | Some leAudioDevice \<Rightarrow>
          if dev_group_id leAudioDevice \<noteq> active_group_id c then Inr c
          else if audio_sender_state c = IDLE \<and> audio_receiver_state c = IDLE then Inr c
          else
     (case FindById (aseGroups c) (active_group_id c) of
        None \<Rightarrow> Inl NullDereference
      | Some grp \<Rightarrow>
     (case conf (stream_conf grp) of
        None \<Rightarrow> Inl NullDereference
      | Some cf \<Rightarrow>
          (let num_of_devices = get_num_of_devices_in_configuration env cf
           in if num_of_devices < NumOfConnected (leAudioDevices c) grp
              then Inr (emit (StopStream (group_id grp))
                          (put_group (grp\<lparr>pending_configuration := True\<rparr>) c))
              else (let sink_group_audio_locations = stream_locations (sink_streams (stream_conf grp));
                        sink_num_of_active_ases = length (sink_streams (stream_conf grp)) mod 256;
                        source_group_audio_locations =
                          stream_locations (source_streams (stream_conf grp));
                        source_num_of_active_ases =
                          length (source_streams (stream_conf grp)) mod 256;
                        (ok, c1) = configure_entries env (GetCurrentContextType grp)
                                     sink_group_audio_locations source_group_audio_locations
                                     (confs cf) sink_num_of_active_ases source_num_of_active_ases
                                     leAudioDevice c
                    in if ok then Inr (emit (AttachToStream (group_id grp) addr) c1)
                       else Inr c1)))))"

subsection \<open>Stream configuration of a direction\<close>

text \<open>
  Modelled from the spec: the active ASEs of a device in one direction, in the order of
  the ASE list (\<^verbatim>\<open>GetFirstActiveAseByDirection\<close>,
  \<^verbatim>\<open>GetNextActiveAseWithSameDirection\<close> of devices.cc).
\<close>

definition active_ases_by_direction :: "LeAudioDevice \<Rightarrow> direction \<Rightarrow> ase list" where
  "active_ases_by_direction d dir = filter (\<lambda>a. active a \<and> ase_direction a = dir) (ases d)"

text \<open>The local variables that \<^verbatim>\<open>GetStreamConfigurationByDirection\<close> accumulates.\<close>

datatype stream_totals =
  stream_totals (streams: "(16 word \<times> 32 word) list") (num_of_devices: nat)
    (num_of_channels: nat) (sample_freq_hz: nat) (frame_duration_us: nat)
    (total_channel_allocation: "32 word") (octets_per_frame: nat)
    (total_codec_frames_blocks_per_sdu: nat)

text \<open>
  The body of the inner loop for one ASE.  Reading an empty optional is a fault, a
  failed \<^verbatim>\<open>LOG_ASSERT\<close> aborts.
\<close>

definition add_ase_to_stream :: "ase \<Rightarrow> stream_totals \<Rightarrow> fault + stream_totals" where
  "add_ase_to_stream a t =
     (let cfg = ase_codec_config a
      in case audio_channel_allocation cfg of
           None \<Rightarrow> Inl EmptyOptionalAccess
         | Some allocation \<Rightarrow>
             if sample_freq_hz t \<noteq> 0 \<and> sample_freq_hz t \<noteq> GetSamplingFrequencyHz cfg
             then Inl AssertionFailed
             else if frame_duration_us t \<noteq> 0 \<and> frame_duration_us t \<noteq> GetFrameDurationUs cfg
             then Inl AssertionFailed
             else
        (case octets_per_codec_frame cfg of
           None \<Rightarrow> Inl (if octets_per_frame t = 0 then EmptyOptionalAccess else AssertionFailed)
         | Some octets \<Rightarrow>
             if octets_per_frame t \<noteq> 0 \<and> octets_per_frame t \<noteq> octets then Inl AssertionFailed
             else
        (case codec_frames_blocks_per_sdu cfg of
           None \<Rightarrow> Inl (if total_codec_frames_blocks_per_sdu t = 0 then EmptyOptionalAccess
                        else AssertionFailed)
         | Some blocks \<Rightarrow>
             if total_codec_frames_blocks_per_sdu t \<noteq> 0 \<and>
                total_codec_frames_blocks_per_sdu t \<noteq> blocks
             then Inl AssertionFailed
             else Inr (stream_totals
                         (streams t @ [(cis_conn_hdl a, allocation)])
                         (num_of_devices t)
                         (num_of_channels t + channel_count cfg)
                         (GetSamplingFrequencyHz cfg)
                         (GetFrameDurationUs cfg)
                         (total_channel_allocation t OR allocation)
                         octets blocks))))"

fun add_ases_to_stream :: "ase list \<Rightarrow> stream_totals \<Rightarrow> fault + stream_totals" where
  "add_ases_to_stream [] t = Inr t"
| "add_ases_to_stream (a # as) t =
     (case add_ase_to_stream a t of Inl f \<Rightarrow> Inl f | Inr t' \<Rightarrow> add_ases_to_stream as t')"

text \<open>The outer loop over the active members of the group.\<close>

fun add_devices_to_stream ::
  "direction \<Rightarrow> LeAudioDevice list \<Rightarrow> stream_totals \<Rightarrow> fault + stream_totals" where
  "add_devices_to_stream dir [] t = Inr t"
| "add_devices_to_stream dir (d # ds) t =
     (let as = active_ases_by_direction d dir;
          t1 = (if as \<noteq> [] then stream_totals (streams t) (num_of_devices t + 1)
                    (num_of_channels t) (sample_freq_hz t) (frame_duration_us t)
                    (total_channel_allocation t) (octets_per_frame t)
                    (total_codec_frames_blocks_per_sdu t)
                else t)
      in case add_ases_to_stream as t1 of
           Inl f \<Rightarrow> Inl f
         | Inr t2 \<Rightarrow> add_devices_to_stream dir ds t2)"

text \<open>
  \<^verbatim>\<open>GetStreamConfigurationByDirection\<close>: \<open>None\<close> is the null pointer it returns when no
  stream was found; otherwise the descriptor of the group is updated.  The closing
  log line reads the name of the configuration the descriptor points to.
\<close>

definition GetStreamConfigurationByDirection ::
  "LeAudioDevice list \<Rightarrow> LeAudioDeviceGroup \<Rightarrow> direction
     \<Rightarrow> fault + (stream_configuration option \<times> LeAudioDeviceGroup)" where
  "GetStreamConfigurationByDirection devs grp dir =
     (case add_devices_to_stream dir (filter HaveActiveAse (group_devices devs grp))
             (stream_totals [] 0 0 0 0 0 0 0) of
        Inl f \<Rightarrow> Inl f
      | Inr t \<Rightarrow>
          if streams t = [] then Inr (None, grp)
          else (let sc = stream_conf grp;
                    sc' = (case dir of
                             kLeAudioDirectionSource \<Rightarrow>
                               sc\<lparr>source_streams := streams t,
                                  source_num_of_devices := num_of_devices t,
                                  source_num_of_channels := num_of_channels t,
                                  source_sample_frequency_hz := sample_freq_hz t,
                                  source_frame_duration_us := frame_duration_us t,
                                  source_audio_channel_allocation := total_channel_allocation t,
                                  source_octets_per_codec_frame := octets_per_frame t,
                                  source_codec_frames_blocks_per_sdu :=
                                    total_codec_frames_blocks_per_sdu t\<rparr>
                           | kLeAudioDirectionSink \<Rightarrow>
                               sc\<lparr>sink_streams := streams t,
                                  sink_num_of_devices := num_of_devices t,
                                  sink_num_of_channels := num_of_channels t,
                                  sink_sample_frequency_hz := sample_freq_hz t,
                                  sink_frame_duration_us := frame_duration_us t,
                                  sink_audio_channel_allocation := total_channel_allocation t,
                                  sink_octets_per_codec_frame := octets_per_frame t,
                                  sink_codec_frames_blocks_per_sdu :=
                                    total_codec_frames_blocks_per_sdu t\<rparr>)
                in if conf sc' = None then Inl NullDereference
                   else Inr (Some sc', grp\<lparr>stream_conf := sc'\<rparr>)))"

subsection \<open>Audio session: start, suspend, resume\<close>

definition CleanCachedMicrophoneData :: "LeAudioClientImpl \<Rightarrow> LeAudioClientImpl" where
  "CleanCachedMicrophoneData c =
     c\<lparr>cached_channel_data := [], cached_channel_timestamp := 0, cached_channel_is_left := False\<rparr>"

text \<open>
  \<^verbatim>\<open>StartSendingAudio\<close>; the boolean is its return value.  With the codec on the host
  the encoder memory is released if it is still there and then allocated anew.
\<close>

definition StartSendingAudio ::
  "environment \<Rightarrow> int \<Rightarrow> LeAudioClientImpl \<Rightarrow> fault + bool \<times> LeAudioClientImpl" where
  "StartSendingAudio env gid c =
     (case FindById (aseGroups c) gid of
        None \<Rightarrow> Inl NullDereference
      | Some grp \<Rightarrow>
          if GetNextActive (leAudioDevices c) (grp_leAudioDevices grp) = None
          then Inl AssertionFailed
          else
     (case GetStreamConfigurationByDirection (leAudioDevices c) grp kLeAudioDirectionSink of
        Inl f \<Rightarrow> Inl f
      | Inr (None, _) \<Rightarrow> Inr (False, c)
      | Inr (Some sc, g1) \<Rightarrow>
          (let c1 = put_group g1 c;
               remote_delay_ms = GetRemoteDelay env g1 kLeAudioDirectionSink;
               c2 = (case GetCodecLocation env of
                       HOST \<Rightarrow> c1\<lparr>lc3_encoder_left_mem := True, lc3_encoder_right_mem := True\<rparr>
                     | ADSP \<Rightarrow> emit (UpdateActiveSourceAudioConfig remote_delay_ms) c1
                     | CodecLocation_unlisted \<Rightarrow> c1);
               c3 = emit Source_ConfirmStreamingRequest
                      (emit (Source_UpdateRemoteDelay remote_delay_ms) c2)
           in Inr (True, c3\<lparr>audio_sender_state := STARTED\<rparr>))))"

definition StartReceivingAudio ::
  "environment \<Rightarrow> int \<Rightarrow> LeAudioClientImpl \<Rightarrow> fault + LeAudioClientImpl" where
  "StartReceivingAudio env gid c =
     (case FindById (aseGroups c) gid of
        None \<Rightarrow> Inl NullDereference
      | Some grp \<Rightarrow>
     (case GetStreamConfigurationByDirection (leAudioDevices c) grp kLeAudioDirectionSource of
        Inl f \<Rightarrow> Inl f
      | Inr (None, _) \<Rightarrow> Inr c
      | Inr (Some sc, g1) \<Rightarrow>
          (let c1 = CleanCachedMicrophoneData (put_group g1 c);
               remote_delay_ms = GetRemoteDelay env g1 kLeAudioDirectionSource;
               c2 = (case GetCodecLocation env of
                       HOST \<Rightarrow> c1\<lparr>lc3_decoder_left_mem := True, lc3_decoder_right_mem := True\<rparr>
                     | ADSP \<Rightarrow> emit (UpdateActiveSinkAudioConfig remote_delay_ms) c1
                     | CodecLocation_unlisted \<Rightarrow> c1);
               c3 = emit Sink_ConfirmStreamingRequest
                      (emit (Sink_UpdateRemoteDelay remote_delay_ms) c2)
           in Inr (c3\<lparr>audio_receiver_state := STARTED\<rparr>))))"

definition SuspendAudio :: "LeAudioClientImpl \<Rightarrow> LeAudioClientImpl" where
  "SuspendAudio c =
     (let c1 = c\<lparr>audio_receiver_state := IDLE, audio_sender_state := IDLE\<rparr>;
          c2 = (if lc3_encoder_left_mem c1
                then c1\<lparr>lc3_encoder_left_mem := False, lc3_encoder_right_mem := False\<rparr> else c1)
      in if lc3_decoder_left_mem c2
         then c2\<lparr>lc3_decoder_left_mem := False, lc3_decoder_right_mem := False\<rparr> else c2)"

definition StopAudio :: "LeAudioClientImpl \<Rightarrow> LeAudioClientImpl" where
  "StopAudio c = SuspendAudio c"

definition OnAudioResume ::
  "environment \<Rightarrow> LeAudioDeviceGroup \<Rightarrow> LeAudioClientImpl \<Rightarrow> bool \<times> LeAudioClientImpl" where
  "OnAudioResume env grp c =
     (if target_state grp = BTA_LE_AUDIO_ASE_STATE_STREAMING then (True, c)
      else InternalGroupStream env (active_group_id c)
             (context_value env (current_context_type c)) c)"

definition kAudioSuspentKeepIsoAliveTimeoutMs :: nat where
  "kAudioSuspentKeepIsoAliveTimeoutMs = 5000"

text \<open>
  \<^verbatim>\<open>OnAudioSuspend\<close> arms the suspend alarm for the active group (an alarm that is
  still scheduled is cancelled first).  When the alarm fires it is no longer
  scheduled and its callback calls \<^verbatim>\<open>GroupStop\<close> with the stored group id.
\<close>

definition OnAudioSuspend :: "environment \<Rightarrow> LeAudioClientImpl \<Rightarrow> LeAudioClientImpl" where
  "OnAudioSuspend env c =
     (if active_group_id c = kGroupUnknown then c
      else (let timeoutMs = osi_property_get_int32 env kAudioSuspentKeepIsoAliveTimeoutMs
            in c\<lparr>suspend_timeout := Some (timeoutMs, active_group_id c)\<rparr>))"

definition suspend_timeout_expired :: "LeAudioClientImpl \<Rightarrow> LeAudioClientImpl" where
  "suspend_timeout_expired c =
     (case suspend_timeout c of
        None \<Rightarrow> c
      | Some (timeoutMs, gid) \<Rightarrow> GroupStop gid (c\<lparr>suspend_timeout := None\<rparr>))"

definition OnAudioSinkSuspend :: "environment \<Rightarrow> LeAudioClientImpl \<Rightarrow> LeAudioClientImpl" where
  "OnAudioSinkSuspend env c =
     (let last_suspends = (\<lambda>c1. if audio_receiver_state c1 = IDLE \<or>
                                   audio_receiver_state c1 = READY_TO_RELEASE
                                then OnAudioSuspend env c1 else c1)
      in case audio_sender_state c of
           READY_TO_START \<Rightarrow> last_suspends (c\<lparr>audio_sender_state := READY_TO_RELEASE\<rparr>)
         | STARTED \<Rightarrow> last_suspends (c\<lparr>audio_sender_state := READY_TO_RELEASE\<rparr>)
         | RELEASING \<Rightarrow> c
         | IDLE \<Rightarrow> if audio_receiver_state c = READY_TO_RELEASE then OnAudioSuspend env c else c
         | READY_TO_RELEASE \<Rightarrow> last_suspends c)"

definition OnAudioSourceSuspend :: "environment \<Rightarrow> LeAudioClientImpl \<Rightarrow> LeAudioClientImpl" where
  "OnAudioSourceSuspend env c =
     (let last_suspends = (\<lambda>c1. if audio_sender_state c1 = IDLE \<or>
                                   audio_sender_state c1 = READY_TO_RELEASE
                                then OnAudioSuspend env c1 else c1)
      in case audio_receiver_state c of
           READY_TO_START \<Rightarrow> last_suspends (c\<lparr>audio_receiver_state := READY_TO_RELEASE\<rparr>)
         | STARTED \<Rightarrow> last_suspends (c\<lparr>audio_receiver_state := READY_TO_RELEASE\<rparr>)
         | RELEASING \<Rightarrow> c
         | IDLE \<Rightarrow> if audio_sender_state c = READY_TO_RELEASE then OnAudioSuspend env c else c
         | READY_TO_RELEASE \<Rightarrow> last_suspends c)"

text \<open>
  \<^verbatim>\<open>OnAudioSinkResume\<close>: the audio framework wants the downlink.  The outer case is the
  switch on the sender state, the inner cases are the switches on the receiver state.
\<close>

definition OnAudioSinkResume ::
  "environment \<Rightarrow> LeAudioClientImpl \<Rightarrow> fault + LeAudioClientImpl" where
  "OnAudioSinkResume env c =
     (case FindById (aseGroups c) (active_group_id c) of
        None \<Rightarrow> Inr c
      | Some grp \<Rightarrow>
          if GetCodecConfigurationByDirection env grp (current_context_type c)
               kLeAudioDirectionSink = None
          then Inr (emit Source_CancelStreamingRequest c)
          else
     (case audio_sender_state c of
        STARTED \<Rightarrow> Inr (emit Source_ConfirmStreamingRequest c)
      | IDLE \<Rightarrow>
          (let join = (\<lambda>c1. if current_state grp = BTA_LE_AUDIO_ASE_STATE_STREAMING
                             then map_sum id snd (StartSendingAudio env (active_group_id c1) c1)
                             else Inr c1);
               wait_or_cancel = (if pending_configuration grp
                                 then Inr (c\<lparr>audio_sender_state := audio_receiver_state c\<rparr>)
                                 else Inr (emit Source_CancelStreamingRequest c))
           in case audio_receiver_state c of
                IDLE \<Rightarrow>
                  (case OnAudioResume env grp c of
                     (True, c1) \<Rightarrow> Inr (c1\<lparr>audio_sender_state := READY_TO_START\<rparr>)
                   | (False, c1) \<Rightarrow> Inr (emit Source_CancelStreamingRequest c1))
              | READY_TO_START \<Rightarrow> join (c\<lparr>audio_sender_state := READY_TO_START\<rparr>)
              | STARTED \<Rightarrow> join (c\<lparr>audio_sender_state := READY_TO_START\<rparr>)
              | RELEASING \<Rightarrow> wait_or_cancel
              | READY_TO_RELEASE \<Rightarrow> wait_or_cancel)
      | READY_TO_START \<Rightarrow> Inr c
      | READY_TO_RELEASE \<Rightarrow>
          (let restore = Inr (emit Source_ConfirmStreamingRequest
                                (c\<lparr>audio_sender_state := STARTED, suspend_timeout := None\<rparr>))
           in case audio_receiver_state c of
                STARTED \<Rightarrow> restore
              | IDLE \<Rightarrow> restore
              | READY_TO_RELEASE \<Rightarrow> restore
              | RELEASING \<Rightarrow> Inr (emit Source_CancelStreamingRequest c)
              | READY_TO_START \<Rightarrow> Inr (emit Source_CancelStreamingRequest c))
      | RELEASING \<Rightarrow> Inr (emit Source_CancelStreamingRequest c)))"

text \<open>\<^verbatim>\<open>OnAudioSourceResume\<close>: the same with the roles of the two directions exchanged.\<close>

definition OnAudioSourceResume ::
  "environment \<Rightarrow> LeAudioClientImpl \<Rightarrow> fault + LeAudioClientImpl" where
  "OnAudioSourceResume env c =
     (case FindById (aseGroups c) (active_group_id c) of
        None \<Rightarrow> Inr c
      | Some grp \<Rightarrow>
          if GetCodecConfigurationByDirection env grp (current_context_type c)
               kLeAudioDirectionSource = None
          then Inr (emit Sink_CancelStreamingRequest c)
          else
     (case audio_receiver_state c of
        STARTED \<Rightarrow> Inr (emit Sink_ConfirmStreamingRequest c)
      | IDLE \<Rightarrow>
          (let join = (\<lambda>c1. if current_state grp = BTA_LE_AUDIO_ASE_STATE_STREAMING
                             then StartReceivingAudio env (active_group_id c1) c1
                             else Inr c1);
               wait_or_cancel = (if pending_configuration grp
                                 then Inr (c\<lparr>audio_receiver_state := audio_sender_state c\<rparr>)
                                 else Inr (emit Sink_CancelStreamingRequest c))
           in case audio_sender_state c of
                IDLE \<Rightarrow>
                  (case OnAudioResume env grp c of
                     (True, c1) \<Rightarrow> Inr (c1\<lparr>audio_receiver_state := READY_TO_START\<rparr>)
                   | (False, c1) \<Rightarrow> Inr (emit Sink_CancelStreamingRequest c1))
              | READY_TO_START \<Rightarrow> join (c\<lparr>audio_receiver_state := READY_TO_START\<rparr>)
              | STARTED \<Rightarrow> join (c\<lparr>audio_receiver_state := READY_TO_START\<rparr>)
              | RELEASING \<Rightarrow> wait_or_cancel
              | READY_TO_RELEASE \<Rightarrow> wait_or_cancel)
      | READY_TO_START \<Rightarrow> Inr c
      | READY_TO_RELEASE \<Rightarrow>
          (let restore = Inr (emit Sink_ConfirmStreamingRequest
                                (c\<lparr>audio_receiver_state := STARTED, suspend_timeout := None\<rparr>))
           in case audio_sender_state c of
                STARTED \<Rightarrow> restore
              | IDLE \<Rightarrow> restore
              | READY_TO_RELEASE \<Rightarrow> restore
              | RELEASING \<Rightarrow> Inr (emit Sink_CancelStreamingRequest c)
              | READY_TO_START \<Rightarrow> Inr (emit Sink_CancelStreamingRequest c))
      | RELEASING \<Rightarrow> Inr (emit Sink_CancelStreamingRequest c)))"

subsection \<open>Available contexts of a device, status reports of the state machine\<close>

text \<open>
  The branch of \<^verbatim>\<open>LeAudioCharValueHandle\<close> for the handle of the Available Audio
  Contexts characteristic; \<open>snk_avail_cont\<close> and \<open>src_avail_cont\<close> are the parsed
  value, \<open>addr\<close> is the device that owns the connection.
\<close>

definition LeAudioCharValueHandle_audio_avail ::
  "environment \<Rightarrow> RawAddress \<Rightarrow> AudioContexts \<Rightarrow> AudioContexts \<Rightarrow> LeAudioClientImpl
     \<Rightarrow> LeAudioClientImpl" where
  "LeAudioCharValueHandle_audio_avail env addr snk_avail_cont src_avail_cont c =
     (case FindByAddress (leAudioDevices c) addr of
        None \<Rightarrow> c
      | Some leAudioDevice \<Rightarrow>
          (let (updated_avail_contexts, dev1) =
                 SetAvailableContexts env leAudioDevice snk_avail_cont src_avail_cont;
               c1 = put_device dev1 c
           in if updated_avail_contexts \<noteq> 0
              then (case FindById (aseGroups c1) (dev_group_id leAudioDevice) of
                      None \<Rightarrow> c1
                    | Some grp \<Rightarrow>
                        if IsInTransition grp \<or>
                           current_state grp = BTA_LE_AUDIO_ASE_STATE_STREAMING
                        then put_group
                               (grp\<lparr>pending_update_available_contexts :=
                                       Some updated_avail_contexts\<rparr>) c1
                        else (case apply_UpdateActiveContextsMap env grp updated_avail_contexts of
                                (Some updated_contexts, g1) \<Rightarrow>
                                  emit (OnAudioConf (audio_directions g1) (group_id g1)
                                          (snk_audio_locations g1) (src_audio_locations g1)
                                          (active_contexts_mask g1))
                                    (put_group g1 c1)
                              | (None, g1) \<Rightarrow> put_group g1 c1))
              else c1))"

text \<open>
  \<^verbatim>\<open>HandlePendingAvailableContexts\<close>; the group pointer is given by the id that
  \<^verbatim>\<open>StatusReportCb\<close> looked up.
\<close>

definition HandlePendingAvailableContexts ::
  "environment \<Rightarrow> int \<Rightarrow> LeAudioClientImpl \<Rightarrow> LeAudioClientImpl" where
  "HandlePendingAvailableContexts env gid c =
     (case FindById (aseGroups c) gid of
        None \<Rightarrow> c
      | Some grp \<Rightarrow>
          (case pending_update_available_contexts grp of
             None \<Rightarrow> c
           | Some pending \<Rightarrow>
               (case apply_UpdateActiveContextsMap env grp pending of
                  (updated_contexts, g1) \<Rightarrow>
                    (let c1 = (case updated_contexts of
                                 Some contexts \<Rightarrow>
                                   emit (OnAudioConf (audio_directions g1) (group_id g1)
                                           (snk_audio_locations g1) (src_audio_locations g1)
                                           contexts) c
                               | None \<Rightarrow> c)
                     in put_group (g1\<lparr>pending_update_available_contexts := None\<rparr>) c1))))"

datatype GroupStreamStatus =
  GroupStreamStatus_IDLE | GroupStreamStatus_STREAMING | GroupStreamStatus_RELEASING
  | GroupStreamStatus_SUSPENDING | GroupStreamStatus_SUSPENDED
  | GroupStreamStatus_CONFIGURED_AUTONOMOUS | GroupStreamStatus_CONFIGURED_BY_USER
  | GroupStreamStatus_unlisted

definition clear_setup_timestamps :: "LeAudioClientImpl \<Rightarrow> LeAudioClientImpl" where
  "clear_setup_timestamps c =
     c\<lparr>stream_setup_end_timestamp := 0, stream_setup_start_timestamp := 0\<rparr>"

definition StatusReportCb ::
  "environment \<Rightarrow> int \<Rightarrow> GroupStreamStatus \<Rightarrow> LeAudioClientImpl \<Rightarrow> fault + LeAudioClientImpl" where
  "StatusReportCb env gid status c =
     (let finish = (\<lambda>c1. Inr (HandlePendingAvailableContexts env gid (CancelStreamingRequest c1)))
      in case status of
        GroupStreamStatus_STREAMING \<Rightarrow>
          if gid \<noteq> active_group_id c then Inl AssertionFailed
          else (case (if audio_sender_state c = READY_TO_START
                      then map_sum id snd (StartSendingAudio env gid c) else Inr c) of
                  Inl f \<Rightarrow> Inl f
                | Inr c1 \<Rightarrow>
                    (case (if audio_receiver_state c1 = READY_TO_START
                           then StartReceivingAudio env gid c1 else Inr c1) of
                       Inl f \<Rightarrow> Inl f
                     | Inr c2 \<Rightarrow>
                         Inr (c2\<lparr>stream_setup_end_timestamp := time_get_os_boottime_us env\<rparr>)))
      | GroupStreamStatus_SUSPENDED \<Rightarrow> Inr (SuspendAudio (clear_setup_timestamps c))
      | GroupStreamStatus_CONFIGURED_BY_USER \<Rightarrow> finish c
      | GroupStreamStatus_CONFIGURED_AUTONOMOUS \<Rightarrow>
          (case FindById (aseGroups c) gid of
             None \<Rightarrow> Inl NullDereference
           | Some grp \<Rightarrow>
               if pending_configuration grp
               then Inr (emit (ConfigureStream gid (current_context_type c))
                           (SuspendedForReconfiguration (clear_setup_timestamps c)))
               else finish (clear_setup_timestamps c))
      | GroupStreamStatus_IDLE \<Rightarrow>
          (case FindById (aseGroups c) gid of
             None \<Rightarrow> finish (clear_setup_timestamps c)
           | Some grp \<Rightarrow>
               if pending_configuration grp
               then (let c1 = emit (ConfigureStream gid (current_context_type c))
                                (SuspendedForReconfiguration (clear_setup_timestamps c))
                     in if ConfigureStream_result env grp (current_context_type c) then Inr c1
                        else finish c1)
               else finish (clear_setup_timestamps c))
      | GroupStreamStatus_RELEASING \<Rightarrow>
          (let c1 = (if audio_sender_state c \<noteq> IDLE
                     then c\<lparr>audio_sender_state := RELEASING\<rparr> else c)
           in Inr (if audio_receiver_state c1 \<noteq> IDLE
                   then c1\<lparr>audio_receiver_state := RELEASING\<rparr> else c1))
      | GroupStreamStatus_SUSPENDING \<Rightarrow>
          (let c1 = (if audio_sender_state c \<noteq> IDLE
                     then c\<lparr>audio_sender_state := RELEASING\<rparr> else c)
           in Inr (if audio_receiver_state c1 \<noteq> IDLE
                   then c1\<lparr>audio_receiver_state := RELEASING\<rparr> else c1))
      | GroupStreamStatus_unlisted \<Rightarrow> Inr c)"

subsection \<open>Uplink: decoding an SDU and handing it to the audio framework\<close>

text \<open>
  The size of the PCM buffer in \<^verbatim>\<open>SendAudioData\<close>.  The arguments are the two
  \<^verbatim>\<open>uint32_t\<close> fields \<^verbatim>\<open>current_sink_codec_config.data_interval_us\<close> and
  \<^verbatim>\<open>audio_framework_sink_config.sample_rate\<close>; they initialise the \<^verbatim>\<open>int\<close> variables
  \<open>dt_us\<close> and \<open>af_hz\<close>, so a field of \<open>2^31\<close> or more is read as a negative number.
  The division truncates, and a product outside the range of \<^verbatim>\<open>int\<close> is a fault.
  \<open>None\<close> is the branch that logs ``BAD dt_us'' and returns.
\<close>

definition SendAudioData_pcm_size :: "32 word \<Rightarrow> 32 word \<Rightarrow> fault + int option" where
  "SendAudioData_pcm_size data_interval sample_rate_hz =
     (let dt_us = sint data_interval;
          af_hz = sint sample_rate_hz
      in if dt_us = 10000
         then (if af_hz = 44100 then Inr (Some 480) else Inr (Some (af_hz sdiv 100)))
         else if dt_us = 7500
         then (if af_hz = 44100 then Inr (Some 360)
               else if in_int_range (af_hz * 3) then Inr (Some ((af_hz * 3) sdiv 400))
               else Inl SignedOverflow)
         else Inr None)"

text \<open>
  \<^verbatim>\<open>SendAudioDataToAF\<close>.  \<open>None\<close> is a null vector pointer.  The byte count handed to
  the audio HAL is kept in a \<^verbatim>\<open>uint16_t\<close>.
\<close>

definition af_write :: "16 word list \<Rightarrow> effect" where
  "af_write samples = Sink_SendData (take (((2 * length samples) mod 65536) div 2) samples)"

fun interleave :: "16 word list \<Rightarrow> 16 word list \<Rightarrow> 16 word list" where
  "interleave (r # rs) (l # ls) = r # l # interleave rs ls"
| "interleave _ _ = []"

definition SendAudioDataToAF ::
  "bool \<Rightarrow> bool \<Rightarrow> 16 word list option \<Rightarrow> 16 word list option \<Rightarrow> LeAudioClientImpl
     \<Rightarrow> fault + LeAudioClientImpl" where
  "SendAudioDataToAF bt_got_stereo af_is_stereo left right c =
     (if \<not> bt_got_stereo \<and> \<not> af_is_stereo
      then (case (if left \<noteq> None then left else right) of
              None \<Rightarrow> Inl NullDereference
            | Some mono_pcm \<Rightarrow> Inr (emit (af_write mono_pcm) c))
      else if bt_got_stereo \<and> af_is_stereo
      then (case (left, right) of
              (Some l, Some r) \<Rightarrow>
                if length r < length l then Inl OutOfBounds
                else Inr (emit (af_write (interleave (take (length l) r) l)) c)
            | _ \<Rightarrow> Inl NullDereference)
      else if bt_got_stereo \<and> \<not> af_is_stereo
      then (case (left, right) of
              (Some l, Some r) \<Rightarrow>
                if length r < length l then Inl OutOfBounds
                else Inr (emit (af_write (map2 (\<lambda>x y. word_of_int ((sint x + sint y) sdiv 2))
                                            l (take (length l) r))) c)
            | _ \<Rightarrow> Inl NullDereference)
      else (case (left, right) of
              (None, None) \<Rightarrow> Inl NullDereference
            | (Some l, None) \<Rightarrow> Inr (emit (af_write (interleave (replicate (length l) 0) l)) c)
            | (None, Some r) \<Rightarrow> Inr (emit (af_write (interleave r (replicate (length r) 0))) c)
            | (Some l, Some r) \<Rightarrow>
                if length r < length l then Inl OutOfBounds
                else Inr (emit (af_write (interleave (take (length l) r) l)) c)))"

text \<open>
  \<^verbatim>\<open>SendAudioData\<close>, in two parts.  The last CIS of the source streams whose location
  has a left (right) bit is the left (right) handle.
\<close>

definition cis_handle_of :: "32 word \<Rightarrow> (16 word \<times> 32 word) list \<Rightarrow> 16 word" where
  "cis_handle_of side cis_list =
     fold (\<lambda>(cis_handle, audio_location) h. if audio_location AND side \<noteq> 0 then cis_handle else h)
       cis_list 0"

text \<open>
  \<^verbatim>\<open>std::vector<int16_t> pcm_data_decoded(pcm_size, 0)\<close> after the decoder has stored
  the samples \<open>written\<close> at its front; the caller makes sure that they fit.
\<close>

definition pcm_buffer :: "nat \<Rightarrow> 16 word list \<Rightarrow> 16 word list" where
  "pcm_buffer pcm_size written = written @ replicate (pcm_size - length written) 0"

definition cache_channel ::
  "16 word list \<Rightarrow> 32 word \<Rightarrow> bool \<Rightarrow> LeAudioClientImpl \<Rightarrow> LeAudioClientImpl" where
  "cache_channel pcm timestamp is_left c =
     c\<lparr>cached_channel_data := pcm, cached_channel_timestamp := timestamp,
       cached_channel_is_left := is_left\<rparr>"

definition send_cached_then_cache ::
  "bool \<Rightarrow> 16 word list \<Rightarrow> 32 word \<Rightarrow> bool \<Rightarrow> LeAudioClientImpl \<Rightarrow> fault + LeAudioClientImpl" where
  "send_cached_then_cache af_is_stereo pcm timestamp is_left c =
     map_sum id (cache_channel pcm timestamp is_left)
       (if cached_channel_is_left c
        then SendAudioDataToAF False af_is_stereo (Some (cached_channel_data c)) None c
        else SendAudioDataToAF False af_is_stereo None (Some (cached_channel_data c)) c)"

text \<open>
  The first part, up to the test of the decoder's answer.  A negative size cannot be
  allocated; the decoder stores its frame through the pointer it is given, and a
  frame longer than the buffer is written behind its end.  The result is \<open>None\<close> with
  the client as the function leaves it when the function has returned, and otherwise
  \<open>is_left\<close>, whether one of the two handles is zero, and \<open>pcm_data_decoded\<close>.
\<close>

definition SendAudioData_decode ::
  "environment \<Rightarrow> 8 word list \<Rightarrow> 16 word \<Rightarrow> LeAudioClientImpl
     \<Rightarrow> fault + (bool \<times> bool \<times> 16 word list) option \<times> LeAudioClientImpl" where
  "SendAudioData_decode env data cis_hdl c =
     (if active_group_id c = kGroupUnknown \<or> audio_receiver_state c \<noteq> STARTED then Inr (None, c)
      else case FindById (aseGroups c) (active_group_id c) of
        None \<Rightarrow> Inr (None, c)
      | Some grp \<Rightarrow>
          (let left_cis_handle =
                 cis_handle_of (kLeAudioLocationAnyLeft env) (source_streams (stream_conf grp));
               right_cis_handle =
                 cis_handle_of (kLeAudioLocationAnyRight env) (source_streams (stream_conf grp))
           in if cis_hdl \<noteq> left_cis_handle \<and> cis_hdl \<noteq> right_cis_handle then Inr (None, c)
              else
          (let is_left = (cis_hdl = left_cis_handle);
               required_for_channel_byte_count =
                 source_octets_per_codec_frame (stream_conf grp) mod 65536
           in case SendAudioData_pcm_size (data_interval_us (current_sink_codec_config c))
                     (sample_rate (audio_framework_sink_config c)) of
                Inl f \<Rightarrow> Inl f
              | Inr None \<Rightarrow> Inr (None, c)
              | Inr (Some pcm_size) \<Rightarrow>
                  if pcm_size < 0 then Inl BadAlloc
                  else
          (let input = (if required_for_channel_byte_count \<noteq> length data then None
                        else Some data);
               (err, written) = lc3_decode_result env is_left input;
               c1 = emit (lc3_decode is_left input) c
           in if nat pcm_size < length written then Inl OutOfBounds
              else if err < 0 then Inr (None, c1)
              else Inr (Some (is_left, left_cis_handle = 0 \<or> right_cis_handle = 0,
                              pcm_buffer (nat pcm_size) written), c1)))))"

text \<open>
  The second part: the decoded buffer goes to the audio framework (one channel), is
  cached (first of two channels), or is mixed with the cached channel.
\<close>

definition SendAudioData_deliver ::
  "bool \<Rightarrow> bool \<Rightarrow> bool \<Rightarrow> 16 word list \<Rightarrow> 32 word \<Rightarrow> LeAudioClientImpl
     \<Rightarrow> fault + LeAudioClientImpl" where
  "SendAudioData_deliver af_is_stereo is_left one_channel pcm_data_decoded timestamp c1 =
     (if one_channel
      then SendAudioDataToAF False af_is_stereo (Some pcm_data_decoded) None c1
      else if cached_channel_timestamp c1 = 0 \<and> cached_channel_data c1 = []
      then Inr (cache_channel pcm_data_decoded timestamp is_left c1)
      else if cached_channel_is_left c1 \<noteq> is_left
      then (if timestamp = cached_channel_timestamp c1
            then map_sum id CleanCachedMicrophoneData
                   (if is_left
                    then SendAudioDataToAF True af_is_stereo
                           (Some (cached_channel_data c1)) (Some pcm_data_decoded) c1
                    else SendAudioDataToAF True af_is_stereo
                           (Some pcm_data_decoded) (Some (cached_channel_data c1)) c1)
            else send_cached_then_cache af_is_stereo pcm_data_decoded timestamp is_left c1)
      else send_cached_then_cache af_is_stereo pcm_data_decoded timestamp is_left c1)"

definition SendAudioData ::
  "environment \<Rightarrow> 8 word list \<Rightarrow> 16 word \<Rightarrow> 32 word \<Rightarrow> LeAudioClientImpl
     \<Rightarrow> fault + LeAudioClientImpl" where
  "SendAudioData env data cis_hdl timestamp c =
     (case SendAudioData_decode env data cis_hdl c of
        Inl f \<Rightarrow> Inl f
      | Inr (None, c1) \<Rightarrow> Inr c1
      | Inr (Some (is_left, one_channel, pcm_data_decoded), c1) \<Rightarrow>
          SendAudioData_deliver (num_channels (audio_framework_sink_config c) = 2)
            is_left one_channel pcm_data_decoded timestamp c1)"

subsection \<open>Auxiliary notions for the properties\<close>

text \<open>What \<^verbatim>\<open>CancelStreamingRequest\<close> and \<^verbatim>\<open>DisconnectDevice\<close> add to the trace.\<close>

definition CancelStreamingRequest_effects :: "LeAudioClientImpl \<Rightarrow> effect list" where
  "CancelStreamingRequest_effects c =
     (if audio_sender_state c \<noteq> IDLE then [Source_CancelStreamingRequest] else []) @
     (if audio_receiver_state c \<noteq> IDLE then [Sink_CancelStreamingRequest] else [])"

definition DisconnectDevice_effects :: "environment \<Rightarrow> LeAudioDevice \<Rightarrow> bool \<Rightarrow> effect list" where
  "DisconnectDevice_effects env d force =
     (case conn_id d of
        None \<Rightarrow> []
      | Some cid \<Rightarrow>
          (case (if force then BTM_GetHCIConnHandle env (address d) else None) of
             Some h \<Rightarrow> [acl_disconnect_from_handle h]
           | None \<Rightarrow> [BtaGattQueue_Clean cid, BTA_GATTC_Close cid]))"

text \<open>What \<^verbatim>\<open>SuspendedForReconfiguration\<close> adds to the trace.\<close>

definition SuspendedForReconfiguration_effects :: "LeAudioClientImpl \<Rightarrow> effect list" where
  "SuspendedForReconfiguration_effects c =
     (if audio_sender_state c \<noteq> IDLE then [Source_SuspendedForReconfiguration] else []) @
     (if audio_receiver_state c \<noteq> IDLE then [Sink_SuspendedForReconfiguration] else [])"

text \<open>The calls of the callback \<^verbatim>\<open>OnAudioConf\<close> in a list of outgoing calls.\<close>

definition is_OnAudioConf :: "effect \<Rightarrow> bool" where
  "is_OnAudioConf e = (case e of OnAudioConf dirs gid snk src contexts \<Rightarrow> True | _ \<Rightarrow> False)"

definition OnAudioConf_calls :: "effect list \<Rightarrow> effect list" where
  "OnAudioConf_calls es = filter is_OnAudioConf es"

text \<open>
  The attach branch of \<^verbatim>\<open>AttachToStreamingGroupIfNeeded\<close>, entry by entry.  The state
  between two calls of \<^verbatim>\<open>ConfigureAses\<close> is the counter of active sink ASEs, the
  counter of active source ASEs and the device; \<open>attach_step\<close> is one call, made with
  the counter of the direction of the entry.  \<open>attach_attempts\<close> lists, for every entry
  of the configuration in order, the call made for it and its answer if all entries
  before it were configured; \<open>calls_until_failure\<close> are the calls up to and including
  the first one that is refused; \<open>configured_entries\<close> are the entries named in a list
  of calls.
\<close>

definition attach_step ::
  "environment \<Rightarrow> LeAudioContextType \<Rightarrow> AudioLocations \<Rightarrow> AudioLocations \<Rightarrow> SetConfiguration
     \<Rightarrow> nat \<times> nat \<times> LeAudioDevice \<Rightarrow> bool \<times> nat \<times> nat \<times> LeAudioDevice" where
  "attach_step env ctx snk src ent st =
     (case st of
        (sink_n, source_n, dev) \<Rightarrow>
          if ent_direction ent = kLeAudioDirectionSink
          then (case ConfigureAses_result env dev ent ctx sink_n snk src of
                  (ok, n, dev') \<Rightarrow> (ok, n, source_n, dev'))
          else (case ConfigureAses_result env dev ent ctx source_n snk src of
                  (ok, n, dev') \<Rightarrow> (ok, sink_n, n, dev')))"

fun attach_attempts ::
  "environment \<Rightarrow> LeAudioContextType \<Rightarrow> AudioLocations \<Rightarrow> AudioLocations \<Rightarrow> SetConfiguration list
     \<Rightarrow> nat \<times> nat \<times> LeAudioDevice \<Rightarrow> (effect \<times> bool) list" where
  "attach_attempts env ctx snk src [] st = []"
| "attach_attempts env ctx snk src (ent # ents) st =
     (ConfigureAses (address (snd (snd st))) ent, fst (attach_step env ctx snk src ent st)) #
     attach_attempts env ctx snk src ents (snd (attach_step env ctx snk src ent st))"

definition calls_until_failure :: "(effect \<times> bool) list \<Rightarrow> effect list" where
  "calls_until_failure xs = map fst (takeWhile snd xs) @ map fst (take 1 (dropWhile snd xs))"

definition configured_entries :: "effect list \<Rightarrow> SetConfiguration list" where
  "configured_entries es =
     List.map_filter (\<lambda>e. case e of ConfigureAses a ent \<Rightarrow> Some ent | _ \<Rightarrow> None) es"

text \<open>Which of the four LC3 codec memories are allocated.\<close>

definition codec_mem :: "LeAudioClientImpl \<Rightarrow> bool \<times> bool \<times> bool \<times> bool" where
  "codec_mem c =
     (lc3_encoder_left_mem c, lc3_encoder_right_mem c, lc3_decoder_left_mem c,
      lc3_decoder_right_mem c)"


text \<open>
  The members of a group that have an active ASE, in the order of the member list,
  and the members that \<^verbatim>\<open>OnLeAudioDeviceSetStateTimeout\<close> hands to
  \<^verbatim>\<open>DisconnectDevice\<close>: the active members, or the first member when none is active.
\<close>

definition active_members :: "LeAudioDevice list \<Rightarrow> LeAudioDeviceGroup \<Rightarrow> LeAudioDevice list" where
  "active_members devs g = filter HaveActiveAse (group_devices devs g)"

definition timeout_targets :: "LeAudioDevice list \<Rightarrow> LeAudioDeviceGroup \<Rightarrow> LeAudioDevice list" where
  "timeout_targets devs g =
     (if active_members devs g = [] then take 1 (group_devices devs g)
      else active_members devs g)"

text \<open>
  The handlers embedded above as one type of events, and the function that runs one
  of them.
\<close>

datatype client_event =
  Ev_group_add_node int RawAddress bool
  | Ev_group_remove_node int RawAddress bool
  | Ev_IsoCigEventsCb cig_event
  | Ev_OnLeAudioDeviceSetStateTimeout int
  | Ev_UpdateContextAndLocations int RawAddress
  | Ev_GroupStream int "16 word"
  | Ev_GroupStop int
  | Ev_AttachToStreamingGroupIfNeeded RawAddress
  | Ev_OnAudioSinkResume | Ev_OnAudioSourceResume
  | Ev_OnAudioSinkSuspend | Ev_OnAudioSourceSuspend
  | Ev_suspend_timeout_expired
  | Ev_StatusReportCb int GroupStreamStatus
  | Ev_audio_avail RawAddress AudioContexts AudioContexts
  | Ev_SendAudioData "8 word list" "16 word" "32 word"

definition run_event ::
  "environment \<Rightarrow> client_event \<Rightarrow> LeAudioClientImpl \<Rightarrow> fault + LeAudioClientImpl" where
  "run_event env ev c =
     (case ev of
        Ev_group_add_node gid addr upd \<Rightarrow> group_add_node env gid addr upd c
      | Ev_group_remove_node gid addr upd \<Rightarrow> group_remove_node env gid addr upd c
      | Ev_IsoCigEventsCb e \<Rightarrow> Inr (IsoCigEventsCb env e c)
      | Ev_OnLeAudioDeviceSetStateTimeout gid \<Rightarrow> Inr (OnLeAudioDeviceSetStateTimeout env gid c)
      | Ev_UpdateContextAndLocations gid addr \<Rightarrow> UpdateContextAndLocations env gid addr c
      | Ev_GroupStream gid t \<Rightarrow> Inr (GroupStream env gid t c)
      | Ev_GroupStop gid \<Rightarrow> Inr (GroupStop gid c)
      | Ev_AttachToStreamingGroupIfNeeded addr \<Rightarrow> AttachToStreamingGroupIfNeeded env addr c
      | Ev_OnAudioSinkResume \<Rightarrow> OnAudioSinkResume env c
      | Ev_OnAudioSourceResume \<Rightarrow> OnAudioSourceResume env c
      | Ev_OnAudioSinkSuspend \<Rightarrow> Inr (OnAudioSinkSuspend env c)
      | Ev_OnAudioSourceSuspend \<Rightarrow> Inr (OnAudioSourceSuspend env c)
      | Ev_suspend_timeout_expired \<Rightarrow> Inr (suspend_timeout_expired c)
      | Ev_StatusReportCb gid status \<Rightarrow> StatusReportCb env gid status c
      | Ev_audio_avail addr snk src \<Rightarrow> Inr (LeAudioCharValueHandle_audio_avail env addr snk src c)
      | Ev_SendAudioData data cis_hdl timestamp \<Rightarrow> SendAudioData env data cis_hdl timestamp c)"

text \<open>
  The invariant of the group registry: ids are unique (\<^verbatim>\<open>Add\<close> refuses an id that is
  taken) and every registered group has a member or a created CIG.  \<open>registry_ok_but\<close>
  exempts the groups whose id satisfies \<open>R\<close>; it describes the registry while
  \<^verbatim>\<open>group_add_node\<close> has created a group and not yet put the device into it.
\<close>

definition registry_ok_but :: "(int \<Rightarrow> bool) \<Rightarrow> LeAudioDeviceGroup list \<Rightarrow> bool" where
  "registry_ok_but R groups =
     (distinct (map group_id groups) \<and>
      list_all (\<lambda>g. R (group_id g) \<or> \<not> IsEmpty g \<or> cig_created g) groups)"

definition registry_ok :: "LeAudioDeviceGroup list \<Rightarrow> bool" where
  "registry_ok groups = registry_ok_but (\<lambda>i. False) groups"

text \<open>The part of a group that the invariant looks at.\<close>

definition registry_key :: "LeAudioDeviceGroup \<Rightarrow> int \<times> RawAddress list \<times> bool" where
  "registry_key g = (group_id g, grp_leAudioDevices g, cig_created g)"

text \<open>
  When an event may take a group \<open>g\<close> that was registered before it out of the
  registry: \<open>g\<close> is empty once the event has taken its device out of the member list,
  and has no CIG once the state machine has processed the event; no other event
  removes a group.
\<close>

definition removal_justified :: "environment \<Rightarrow> client_event \<Rightarrow> LeAudioDeviceGroup \<Rightarrow> bool" where
  "removal_justified env ev g =
     (case ev of
        Ev_group_remove_node gid addr upd \<Rightarrow>
          group_id g = gid \<and> removeAll addr (grp_leAudioDevices g) = [] \<and> \<not> cig_created g
      | Ev_group_add_node gid addr upd \<Rightarrow>
          removeAll addr (grp_leAudioDevices g) = [] \<and> \<not> cig_created g
      | Ev_IsoCigEventsCb e \<Rightarrow>
          (case e of
             kIsoEventCigOnRemoveCmpl status cig_id \<Rightarrow>
               group_id g = cig_id \<and> IsEmpty g \<and> \<not> OnCigRemove_cig_created env status g
           | _ \<Rightarrow> False)
      | _ \<Rightarrow> False)"

text \<open>
  The assumption on the state machine under which the invariant is stated: a
  Create-CIG completion does not clear \<open>cig_created\<close>.
\<close>

definition create_keeps_cig :: "environment \<Rightarrow> bool" where
  "create_keeps_cig env = (\<forall>g status. cig_created g \<longrightarrow> OnCigCreate_cig_created env g status)"

text \<open>
  A concrete configuration for evaluating the functions: context values as assigned
  by the Bluetooth SIG, a group 7 formed by two connected earbuds with one active
  sink ASE each, and collaborators with simple answers.
\<close>

definition demo_context_value :: "LeAudioContextType \<Rightarrow> 16 word" where
  "demo_context_value t =
     (case t of UNSPECIFIED \<Rightarrow> 0x0001 | CONVERSATIONAL \<Rightarrow> 0x0002 | MEDIA \<Rightarrow> 0x0004
      | GAME \<Rightarrow> 0x0008 | INSTRUCTIONAL \<Rightarrow> 0x0010 | NOTIFICATIONS \<Rightarrow> 0x0100
      | RINGTONE \<Rightarrow> 0x0200 | ALERTS \<Rightarrow> 0x0400 | EMERGENCYALARM \<Rightarrow> 0x0800 | RFU \<Rightarrow> 0x1000)"

definition demo_codec :: LeAudioCodecConfiguration where
  "demo_codec = LeAudioCodecConfiguration 1 16000 16 10000"

definition demo_env :: environment where
  "demo_env =
     \<lparr>context_value = demo_context_value,
      UpdateActiveContextsMap =
        (\<lambda>g update_contexts.
           if active_contexts_mask g OR update_contexts = active_contexts_mask g then None
           else Some (active_contexts_mask g OR update_contexts)),
      SetAvailableContexts =
        (\<lambda>d snk src. ((snk OR src) XOR GetAvailableContexts d,
                       d\<lparr>GetAvailableContexts := snk OR src\<rparr>)),
      GetCodecConfigurationByDirection =
        (\<lambda>g t dir. if t = MEDIA \<or> t = CONVERSATIONAL then Some demo_codec else None),
      ConfigureAses_result = (\<lambda>d ent t n snk src. (ases d \<noteq> [], n + 1, d)),
      GetRemoteDelay = (\<lambda>g dir. 20),
      get_num_of_devices_in_configuration = (\<lambda>cf. length (confs cf)),
      StartStream_result = (\<lambda>g t. True),
      ConfigureStream_result = (\<lambda>g t. True),
      OnCigCreate_cig_created = (\<lambda>g status. status = 0 \<or> cig_created g),
      OnCigRemove_cig_created = (\<lambda>status g. status \<noteq> 0 \<and> cig_created g),
      BTM_GetHCIConnHandle = (\<lambda>a. if a = 1 then Some 0x40 else if a = 2 then Some 0x41 else None),
      GetGroupId = (\<lambda>a. 7),
      kLeAudioLocationAnyLeft = 1,
      kLeAudioLocationAnyRight = 2,
      GetCodecLocation = HOST,
      lc3_frame_samples = (\<lambda>dt_us hz. (hz * dt_us) div 1000000),
      lc3_decode_result = (\<lambda>is_left input. (0, replicate 160 (if is_left then 7 else 9))),
      osi_property_get_int32 = (\<lambda>default_value. default_value),
      time_get_os_boottime_us = 1000\<rparr>"

definition demo_ase :: "16 word \<Rightarrow> 32 word \<Rightarrow> ase" where
  "demo_ase cis allocation =
     ase True kLeAudioDirectionSink cis (codec_config (Some allocation) 1 48000 10000 (Some 100) (Some 1))"

definition demo_left :: LeAudioDevice where
  "demo_left =
     \<lparr>address = 1, conn_id = Some 10, dev_group_id = 7, ases = [demo_ase 0x60 1],
      dev_snk_audio_locations = 1, dev_src_audio_locations = 0, GetAvailableContexts = 0x0004\<rparr>"

definition demo_right :: LeAudioDevice where
  "demo_right =
     \<lparr>address = 2, conn_id = Some 11, dev_group_id = 7, ases = [demo_ase 0x61 2],
      dev_snk_audio_locations = 2, dev_src_audio_locations = 0, GetAvailableContexts = 0x0004\<rparr>"

definition demo_group :: LeAudioDeviceGroup where
  "demo_group =
     (new_group 7)\<lparr>grp_leAudioDevices := [1, 2], audio_directions := 1,
        snk_audio_locations := 3, active_contexts_mask := 0x0004,
        stream_conf := empty_stream_configuration
          \<lparr>conf := Some (AudioSetConfiguration ''SingleDev_OneChanStereoSnk''
                         [SetConfiguration kLeAudioDirectionSink]),
           sink_streams := [(0x60, 1)], sink_num_of_devices := 1, sink_num_of_channels := 1,
           sink_octets_per_codec_frame := 100\<rparr>\<rparr>"

definition demo_client :: LeAudioClientImpl where
  "demo_client =
     \<lparr>leAudioDevices = [demo_left, demo_right], aseGroups = [demo_group],
      active_group_id = 7, current_context_type = MEDIA,
      stream_setup_start_timestamp = 0, stream_setup_end_timestamp = 0,
      audio_receiver_state = IDLE, audio_sender_state = IDLE,
      current_source_codec_config = demo_codec, current_sink_codec_config = demo_codec,
      audio_framework_source_config = LeAudioCodecConfiguration 2 48000 16 10000,
      audio_framework_sink_config = LeAudioCodecConfiguration 1 16000 16 10000,
      lc3_encoder_left_mem = False, lc3_encoder_right_mem = False,
      lc3_decoder_left_mem = False, lc3_decoder_right_mem = False,
      suspend_timeout = None, cached_channel_data = [], cached_channel_timestamp = 0,
      cached_channel_is_left = False, trace = []\<rparr>"

text \<open>The same client with the microphone running: one source CIS on the left.\<close>

definition demo_mic_client :: LeAudioClientImpl where
  "demo_mic_client =
     demo_client
       \<lparr>audio_receiver_state := STARTED,
        aseGroups := [demo_group\<lparr>stream_conf := (stream_conf demo_group)
                         \<lparr>source_streams := [(0x70, 1)],
                          source_octets_per_codec_frame := 2\<rparr>\<rparr>]\<rparr>"

text \<open>The microphones of both earbuds running: a source CIS on either side.\<close>

definition demo_stereo_mic_client :: LeAudioClientImpl where
  "demo_stereo_mic_client =
     demo_client
       \<lparr>audio_receiver_state := STARTED,
        aseGroups := [demo_group\<lparr>stream_conf := (stream_conf demo_group)
                         \<lparr>source_streams := [(0x70, 1), (0x71, 2)],
                          source_octets_per_codec_frame := 2\<rparr>\<rparr>]\<rparr>"

text \<open>
  The same client while group 7 streams to the loudspeakers, and the step by which
  the state machine brings every group back to IDLE.
\<close>

definition demo_streaming_client :: LeAudioClientImpl where
  "demo_streaming_client =
     demo_client
       \<lparr>audio_sender_state := STARTED,
        lc3_encoder_left_mem := True, lc3_encoder_right_mem := True,
        aseGroups := [demo_group\<lparr>current_state := BTA_LE_AUDIO_ASE_STATE_STREAMING,
                                 target_state := BTA_LE_AUDIO_ASE_STATE_STREAMING\<rparr>]\<rparr>"

text \<open>The audio framework has suspended the downlink of the streaming client.\<close>

definition demo_suspended_client :: LeAudioClientImpl where
  "demo_suspended_client = OnAudioSinkSuspend demo_env demo_streaming_client"

definition demo_groups_become_idle :: "LeAudioClientImpl \<Rightarrow> LeAudioClientImpl" where
  "demo_groups_become_idle c =
     c\<lparr>aseGroups := map (\<lambda>g. g\<lparr>current_state := BTA_LE_AUDIO_ASE_STATE_IDLE,
                                   target_state := BTA_LE_AUDIO_ASE_STATE_IDLE\<rparr>) (aseGroups c)\<rparr>"

lemmas demo_defs =
  demo_env_def demo_context_value_def demo_codec_def demo_ase_def demo_left_def demo_right_def
  demo_group_def demo_client_def demo_mic_client_def demo_stereo_mic_client_def
  demo_streaming_client_def
  demo_suspended_client_def
  demo_groups_become_idle_def new_group_def empty_stream_configuration_def

section \<open>Properties\<close>

subsection \<open>Lookups, stores and the trace\<close>

lemma FindByAddress_address: "FindByAddress devs a = Some d \<Longrightarrow> address d = a"
  by (auto simp: FindByAddress_def find_Some_iff)

lemma FindByAddress_store_other:
  "a \<noteq> address d \<Longrightarrow> FindByAddress (store_device d devs) a = FindByAddress devs a"
  by (induction devs) (auto simp: FindByAddress_def)

lemma FindById_store_group:
  "FindById gs (group_id g) = Some x \<Longrightarrow> FindById (store_group g gs) (group_id g) = Some g"
  by (induction gs) (auto simp: FindById_def split: if_splits)

lemma AudioState_val_IDLE: "AudioState_val s \<ge> AudioState_val READY_TO_START \<longleftrightarrow> s \<noteq> IDLE"
  by (cases s) simp_all

lemma CancelStreamingRequest_trace:
  "trace (CancelStreamingRequest c) = trace c @ CancelStreamingRequest_effects c"
  by (simp add: CancelStreamingRequest_def CancelStreamingRequest_effects_def Let_def emit_def
        AudioState_val_IDLE del: AudioState_val.simps)

lemma CancelStreamingRequest_states:
  "audio_sender_state (CancelStreamingRequest c) = IDLE"
  "audio_receiver_state (CancelStreamingRequest c) = IDLE"
  by (simp_all add: CancelStreamingRequest_def Let_def emit_def
        AudioState_val_IDLE del: AudioState_val.simps)

lemma CancelStreamingRequest_frame:
  "aseGroups (CancelStreamingRequest c) = aseGroups c"
  "leAudioDevices (CancelStreamingRequest c) = leAudioDevices c"
  by (simp_all add: CancelStreamingRequest_def Let_def emit_def)

lemma FindById_group_id: "FindById gs gid = Some g \<Longrightarrow> group_id g = gid"
  by (auto simp: FindById_def find_Some_iff)

lemma aseGroups_simps [simp]:
  "aseGroups (emit e c) = aseGroups c"
  "aseGroups (put_device d c) = aseGroups c"
  "aseGroups (put_group g c) = store_group g (aseGroups c)"
  "aseGroups (CancelStreamingRequest c) = aseGroups c"
  "aseGroups (SuspendedForReconfiguration c) = aseGroups c"
  "aseGroups (SuspendAudio c) = aseGroups c"
  "aseGroups (CleanCachedMicrophoneData c) = aseGroups c"
  "aseGroups (cache_channel pcm ts l c) = aseGroups c"
  "aseGroups (clear_setup_timestamps c) = aseGroups c"
  "aseGroups (OnAudioSuspend env c) = aseGroups c"
  "aseGroups (GroupStop gid c) = aseGroups c"
  by (simp_all add: emit_def put_device_def put_group_def CancelStreamingRequest_def
        SuspendedForReconfiguration_def SuspendAudio_def CleanCachedMicrophoneData_def
        cache_channel_def clear_setup_timestamps_def OnAudioSuspend_def GroupStop_def Let_def
      split: option.splits)

lemma trace_simps [simp]:
  "trace (emit e c) = trace c @ [e]"
  "trace (put_device d c) = trace c"
  "trace (put_group g c) = trace c"
  "trace (clear_setup_timestamps c) = trace c"
  by (simp_all add: emit_def put_device_def put_group_def clear_setup_timestamps_def)



lemma emitted_append [simp]: "trace c' = trace c @ es \<Longrightarrow> emitted c c' = es"
  by (simp add: emitted_def)

lemma OnAudioConf_calls_simps [simp]:
  "OnAudioConf_calls (xs @ ys) = OnAudioConf_calls xs @ OnAudioConf_calls ys"
  "OnAudioConf_calls [] = []"
  "OnAudioConf_calls (CancelStreamingRequest_effects c) = []"
  "OnAudioConf_calls (SuspendedForReconfiguration_effects c) = []"
  "OnAudioConf_calls [OnAudioConf dirs gid snk src contexts] = [OnAudioConf dirs gid snk src contexts]"
  "OnAudioConf_calls [ConfigureStream gid t] = []"
  by (simp_all add: OnAudioConf_calls_def is_OnAudioConf_def CancelStreamingRequest_effects_def
        SuspendedForReconfiguration_effects_def)

lemma aseGroups_configure_entries:
  "aseGroups (snd (configure_entries env t snk src ents sn srn dev c)) = aseGroups c"
  by (induction ents arbitrary: sn srn dev c) (auto simp: Let_def split: prod.splits)

subsection \<open>Context classification\<close>

lemma AudioContentToLeAudioContext_rule:
  "AudioContentToLeAudioContext cur ct u = classify_rule cur ct u"
  by (cases ct; cases u; simp add: AudioContentToLeAudioContext_def classify_rule_def)

lemma ChooseContextType_rule:
  "cs \<noteq> [] \<Longrightarrow> ChooseContextType cs = Some (choose_rule cs)"
  by (cases cs) (simp_all add: ChooseContextType_def choose_rule_def)

text \<open>
  C5.  The classification of one track follows the stated rule: a conversational
  current context is kept for speech or sonification content and for the usages
  voice communication, notification, telephony ringtone, alarm and emergency;
  otherwise the content type decides (speech gives CONVERSATIONAL, music, movie and
  sonification give MEDIA); otherwise the usage decides (voice communication, game,
  notification, telephony ringtone, alarm, emergency); everything else is MEDIA.
  Among several candidates CONVERSATIONAL wins, then MEDIA, then the first listed.
\<close>

theorem C5_context_classification:
  "AudioContentToLeAudioContext cur ct u = classify_rule cur ct u \<and>
   (cs \<noteq> [] \<longrightarrow> ChooseContextType cs = Some (choose_rule cs))"
  using AudioContentToLeAudioContext_rule ChooseContextType_rule by blast

theorem C5_context_classification_witness:
  "AudioContentToLeAudioContext CONVERSATIONAL AUDIO_CONTENT_TYPE_MUSIC AUDIO_USAGE_ALARM
     = CONVERSATIONAL \<and>
   [GAME, MEDIA, RINGTONE] \<noteq> [] \<and>
   ChooseContextType [GAME, MEDIA, RINGTONE] = Some MEDIA"
  using C5_context_classification
          [of CONVERSATIONAL AUDIO_CONTENT_TYPE_MUSIC AUDIO_USAGE_ALARM "[GAME, MEDIA, RINGTONE]"]
  by (simp add: classify_rule_def choose_rule_def)

subsection \<open>Downlink mono mix\<close>

lemma sint_half: "sint (signed_drop_bit 1 (x::16 word)) = sint x div 2"
  by (simp add: sint_signed_drop_bit_eq drop_bit_eq_div)

lemma half_range:
  fixes x :: "16 word"
  shows "- 16384 \<le> sint x div 2 \<and> sint x div 2 \<le> 16383"
proof -
  have "- (2 ^ 15) \<le> sint x" "sint x < 2 ^ 15"
    using sint_ge [of x] sint_lt [of x] by simp_all
  then show ?thesis by simp arith
qed

lemma low16_of_half_sum:
  fixes s :: int
  assumes "- 32768 \<le> s" "s \<le> 32766"
  shows "sint (ucast (drop_bit 1 (word_of_int s :: 32 word)) :: 16 word) = s div 2"
proof -
  have "sint (ucast (drop_bit 1 (word_of_int s :: 32 word)) :: 16 word)
        = signed_take_bit 15 (drop_bit 1 s)"
    by (simp add: sint_uint unsigned_ucast_eq unsigned_drop_bit_eq uint_word_of_int_eq
          signed_take_bit_take_bit drop_bit_take_bit)
  also have "\<dots> = s div 2"
  proof -
    have d: "drop_bit 1 s = s div 2" by (simp add: drop_bit_eq_div)
    have "- (2 ^ 15) \<le> s div 2" "s div 2 < 2 ^ 15" using assms by simp_all
    then show ?thesis unfolding d by (rule signed_take_bit_int_eq_self)
  qed
  finally show ?thesis .
qed

lemma scast_sum:
  fixes a b :: "16 word"
  shows "(scast a :: 32 word) + scast b = word_of_int (sint a + sint b)"
  by (simp only: scast_eq of_int_add)

text \<open>
  What the loop body computes, for every input: both samples are halved first, and
  the sum of the halves is halved again.
\<close>

lemma mono_frame_value:
  "sint (mono_frame data i) =
     (sint (sample_s16 data (i * 4)) div 2 + sint (sample_s16 data (i * 4 + 2)) div 2) div 2"
proof -
  let ?l = "sample_s16 data (i * 4)" and ?r = "sample_s16 data (i * 4 + 2)"
  have "- 32768 \<le> sint ?l div 2 + sint ?r div 2" "sint ?l div 2 + sint ?r div 2 \<le> 32766"
    using half_range [of ?l] half_range [of ?r] by linarith+
  from low16_of_half_sum [OF this] show ?thesis
    by (simp only: mono_frame_def Let_def scast_sum sint_half)
qed

text \<open>
  C9.  The claim is that every mono sample is the arithmetic mean of the left and the
  right sample.  The code does not compute that: for one stereo frame with left and
  right both 1000 (bytes E8 03 E8 03) the mono sample is 500, half of the mean, because
  the samples are shifted right by one before they are added and the sum is shifted
  right by one once more.
\<close>

theorem C9_mono_sample_is_half_the_mean:
  "sample_s16 [0xE8, 0x03, 0xE8, 0x03] 0 = 1000 \<and>
   sample_s16 [0xE8, 0x03, 0xE8, 0x03] 2 = 1000 \<and>
   mean_s16 1000 1000 = 1000 \<and>
   get_mono_stream 1 [0xE8, 0x03, 0xE8, 0x03] [] 1 = Inr [500]"
  by (simp add: get_mono_stream_def in_int_range_def mono_frame_def sample_s16_def mean_s16_def)

subsection \<open>Uplink PCM buffer size\<close>














subsection \<open>Starting a stream\<close>

text \<open>
  C1.  \<^verbatim>\<open>InternalGroupStream\<close> (and with it \<^verbatim>\<open>GroupStream\<close>) rejects the request, returning
  false and leaving state and trace untouched, so that \<^verbatim>\<open>StartStream\<close> is not called,
  when no member of the group is connected and when any group of the registry is in
  transition.  A context type below RFU that is not in the active-context bitmap of
  the group does not reject the request: the state machine's \<^verbatim>\<open>StartStream\<close> is called
  once, with the context UNSPECIFIED, and its answer is returned.
\<close>

theorem C1_group_stream_rejections:
  "((\<forall>grp. FindById (aseGroups c) gid = Some grp \<longrightarrow>
            \<not> IsAnyDeviceConnected (leAudioDevices c) grp) \<longrightarrow>
      InternalGroupStream env gid context_type c = (False, c)) \<and>
   (IsAnyInTransition (aseGroups c) \<longrightarrow>
      InternalGroupStream env gid context_type c = (False, c)) \<and>
   (context_type < context_value env RFU \<and> FindById (aseGroups c) gid = Some g \<and>
    context_type AND active_contexts_mask g = 0 \<and>
    IsAnyDeviceConnected (leAudioDevices c) g \<and> \<not> IsAnyInTransition (aseGroups c) \<longrightarrow>
      fst (InternalGroupStream env gid context_type c)
        = StartStream_result env g (context_value env UNSPECIFIED) \<and>
      emitted c (snd (InternalGroupStream env gid context_type c))
        = [StartStream gid (context_value env UNSPECIFIED)] \<and>
      emitted c (GroupStream env gid context_type c)
        = [StartStream gid (context_value env UNSPECIFIED)])"
  by (auto simp: InternalGroupStream_def GroupStream_def Let_def emitted_def emit_def
           split: option.splits)

theorem C1_group_stream_rejections_witness:
  "InternalGroupStream demo_env 7 0x0004
     (demo_client\<lparr>leAudioDevices := [demo_left\<lparr>conn_id := None\<rparr>, demo_right\<lparr>conn_id := None\<rparr>]\<rparr>)
     = (False, demo_client\<lparr>leAudioDevices :=
                             [demo_left\<lparr>conn_id := None\<rparr>, demo_right\<lparr>conn_id := None\<rparr>]\<rparr>) \<and>
   IsAnyInTransition
     (aseGroups (demo_client\<lparr>aseGroups :=
                    [demo_group, (new_group 8)\<lparr>target_state := BTA_LE_AUDIO_ASE_STATE_STREAMING\<rparr>]\<rparr>)) \<and>
   InternalGroupStream demo_env 7 0x0004
     (demo_client\<lparr>aseGroups :=
        [demo_group, (new_group 8)\<lparr>target_state := BTA_LE_AUDIO_ASE_STATE_STREAMING\<rparr>]\<rparr>)
     = (False, demo_client\<lparr>aseGroups :=
                 [demo_group, (new_group 8)\<lparr>target_state := BTA_LE_AUDIO_ASE_STATE_STREAMING\<rparr>]\<rparr>) \<and>
   (0x0008 :: 16 word) < context_value demo_env RFU \<and>
   (0x0008 :: 16 word) AND active_contexts_mask demo_group = 0 \<and>
   fst (InternalGroupStream demo_env 7 0x0008 demo_client) = True \<and>
   emitted demo_client (snd (InternalGroupStream demo_env 7 0x0008 demo_client))
     = [StartStream 7 0x0001]"
  using C1_group_stream_rejections
          [where env = demo_env and gid = 7 and context_type = "0x0004"
             and c = "demo_client\<lparr>leAudioDevices :=
                        [demo_left\<lparr>conn_id := None\<rparr>, demo_right\<lparr>conn_id := None\<rparr>]\<rparr>"]
        C1_group_stream_rejections
          [where env = demo_env and gid = 7 and context_type = "0x0004"
             and c = "demo_client\<lparr>aseGroups :=
                        [demo_group,
                         (new_group 8)\<lparr>target_state := BTA_LE_AUDIO_ASE_STATE_STREAMING\<rparr>]\<rparr>"]
        C1_group_stream_rejections
          [where env = demo_env and gid = 7 and context_type = "0x0008" and c = demo_client
             and g = demo_group]
  by (simp add: demo_defs FindById_def FindByAddress_def IsAnyDeviceConnected_def
        IsAnyInTransition_def IsInTransition_def group_devices_def List.map_filter_def)

subsection \<open>Expiry of the transition timer\<close>

lemma GetNextActive_cong:
  "(\<And>a. a \<in> set as \<Longrightarrow> FindByAddress devs' a = FindByAddress devs a) \<Longrightarrow>
     GetNextActive devs' as = GetNextActive devs as"
  by (induction as) (auto split: option.splits)

lemma map_filter_cong_set:
  "(\<And>a. a \<in> set as \<Longrightarrow> f a = g a) \<Longrightarrow> List.map_filter f as = List.map_filter g as"
  by (induction as) (auto simp: List.map_filter_simps split: option.splits)

lemma GetNextActive_None_filter:
  "GetNextActive devs as = None \<Longrightarrow>
     filter HaveActiveAse (List.map_filter (FindByAddress devs) as) = []"
  by (induction as) (auto simp: List.map_filter_simps split: option.splits if_splits)

lemma GetNextActive_Some_filter:
  "GetNextActive devs as = Some (d, rest) \<Longrightarrow>
     filter HaveActiveAse (List.map_filter (FindByAddress devs) as) =
       d # filter HaveActiveAse (List.map_filter (FindByAddress devs) rest) \<and>
     (\<exists>pre. as = pre @ address d # rest)"
proof (induction as)
  case Nil
  then show ?case by simp
next
  case (Cons x xs)
  show ?case
  proof (cases "FindByAddress devs x")
    case None
    with Cons.prems have "GetNextActive devs xs = Some (d, rest)" by simp
    from Cons.IH [OF this] obtain pre where
      f: "filter HaveActiveAse (List.map_filter (FindByAddress devs) xs) =
            d # filter HaveActiveAse (List.map_filter (FindByAddress devs) rest)"
      and p: "xs = pre @ address d # rest" by blast
    have "x # xs = (x # pre) @ address d # rest" using p by simp
    then show ?thesis using f None by (auto simp: List.map_filter_simps)
  next
    case (Some dx)
    then have ax: "address dx = x" by (rule FindByAddress_address)
    show ?thesis
    proof (cases "HaveActiveAse dx")
      case True
      with Some Cons.prems have "d = dx" "rest = xs" by simp_all
      moreover have "x # xs = [] @ address dx # xs" using ax by simp
      ultimately show ?thesis using Some True by (auto simp: List.map_filter_simps)
    next
      case False
      with Some Cons.prems have "GetNextActive devs xs = Some (d, rest)" by simp
      from Cons.IH [OF this] obtain pre where
        f: "filter HaveActiveAse (List.map_filter (FindByAddress devs) xs) =
              d # filter HaveActiveAse (List.map_filter (FindByAddress devs) rest)"
        and p: "xs = pre @ address d # rest" by blast
      have "x # xs = (x # pre) @ address d # rest" using p by simp
      then show ?thesis using f Some False by (auto simp: List.map_filter_simps)
    qed
  qed
qed

lemma GetFirst_None: "GetFirst devs as = None \<Longrightarrow> List.map_filter (FindByAddress devs) as = []"
  by (induction as) (auto simp: List.map_filter_simps split: option.splits)

lemma GetFirst_Some:
  "GetFirst devs as = Some (d, rest) \<Longrightarrow>
     List.map_filter (FindByAddress devs) as = d # List.map_filter (FindByAddress devs) rest \<and>
     (\<exists>pre. as = pre @ address d # rest)"
proof (induction as)
  case Nil
  then show ?case by simp
next
  case (Cons x xs)
  show ?case
  proof (cases "FindByAddress devs x")
    case None
    with Cons.prems have "GetFirst devs xs = Some (d, rest)" by simp
    from Cons.IH [OF this] obtain pre where
      f: "List.map_filter (FindByAddress devs) xs = d # List.map_filter (FindByAddress devs) rest"
      and p: "xs = pre @ address d # rest" by blast
    have "x # xs = (x # pre) @ address d # rest" using p by simp
    then show ?thesis using f None by (auto simp: List.map_filter_simps)
  next
    case (Some dx)
    then have ax: "address dx = x" by (rule FindByAddress_address)
    from Some Cons.prems have "d = dx" "rest = xs" by simp_all
    moreover have "x # xs = [] @ address dx # xs" using ax by simp
    ultimately show ?thesis using Some by (auto simp: List.map_filter_simps)
  qed
qed

lemma DisconnectDevice_trace:
  "trace (DisconnectDevice env d force c) = trace c @ DisconnectDevice_effects env d force"
  by (simp add: DisconnectDevice_def DisconnectDevice_effects_def emit_def put_device_def
           split: option.splits)

lemma DisconnectDevice_other_device:
  "a \<noteq> address d \<Longrightarrow>
     FindByAddress (leAudioDevices (DisconnectDevice env d force c)) a
       = FindByAddress (leAudioDevices c) a"
  by (simp add: DisconnectDevice_def emit_def put_device_def FindByAddress_store_other
           split: option.splits)

lemma DisconnectDevice_frame:
  "aseGroups (DisconnectDevice env d force c) = aseGroups c"
  "audio_sender_state (DisconnectDevice env d force c) = audio_sender_state c"
  "audio_receiver_state (DisconnectDevice env d force c) = audio_receiver_state c"
  by (simp_all add: DisconnectDevice_def emit_def put_device_def split: option.splits)

lemma disconnect_loop_frame:
  "aseGroups (disconnect_loop env d behind c) = aseGroups c \<and>
   audio_sender_state (disconnect_loop env d behind c) = audio_sender_state c \<and>
   audio_receiver_state (disconnect_loop env d behind c) = audio_receiver_state c"
proof (induction env d behind c rule: disconnect_loop.induct)
  case (1 env d behind c)
  show ?case
  proof (cases "GetNextActive (leAudioDevices (DisconnectDevice env d True c)) behind")
    case None
    then show ?thesis
      by (subst (1 2 3) disconnect_loop.simps) (simp add: DisconnectDevice_frame)
  next
    case (Some p)
    obtain n b where p: "p = (n, b)" by (cases p)
    from "1.IH" [OF refl, of "(n, b)" n b] Some p
    show ?thesis
      by (subst (1 2 3) disconnect_loop.simps) (simp add: DisconnectDevice_frame)
  qed
qed

text \<open>
  The calls of the loop: those of \<^verbatim>\<open>DisconnectDevice\<close> for the device it starts with
  and then for every active member behind it, each as the device is when the loop
  starts.
\<close>

lemma disconnect_loop_trace:
  "distinct behind \<Longrightarrow> address d \<notin> set behind \<Longrightarrow>
   trace (disconnect_loop env d behind c) =
     trace c @ concat (map (\<lambda>x. DisconnectDevice_effects env x True)
                         (d # filter HaveActiveAse
                                (List.map_filter (FindByAddress (leAudioDevices c)) behind)))"
proof (induction env d behind c rule: disconnect_loop.induct)
  case (1 env d behind c)
  let ?c1 = "DisconnectDevice env d True c"
  have same: "FindByAddress (leAudioDevices ?c1) a = FindByAddress (leAudioDevices c) a"
    if "a \<in> set behind" for a
    using that "1.prems"(2) by (intro DisconnectDevice_other_device) auto
  have next_same: "GetNextActive (leAudioDevices ?c1) behind = GetNextActive (leAudioDevices c) behind"
    by (rule GetNextActive_cong) (rule same)
  show ?case
  proof (cases "GetNextActive (leAudioDevices ?c1) behind")
    case None
    then have "filter HaveActiveAse (List.map_filter (FindByAddress (leAudioDevices c)) behind) = []"
      using next_same GetNextActive_None_filter by simp
    moreover have "disconnect_loop env d behind c = ?c1"
      using None by (subst disconnect_loop.simps) simp
    ultimately show ?thesis by (simp add: DisconnectDevice_trace)
  next
    case (Some p)
    obtain n b where p: "p = (n, b)" by (cases p)
    have gn: "GetNextActive (leAudioDevices c) behind = Some (n, b)"
      using Some p next_same by simp
    from GetNextActive_Some_filter [OF gn] obtain pre where
      f: "filter HaveActiveAse (List.map_filter (FindByAddress (leAudioDevices c)) behind) =
            n # filter HaveActiveAse (List.map_filter (FindByAddress (leAudioDevices c)) b)"
      and dec: "behind = pre @ address n # b" by blast
    have db: "distinct b" and nb: "address n \<notin> set b" and sub: "set b \<subseteq> set behind"
      using "1.prems"(1) dec by auto
    have "List.map_filter (FindByAddress (leAudioDevices ?c1)) b =
            List.map_filter (FindByAddress (leAudioDevices c)) b"
      by (rule map_filter_cong_set) (use same sub in auto)
    moreover have "trace (disconnect_loop env n b ?c1) =
            trace ?c1 @ concat (map (\<lambda>x. DisconnectDevice_effects env x True)
                                  (n # filter HaveActiveAse
                                         (List.map_filter (FindByAddress (leAudioDevices ?c1)) b)))"
      using "1.IH" [OF refl, of "(n, b)" n b] Some p db nb by simp
    moreover have "disconnect_loop env d behind c = disconnect_loop env n b ?c1"
      using Some p by (subst disconnect_loop.simps) simp
    ultimately show ?thesis using f by (simp add: DisconnectDevice_trace)
  qed
qed

text \<open>
  Claim C3, as the code has it.  When the transition timer expires for a group that
  still exists and whose member list has no duplicates, the handler sets the target
  state of the group to IDLE and cancels the pending streaming request of either
  direction (both audio states are IDLE afterwards, and a direction that was not idle
  has received \<^verbatim>\<open>CancelStreamingRequest\<close>).  Then it calls \<^verbatim>\<open>DisconnectDevice\<close> with
  \<open>acl_force_disconnect\<close> for every active member, in the order of the member list,
  or for the first member when no member is active, and makes no other call.  What
  such a call does is \<open>DisconnectDevice_effects\<close>: nothing for a member without a
  GATT connection, \<^verbatim>\<open>acl_disconnect_from_handle\<close> for a connected member with an ACL
  handle, and for a connected member without an ACL handle the GATT connection is
  closed instead.
\<close>

theorem C3_transition_timeout:
  fixes env :: environment and c :: LeAudioClientImpl and gid :: int
  assumes grp: "FindById (aseGroups c) gid = Some grp"
    and members: "distinct (grp_leAudioDevices grp)"
  defines "c' \<equiv> OnLeAudioDeviceSetStateTimeout env gid c"
  shows "FindById (aseGroups c') gid = Some (grp\<lparr>target_state := BTA_LE_AUDIO_ASE_STATE_IDLE\<rparr>) \<and>
         audio_sender_state c' = IDLE \<and> audio_receiver_state c' = IDLE \<and>
         emitted c c' =
           CancelStreamingRequest_effects c @
           concat (map (\<lambda>d. DisconnectDevice_effects env d True)
                       (timeout_targets (leAudioDevices c) grp)) \<and>
         (\<forall>d\<in>set (active_members (leAudioDevices c) grp).
            (conn_id d = None \<longrightarrow> DisconnectDevice_effects env d True = []) \<and>
            (\<forall>cid. conn_id d = Some cid \<longrightarrow>
               DisconnectDevice_effects env d True =
                 (case BTM_GetHCIConnHandle env (address d) of
                    Some h \<Rightarrow> [acl_disconnect_from_handle h]
                  | None \<Rightarrow> [BtaGattQueue_Clean cid, BTA_GATTC_Close cid])))"
proof -
  let ?g1 = "grp\<lparr>target_state := BTA_LE_AUDIO_ASE_STATE_IDLE\<rparr>"
  let ?c1 = "put_group ?g1 c"
  let ?c2 = "CancelStreamingRequest ?c1"
  let ?devs = "leAudioDevices c"
  let ?as = "grp_leAudioDevices grp"
  let ?eff = "\<lambda>d. DisconnectDevice_effects env d True"
  have gid: "group_id grp = gid" using grp by (rule FindById_group_id)
  have found2: "FindById (aseGroups ?c2) gid = Some ?g1"
    using FindById_store_group [of "aseGroups c" ?g1 grp] grp gid by simp
  have devs2: "leAudioDevices ?c2 = ?devs"
    by (simp add: CancelStreamingRequest_frame put_group_def)
  have trace2: "trace ?c2 = trace c @ CancelStreamingRequest_effects c"
    by (simp add: CancelStreamingRequest_trace CancelStreamingRequest_effects_def put_group_def)
  have st2: "audio_sender_state ?c2 = IDLE" "audio_receiver_state ?c2 = IDLE"
    by (rule CancelStreamingRequest_states)+
  have loop: "trace (disconnect_loop env d0 behind ?c2) =
                trace c @ CancelStreamingRequest_effects c @
                concat (map ?eff (d0 # filter HaveActiveAse
                                         (List.map_filter (FindByAddress ?devs) behind)))"
    if "?as = pre @ address d0 # behind" for d0 behind pre
  proof -
    have "distinct behind" "address d0 \<notin> set behind" using members that by auto
    from disconnect_loop_trace [OF this, of env ?c2] show ?thesis
      by (simp add: devs2 trace2)
  qed
  have frame: "aseGroups c' = aseGroups ?c2 \<and> audio_sender_state c' = IDLE \<and>
               audio_receiver_state c' = IDLE"
    unfolding c'_def OnLeAudioDeviceSetStateTimeout_def
    using disconnect_loop_frame st2 by (auto simp: grp Let_def split: option.splits)
  have tr: "trace c' = trace c @ CancelStreamingRequest_effects c @
                       concat (map ?eff (timeout_targets ?devs grp))"
  proof (cases "GetNextActive ?devs ?as")
    case (Some p)
    obtain d0 behind where p: "p = (d0, behind)" by (cases p)
    from GetNextActive_Some_filter [of ?devs ?as d0 behind] Some p obtain pre where
      f: "filter HaveActiveAse (List.map_filter (FindByAddress ?devs) ?as) =
            d0 # filter HaveActiveAse (List.map_filter (FindByAddress ?devs) behind)"
      and dec: "?as = pre @ address d0 # behind" by auto
    have "c' = disconnect_loop env d0 behind ?c2"
      unfolding c'_def OnLeAudioDeviceSetStateTimeout_def using Some p
      by (simp add: grp Let_def devs2)
    with loop [OF dec] f show ?thesis
      by (simp add: timeout_targets_def active_members_def group_devices_def)
  next
    case None
    then have none: "filter HaveActiveAse (List.map_filter (FindByAddress ?devs) ?as) = []"
      by (rule GetNextActive_None_filter)
    show ?thesis
    proof (cases "GetFirst ?devs ?as")
      case None
      then have "List.map_filter (FindByAddress ?devs) ?as = []" by (rule GetFirst_None)
      moreover have "c' = ?c2"
        unfolding c'_def OnLeAudioDeviceSetStateTimeout_def
        using None \<open>GetNextActive ?devs ?as = None\<close> by (simp add: grp Let_def devs2)
      ultimately show ?thesis
        by (simp add: trace2 timeout_targets_def active_members_def group_devices_def)
    next
      case (Some p)
      obtain d0 behind where p: "p = (d0, behind)" by (cases p)
      from GetFirst_Some [of ?devs ?as d0 behind] Some p obtain pre where
        f: "List.map_filter (FindByAddress ?devs) ?as =
              d0 # List.map_filter (FindByAddress ?devs) behind"
        and dec: "?as = pre @ address d0 # behind" by auto
      have rest: "filter HaveActiveAse (List.map_filter (FindByAddress ?devs) behind) = []"
        using none f by (simp split: if_splits)
      have "c' = disconnect_loop env d0 behind ?c2"
        unfolding c'_def OnLeAudioDeviceSetStateTimeout_def
        using Some p \<open>GetNextActive ?devs ?as = None\<close> by (simp add: grp Let_def devs2)
      with loop [OF dec] rest none f show ?thesis
        by (simp add: timeout_targets_def active_members_def group_devices_def)
    qed
  qed
  have em: "emitted c c' = CancelStreamingRequest_effects c @
                           concat (map ?eff (timeout_targets ?devs grp))"
    using tr by (rule emitted_append)
  have eff: "(conn_id d = None \<longrightarrow> ?eff d = []) \<and>
             (\<forall>cid. conn_id d = Some cid \<longrightarrow>
                ?eff d = (case BTM_GetHCIConnHandle env (address d) of
                            Some h \<Rightarrow> [acl_disconnect_from_handle h]
                          | None \<Rightarrow> [BtaGattQueue_Clean cid, BTA_GATTC_Close cid]))" for d
    by (simp add: DisconnectDevice_effects_def split: option.splits)
  show ?thesis
    using frame found2 em eff by simp
qed

theorem C3_transition_timeout_witness:
  "FindById (aseGroups (demo_client\<lparr>audio_sender_state := READY_TO_START\<rparr>)) 7 = Some demo_group \<and>
   distinct (grp_leAudioDevices demo_group) \<and>
   map address (active_members (leAudioDevices demo_client) demo_group) = [1, 2] \<and>
   (let c' = OnLeAudioDeviceSetStateTimeout demo_env 7
               (demo_client\<lparr>audio_sender_state := READY_TO_START\<rparr>)
    in map target_state (aseGroups c') = [BTA_LE_AUDIO_ASE_STATE_IDLE] \<and>
       audio_sender_state c' = IDLE \<and> audio_receiver_state c' = IDLE \<and>
       trace c' = [Source_CancelStreamingRequest, acl_disconnect_from_handle 0x40,
                   acl_disconnect_from_handle 0x41])"
  using C3_transition_timeout
          [where c = "demo_client\<lparr>audio_sender_state := READY_TO_START\<rparr>" and gid = 7
             and grp = demo_group and env = demo_env]
  by (simp add: demo_defs FindById_def FindByAddress_def emitted_def HaveActiveAse_def
        active_members_def timeout_targets_def group_devices_def List.map_filter_def
        OnLeAudioDeviceSetStateTimeout_def put_group_def CancelStreamingRequest_def emit_def
        CancelStreamingRequest_effects_def DisconnectDevice_effects_def
        DisconnectDevice_def disconnect_loop.simps Let_def)

text \<open>
  The sentence of C3 about the ACL does not hold as worded.  Both earbuds of group 7
  are active members.  The left one has no GATT connection (its ACL handle is 0x40):
  the handler does nothing for it.  The right one is connected but the stack has no
  ACL handle for it: its GATT connection is closed.  No ACL is disconnected.
\<close>

theorem C3_counterexample:
  "map address
     (active_members [demo_left\<lparr>conn_id := None\<rparr>, demo_right] demo_group) = [1, 2] \<and>
   trace (OnLeAudioDeviceSetStateTimeout
            (demo_env\<lparr>BTM_GetHCIConnHandle := \<lambda>a. if a = 1 then Some 0x40 else None\<rparr>) 7
            (demo_client\<lparr>leAudioDevices := [demo_left\<lparr>conn_id := None\<rparr>, demo_right]\<rparr>)) =
     [BtaGattQueue_Clean 11, BTA_GATTC_Close 11]"
  by (simp add: demo_defs FindById_def FindByAddress_def HaveActiveAse_def
        active_members_def group_devices_def List.map_filter_def
        OnLeAudioDeviceSetStateTimeout_def put_group_def put_device_def
        CancelStreamingRequest_def emit_def DisconnectDevice_def disconnect_loop.simps Let_def)

subsection \<open>Contexts and locations after a connection\<close>

text \<open>
  When \<^verbatim>\<open>UpdateContextAndLocations\<close> reads the empty optional: exactly when the contexts
  of the group did not change and its locations did.
\<close>

lemma UpdateContextAndLocations_empty_optional:
  "FindById (aseGroups c) gid = Some grp \<Longrightarrow>
   FindByAddress (leAudioDevices c) addr = Some d \<Longrightarrow>
   UpdateContextAndLocations env gid addr c = Inl EmptyOptionalAccess \<longleftrightarrow>
     UpdateActiveContextsMap env grp (GetAvailableContexts d) = None \<and>
     fst (ReloadAudioLocations (leAudioDevices c) grp)"
  by (auto simp: UpdateContextAndLocations_def apply_UpdateActiveContextsMap_def Let_def
           split: option.splits prod.splits)

text \<open>
  C10.  The claim is that the optional which \<^verbatim>\<open>UpdateContextAndLocations\<close> dereferences
  for the last argument of \<^verbatim>\<open>OnAudioConf\<close> is never empty.  The code reads it empty:
  the left earbud is known to group 7 with location 1, the right earbud (location 2)
  has just connected, the contexts of the group stay as they are
  (\<^verbatim>\<open>UpdateActiveContextsMap\<close> answers nothing) and the locations change from 1 to 3,
  so the branch is entered through \<^verbatim>\<open>ReloadAudioLocations\<close> and the empty optional is
  read.
\<close>

theorem C10_reads_empty_optional:
  "UpdateActiveContextsMap demo_env (demo_group\<lparr>snk_audio_locations := 1\<rparr>)
     (GetAvailableContexts demo_right) = None \<and>
   ReloadAudioLocations [demo_left, demo_right] (demo_group\<lparr>snk_audio_locations := 1\<rparr>)
     = (True, demo_group\<lparr>snk_audio_locations := 3\<rparr>) \<and>
   UpdateContextAndLocations demo_env 7 2
     (demo_client\<lparr>aseGroups := [demo_group\<lparr>snk_audio_locations := 1\<rparr>]\<rparr>)
     = Inl EmptyOptionalAccess"
  by (simp add: demo_defs UpdateContextAndLocations_def apply_UpdateActiveContextsMap_def
        ReloadAudioLocations_def FindById_def FindByAddress_def group_devices_def
        List.map_filter_def Let_def)

subsection \<open>The group registry\<close>

lemma group_id_store_group: "map group_id (store_group g gs) = map group_id gs"
  by (induction gs) auto

lemma FindById_None_iff: "FindById gs i = None \<longleftrightarrow> i \<notin> group_id ` set gs"
  by (auto simp: FindById_def find_None_iff)

lemma FindById_mem: "FindById gs i = Some g \<Longrightarrow> g \<in> set gs"
  by (auto simp: FindById_def find_Some_iff)

lemma set_store_group: "set (store_group g gs) \<subseteq> insert g (set gs)"
  by (induction gs) auto

lemma set_Remove_group: "set (Remove_group i gs) \<subseteq> set gs"
  by (induction gs) auto

lemma Remove_group_store_group:
  "Remove_group (group_id g) (store_group g gs) = Remove_group (group_id g) gs"
  by (induction gs) auto

lemma distinct_Remove_group:
  "distinct (map group_id gs) \<Longrightarrow> distinct (map group_id (Remove_group i gs))"
  by (induction gs) (use set_Remove_group in \<open>auto simp: image_iff\<close>)

lemma Remove_group_removes:
  "distinct (map group_id gs) \<Longrightarrow> i \<notin> group_id ` set (Remove_group i gs)"
  by (induction gs) (auto simp: image_iff)

lemma FindById_Remove_group_same:
  "distinct (map group_id gs) \<Longrightarrow> FindById (Remove_group i gs) i = None"
  by (simp add: FindById_None_iff Remove_group_removes)

lemma FindById_Remove_group_other:
  "j \<noteq> i \<Longrightarrow> FindById (Remove_group i gs) j = FindById gs j"
  by (induction gs) (auto simp: FindById_def)

lemma FindById_store_group_other:
  "j \<noteq> group_id g \<Longrightarrow> FindById (store_group g gs) j = FindById gs j"
  by (induction gs) (auto simp: FindById_def)

lemma registry_ok_but_store:
  "registry_ok_but R gs \<Longrightarrow> R (group_id g) \<or> \<not> IsEmpty g \<or> cig_created g \<Longrightarrow>
     registry_ok_but R (store_group g gs)"
  unfolding registry_ok_but_def list_all_iff
  using set_store_group [of g gs] by (auto simp: group_id_store_group)

lemma registry_ok_but_Remove:
  "registry_ok_but R gs \<Longrightarrow> registry_ok_but R (Remove_group i gs)"
  unfolding registry_ok_but_def list_all_iff
  using set_Remove_group [of i gs] by (auto simp: distinct_Remove_group)

lemma registry_ok_but_found:
  "registry_ok_but R gs \<Longrightarrow> FindById gs i = Some g \<Longrightarrow>
     R (group_id g) \<or> \<not> IsEmpty g \<or> cig_created g"
  unfolding registry_ok_but_def list_all_iff by (auto dest: FindById_mem)

lemma registry_ok_but_Add:
  "registry_ok_but R gs \<Longrightarrow> Add_group i gs = Some gs' \<Longrightarrow> registry_ok_but (\<lambda>j. R j \<or> j = i) gs'"
  unfolding registry_ok_but_def list_all_iff
  by (auto simp: Add_group_def new_group_def FindById_None_iff split: option.splits)

lemma registry_ok_but_weaken:
  "registry_ok_but R gs \<Longrightarrow> (\<And>j. R j \<Longrightarrow> R' j) \<Longrightarrow> registry_ok_but R' gs"
  unfolding registry_ok_but_def list_all_iff by auto

text \<open>Once the exempted group has a member, nothing is exempt any more.\<close>

lemma registry_ok_but_fill:
  assumes "registry_ok_but (\<lambda>j. R j \<or> j = i) gs" and "group_id g = i" and "\<not> IsEmpty g"
  shows "registry_ok_but R (store_group g gs)"
proof -
  have d: "distinct (map group_id gs)" using assms(1) by (simp add: registry_ok_but_def)
  have "R (group_id x) \<or> \<not> IsEmpty x \<or> cig_created x" if "x \<in> set (store_group g gs)" for x
    using that d assms
  proof (induction gs)
    case Nil
    then show ?case by simp
  next
    case (Cons y ys)
    show ?case
    proof (cases "group_id y = group_id g")
      case True
      with Cons.prems have "x = g \<or> x \<in> set ys" by simp
      moreover have "group_id z \<noteq> i" if "z \<in> set ys" for z
        using Cons.prems True that by (auto simp: image_iff)
      moreover have "list_all (\<lambda>g. (R (group_id g) \<or> group_id g = i) \<or> \<not> IsEmpty g \<or> cig_created g) ys"
        using Cons.prems by (simp add: registry_ok_but_def)
      ultimately show ?thesis using Cons.prems by (auto simp: list_all_iff)
    next
      case False
      with Cons.prems have "x = y \<or> x \<in> set (store_group g ys)" by simp
      moreover have "registry_ok_but (\<lambda>j. R j \<or> j = i) ys"
        using Cons.prems by (simp add: registry_ok_but_def)
      moreover have "R (group_id y) \<or> \<not> IsEmpty y \<or> cig_created y"
        using Cons.prems False by (simp add: registry_ok_but_def)
      ultimately show ?thesis using Cons.IH Cons.prems by auto
    qed
  qed
  then show ?thesis
    using d by (simp add: registry_ok_but_def list_all_iff group_id_store_group)
qed

text \<open>Storing a group that agrees with the stored one on id, members and CIG flag.\<close>

lemma registry_ok_but_store_same_key:
  assumes "registry_ok_but R gs" and "FindById gs i = Some x" and "registry_key g = registry_key x"
  shows "registry_ok_but R (store_group g gs)"
proof -
  have "R (group_id x) \<or> \<not> IsEmpty x \<or> cig_created x"
    using assms(1,2) by (rule registry_ok_but_found)
  with assms(3) have "R (group_id g) \<or> \<not> IsEmpty g \<or> cig_created g"
    by (simp add: registry_key_def IsEmpty_def)
  with assms(1) show ?thesis by (rule registry_ok_but_store)
qed

text \<open>How the embedded functions touch the registry.\<close>

lemma key_apply_UpdateActiveContextsMap:
  "registry_key (snd (apply_UpdateActiveContextsMap env g u)) = registry_key g"
  by (simp add: apply_UpdateActiveContextsMap_def registry_key_def split: option.splits)

lemma key_ReloadAudioLocations:
  "registry_key (snd (ReloadAudioLocations devs g)) = registry_key g"
  by (simp add: ReloadAudioLocations_def registry_key_def Let_def)

lemma keep_InternalGroupStream:
  "aseGroups (snd (InternalGroupStream env gid t c)) = aseGroups c"
  by (simp add: InternalGroupStream_def Let_def split: option.splits)

lemma keep_report_after_removal:
  assumes "registry_ok_but R (aseGroups c)" and "FindById (aseGroups c) i = Some x"
    and "registry_key g = registry_key x"
  shows "registry_ok_but R (aseGroups (report_after_removal env g c))"
proof -
  obtain u g1 where a: "apply_UpdateActiveContextsMap env g (active_contexts_mask g) = (u, g1)"
    by (cases "apply_UpdateActiveContextsMap env g (active_contexts_mask g)")
  obtain b g2 where r: "ReloadAudioLocations (leAudioDevices c) g1 = (b, g2)"
    by (cases "ReloadAudioLocations (leAudioDevices c) g1")
  have k1: "registry_key g1 = registry_key x"
    using key_apply_UpdateActiveContextsMap [of env g "active_contexts_mask g"] a assms(3) by simp
  have k2: "registry_key g2 = registry_key x"
    using key_ReloadAudioLocations [of "leAudioDevices c" g1] r k1 by simp
  show ?thesis
    using assms(1,2) k1 k2 a r
    by (auto simp: report_after_removal_def Let_def intro: registry_ok_but_store_same_key)
qed

lemma keep_UpdateContextAndLocations:
  assumes "registry_ok_but R (aseGroups c)" and "UpdateContextAndLocations env gid addr c = Inr c'"
  shows "registry_ok_but R (aseGroups c')"
proof -
  from assms(2) obtain grp d where
    grp: "FindById (aseGroups c) gid = Some grp" and d: "FindByAddress (leAudioDevices c) addr = Some d"
    by (auto simp: UpdateContextAndLocations_def split: option.splits)
  obtain u g1 where a: "apply_UpdateActiveContextsMap env grp (GetAvailableContexts d) = (u, g1)"
    by (cases "apply_UpdateActiveContextsMap env grp (GetAvailableContexts d)")
  obtain b g2 where r: "ReloadAudioLocations (leAudioDevices c) g1 = (b, g2)"
    by (cases "ReloadAudioLocations (leAudioDevices c) g1")
  have k1: "registry_key g1 = registry_key grp"
    using key_apply_UpdateActiveContextsMap [of env grp "GetAvailableContexts d"] a by simp
  have k2: "registry_key g2 = registry_key grp"
    using key_ReloadAudioLocations [of "leAudioDevices c" g1] r k1 by simp
  show ?thesis
    using assms grp d a r k1 k2
    by (auto simp: UpdateContextAndLocations_def Let_def split: option.splits if_splits
             intro: registry_ok_but_store_same_key)
qed

lemma keep_remove_group_if_possible:
  "registry_ok_but R (aseGroups c) \<Longrightarrow> registry_ok_but R (aseGroups (remove_group_if_possible p c))"
  by (auto simp: remove_group_if_possible_def registry_ok_but_Remove split: option.splits)

lemma keep_group_remove_node:
  assumes ok: "registry_ok_but R (aseGroups c)"
    and run: "group_remove_node env gid addr upd c = Inr c'"
  shows "registry_ok_but R (aseGroups c')"
proof -
  from run obtain grp d where
    grp: "FindById (aseGroups c) gid = Some grp" and d: "FindByAddress (leAudioDevices c) addr = Some d"
    by (auto simp: group_remove_node_def split: option.splits)
  let ?g1 = "grp\<lparr>grp_leAudioDevices := removeAll addr (grp_leAudioDevices grp)\<rparr>"
  let ?c1 = "put_device (d\<lparr>dev_group_id := kGroupUnknown\<rparr>) (put_group ?g1 c)"
  let ?c2 = "if upd \<and> GetGroupId env addr = gid then emit (DeviceGroups_RemoveDevice addr gid) ?c1
             else ?c1"
  let ?c3 = "emit (OnGroupNodeStatus_REMOVED addr gid) ?c2"
  have gid: "group_id grp = gid" using grp by (rule FindById_group_id)
  have groups3: "aseGroups ?c3 = store_group ?g1 (aseGroups c)" by simp
  have c': "c' = (if IsEmpty ?g1 then remove_group_if_possible (Some ?g1) ?c3
                  else report_after_removal env ?g1 ?c3)"
    using run grp d by (auto simp: group_remove_node_def Let_def split: if_splits)
  show ?thesis
  proof (cases "IsEmpty ?g1")
    case True
    show ?thesis
    proof (cases "cig_created grp")
      case True
      then have "registry_ok_but R (store_group ?g1 (aseGroups c))"
        using ok by (intro registry_ok_but_store) simp_all
      then show ?thesis
        using c' \<open>IsEmpty ?g1\<close> True by (simp add: remove_group_if_possible_def)
    next
      case False
      have "aseGroups c' = Remove_group gid (aseGroups c)"
        using c' \<open>IsEmpty ?g1\<close> False gid Remove_group_store_group [of ?g1 "aseGroups c"]
        by (simp add: remove_group_if_possible_def)
      then show ?thesis using ok by (simp add: registry_ok_but_Remove)
    qed
  next
    case False
    have ok3: "registry_ok_but R (aseGroups ?c3)"
      unfolding groups3 using ok False by (intro registry_ok_but_store) simp_all
    have found3: "FindById (aseGroups ?c3) gid = Some ?g1"
      unfolding groups3 using FindById_store_group [of "aseGroups c" ?g1 grp] grp gid by simp
    show ?thesis
      using c' False keep_report_after_removal [OF ok3 found3 refl] by simp
  qed
qed

lemma keep_group_add_node_move:
  assumes ok: "registry_ok_but (\<lambda>j. R j \<or> j = new_gid) (aseGroups c)"
    and run: "group_add_node_move env new_gid addr upd old c = Inr c'"
  shows "registry_ok_but R (aseGroups c')"
proof -
  from run obtain c1 where
    c1: "(case old of None \<Rightarrow> Inr c | Some old_gid \<Rightarrow> group_remove_node env old_gid addr upd c)
           = Inr c1"
    by (auto simp: group_add_node_move_def split: sum.splits)
  have ok1: "registry_ok_but (\<lambda>j. R j \<or> j = new_gid) (aseGroups c1)"
    using c1 ok keep_group_remove_node by (cases old) auto
  from run c1 obtain new_grp d where
    ng: "FindById (aseGroups c1) new_gid = Some new_grp"
    and d: "FindByAddress (leAudioDevices c1) addr = Some d"
    by (auto simp: group_add_node_move_def split: option.splits)
  let ?g1 = "new_grp\<lparr>grp_leAudioDevices := grp_leAudioDevices new_grp @ [addr]\<rparr>"
  let ?c3 = "emit (OnGroupNodeStatus_ADDED addr new_gid)
               (put_device (d\<lparr>dev_group_id := new_gid\<rparr>) (put_group ?g1 c1))"
  let ?c4 = "if conn_id d \<noteq> None then emit (AseInitialStateReadRequest addr) ?c3 else ?c3"
  let ?old_id = "case old of None \<Rightarrow> kGroupUnknown | Some old_gid \<Rightarrow> old_gid"
  have "group_id new_grp = new_gid" using ng by (rule FindById_group_id)
  then have "registry_ok_but R (store_group ?g1 (aseGroups c1))"
    using ok1 by (intro registry_ok_but_fill [where i = new_gid]) (simp_all add: IsEmpty_def)
  then have ok4: "registry_ok_but R (aseGroups ?c4)" by simp
  have tail: "(case FindById (aseGroups ?c4) ?old_id of
                 None \<Rightarrow> UpdateContextAndLocations env new_gid addr ?c4
               | Some old_grp \<Rightarrow>
                   if old = None then Inl NullDereference
                   else UpdateContextAndLocations env new_gid addr
                          (report_after_removal env old_grp ?c4)) = Inr c'"
    using run c1 ng d
    by (cases old; cases "conn_id d")
       (auto simp: group_add_node_move_def Let_def split: option.splits)
  show ?thesis
  proof (cases "FindById (aseGroups ?c4) ?old_id")
    case None
    with tail ok4 show ?thesis by (auto intro: keep_UpdateContextAndLocations)
  next
    case (Some old_grp)
    with tail have u: "UpdateContextAndLocations env new_gid addr
                         (report_after_removal env old_grp ?c4) = Inr c'"
      by (auto split: if_splits)
    from keep_report_after_removal [OF ok4 Some refl]
    have "registry_ok_but R (aseGroups (report_after_removal env old_grp ?c4))" .
    then show ?thesis using u by (rule keep_UpdateContextAndLocations)
  qed
qed

lemma keep_group_add_node_join:
  assumes ok: "registry_ok_but R (aseGroups c)"
    and run: "group_add_node_join env gid addr upd old c = Inr c'"
  shows "registry_ok_but R (aseGroups c')"
proof -
  have weak: "registry_ok_but (\<lambda>j. R j \<or> j = i) (aseGroups c)" for i
    using ok by (rule registry_ok_but_weaken) simp
  have added: "registry_ok_but (\<lambda>j. R j \<or> j = i) gs" if "Add_group i (aseGroups c) = Some gs" for i gs
    using ok that by (rule registry_ok_but_Add)
  show ?thesis
    using run ok
    by (auto simp: group_add_node_join_def Let_def split: if_splits option.splits
             dest!: keep_group_add_node_move [rotated] intro: weak added)
qed

lemma keep_group_add_node:
  assumes ok: "registry_ok_but R (aseGroups c)"
    and run: "group_add_node env gid addr upd c = Inr c'"
  shows "registry_ok_but R (aseGroups c')"
  using run ok
  by (auto simp: group_add_node_def split: if_splits option.splits
           dest!: keep_group_add_node_join [rotated])

lemma keep_IsoCigEventsCb:
  assumes ok: "registry_ok_but R (aseGroups c)" and env: "create_keeps_cig env"
  shows "registry_ok_but R (aseGroups (IsoCigEventsCb env event c))"
proof (cases event)
  case (kIsoEventCigOnCreateCmpl cig_id status)
  show ?thesis
  proof (cases "FindById (aseGroups c) cig_id")
    case None
    with kIsoEventCigOnCreateCmpl ok show ?thesis by (simp add: IsoCigEventsCb_def)
  next
    case (Some grp)
    from registry_ok_but_found [OF ok Some] env
    have "R (group_id grp) \<or> \<not> IsEmpty grp \<or> OnCigCreate_cig_created env grp status"
      by (auto simp: create_keeps_cig_def)
    then have "registry_ok_but R
                 (store_group (grp\<lparr>cig_created := OnCigCreate_cig_created env grp status\<rparr>)
                    (aseGroups c))"
      using ok by (intro registry_ok_but_store) (simp_all add: IsEmpty_def)
    with kIsoEventCigOnCreateCmpl Some show ?thesis by (simp add: IsoCigEventsCb_def)
  qed
next
  case (kIsoEventCigOnRemoveCmpl status cig_id)
  show ?thesis
  proof (cases "FindById (aseGroups c) cig_id")
    case None
    with kIsoEventCigOnRemoveCmpl ok show ?thesis
      by (simp add: IsoCigEventsCb_def remove_group_if_possible_def)
  next
    case (Some grp)
    let ?g1 = "grp\<lparr>cig_created := OnCigRemove_cig_created env status grp\<rparr>"
    have res: "aseGroups (IsoCigEventsCb env event c)
                 = (if IsEmpty ?g1 \<and> \<not> cig_created ?g1
                    then Remove_group (group_id ?g1) (store_group ?g1 (aseGroups c))
                    else store_group ?g1 (aseGroups c))"
      using kIsoEventCigOnRemoveCmpl Some
      by (simp add: IsoCigEventsCb_def remove_group_if_possible_def Let_def IsEmpty_def)
    show ?thesis
    proof (cases "IsEmpty ?g1 \<and> \<not> cig_created ?g1")
      case True
      then have "aseGroups (IsoCigEventsCb env event c)
                   = Remove_group (group_id ?g1) (store_group ?g1 (aseGroups c))"
        by (auto simp: res)
      also have "\<dots> = Remove_group (group_id ?g1) (aseGroups c)"
        by (rule Remove_group_store_group)
      finally show ?thesis using ok by (simp only: registry_ok_but_Remove)
    next
      case False
      then have "aseGroups (IsoCigEventsCb env event c) = store_group ?g1 (aseGroups c)"
        by (auto simp: res)
      moreover have "registry_ok_but R (store_group ?g1 (aseGroups c))"
        using ok False by (intro registry_ok_but_store) auto
      ultimately show ?thesis by simp
    qed
  qed
next
  case cig_event_unlisted
  with ok show ?thesis by (simp add: IsoCigEventsCb_def)
qed

lemma keep_OnLeAudioDeviceSetStateTimeout:
  assumes ok: "registry_ok_but R (aseGroups c)"
  shows "registry_ok_but R (aseGroups (OnLeAudioDeviceSetStateTimeout env gid c))"
proof (cases "FindById (aseGroups c) gid")
  case None
  with ok show ?thesis by (simp add: OnLeAudioDeviceSetStateTimeout_def)
next
  case (Some grp)
  have "registry_ok_but R (store_group (grp\<lparr>target_state := BTA_LE_AUDIO_ASE_STATE_IDLE\<rparr>)
                             (aseGroups c))"
    using ok Some by (rule registry_ok_but_store_same_key) (simp add: registry_key_def)
  with Some show ?thesis
    by (auto simp: OnLeAudioDeviceSetStateTimeout_def Let_def disconnect_loop_frame
             split: option.splits)
qed

lemma keep_AttachToStreamingGroupIfNeeded:
  assumes ok: "registry_ok_but R (aseGroups c)"
    and run: "AttachToStreamingGroupIfNeeded env addr c = Inr c'"
  shows "registry_ok_but R (aseGroups c')"
proof -
  have pend: "registry_ok_but R (store_group (grp\<lparr>pending_configuration := True\<rparr>) (aseGroups c))"
    if "FindById (aseGroups c) i = Some grp" for i grp
    using ok that by (rule registry_ok_but_store_same_key) (simp add: registry_key_def)
  have conf: "aseGroups (snd (configure_entries env t snk src ents sn srn dev c)) = aseGroups c"
    for t snk src ents sn srn dev
    by (rule aseGroups_configure_entries)
  show ?thesis
    using run ok pend
    by (auto simp: AttachToStreamingGroupIfNeeded_def Let_def
             split: option.splits if_splits prod.splits)
       (metis conf snd_conv)+
qed

lemma key_GetStreamConfigurationByDirection:
  "GetStreamConfigurationByDirection devs grp dir = Inr (sc, g1) \<Longrightarrow>
     registry_key g1 = registry_key grp"
  by (auto simp: GetStreamConfigurationByDirection_def registry_key_def Let_def
           split: sum.splits if_splits)

lemma keep_StartSendingAudio:
  assumes ok: "registry_ok_but R (aseGroups c)" and run: "StartSendingAudio env gid c = Inr (b, c')"
  shows "registry_ok_but R (aseGroups c')"
proof -
  from run obtain grp where grp: "FindById (aseGroups c) gid = Some grp"
    by (auto simp: StartSendingAudio_def split: option.splits)
  have "registry_ok_but R (store_group g1 (aseGroups c))"
    if "GetStreamConfigurationByDirection (leAudioDevices c) grp kLeAudioDirectionSink = Inr (sc, g1)"
    for sc g1
    using ok grp key_GetStreamConfigurationByDirection [OF that]
    by (rule registry_ok_but_store_same_key)
  then show ?thesis
    using run grp ok
    by (auto simp: StartSendingAudio_def Let_def
             split: if_splits sum.splits option.splits prod.splits CodecLocation.splits)
qed

lemma keep_StartReceivingAudio:
  assumes ok: "registry_ok_but R (aseGroups c)" and run: "StartReceivingAudio env gid c = Inr c'"
  shows "registry_ok_but R (aseGroups c')"
proof -
  from run obtain grp where grp: "FindById (aseGroups c) gid = Some grp"
    by (auto simp: StartReceivingAudio_def split: option.splits)
  have "registry_ok_but R (store_group g1 (aseGroups c))"
    if "GetStreamConfigurationByDirection (leAudioDevices c) grp kLeAudioDirectionSource = Inr (sc, g1)"
    for sc g1
    using ok grp key_GetStreamConfigurationByDirection [OF that]
    by (rule registry_ok_but_store_same_key)
  then show ?thesis
    using run grp ok
    by (auto simp: StartReceivingAudio_def Let_def
             split: if_splits sum.splits option.splits prod.splits CodecLocation.splits)
qed

lemma aseGroups_OnAudioResume: "aseGroups (snd (OnAudioResume env grp c)) = aseGroups c"
  by (simp add: OnAudioResume_def keep_InternalGroupStream)

lemma keep_OnAudioSinkResume:
  assumes ok: "registry_ok_but R (aseGroups c)" and run: "OnAudioSinkResume env c = Inr c'"
  shows "registry_ok_but R (aseGroups c')"
proof -
  have start: "registry_ok_but R (aseGroups c2)"
    if "StartSendingAudio env gid (c\<lparr>audio_sender_state := READY_TO_START\<rparr>) = Inr (b, c2)"
    for gid b c2
    using keep_StartSendingAudio [OF _ that] ok by simp
  have resume: "registry_ok_but R (aseGroups c1)" if "OnAudioResume env grp c = (b, c1)" for grp b c1
    using aseGroups_OnAudioResume [of env grp c] that ok by simp
  show ?thesis
    using run ok
    by (auto simp: OnAudioSinkResume_def Let_def map_sum_def
             split: option.splits if_splits AudioState.splits prod.splits sum.splits bool.splits
             dest: start resume)
qed

lemma keep_OnAudioSourceResume:
  assumes ok: "registry_ok_but R (aseGroups c)" and run: "OnAudioSourceResume env c = Inr c'"
  shows "registry_ok_but R (aseGroups c')"
proof -
  have start: "registry_ok_but R (aseGroups c2)"
    if "StartReceivingAudio env gid (c\<lparr>audio_receiver_state := READY_TO_START\<rparr>) = Inr c2"
    for gid c2
    using keep_StartReceivingAudio [OF _ that] ok by simp
  have resume: "registry_ok_but R (aseGroups c1)" if "OnAudioResume env grp c = (b, c1)" for grp b c1
    using aseGroups_OnAudioResume [of env grp c] that ok by simp
  show ?thesis
    using run ok
    by (auto simp: OnAudioSourceResume_def Let_def
             split: option.splits if_splits AudioState.splits prod.splits bool.splits
             dest: start resume)
qed

lemma aseGroups_suspends [simp]:
  "aseGroups (OnAudioSinkSuspend env c) = aseGroups c"
  "aseGroups (OnAudioSourceSuspend env c) = aseGroups c"
  "aseGroups (suspend_timeout_expired c) = aseGroups c"
  by (simp_all add: OnAudioSinkSuspend_def OnAudioSourceSuspend_def suspend_timeout_expired_def
        Let_def split: AudioState.splits option.splits)

lemma keep_HandlePendingAvailableContexts:
  assumes ok: "registry_ok_but R (aseGroups c)"
  shows "registry_ok_but R (aseGroups (HandlePendingAvailableContexts env gid c))"
proof (cases "FindById (aseGroups c) gid")
  case None
  with ok show ?thesis by (simp add: HandlePendingAvailableContexts_def)
next
  case (Some grp)
  have "registry_ok_but R
          (store_group (snd (apply_UpdateActiveContextsMap env grp p)
                          \<lparr>pending_update_available_contexts := None\<rparr>) (aseGroups c))" for p
    using ok Some key_apply_UpdateActiveContextsMap [of env grp p]
    by (intro registry_ok_but_store_same_key [where x = grp]) (simp_all add: registry_key_def)
  with ok Some show ?thesis
    by (auto simp: HandlePendingAvailableContexts_def Let_def split: option.splits prod.splits)
       (metis snd_conv)+
qed

lemma keep_audio_avail:
  assumes ok: "registry_ok_but R (aseGroups c)"
  shows "registry_ok_but R (aseGroups (LeAudioCharValueHandle_audio_avail env addr snk src c))"
proof -
  have pend: "registry_ok_but R
                (store_group (grp\<lparr>pending_update_available_contexts := Some u\<rparr>) (aseGroups c))"
    if "FindById (aseGroups c) i = Some grp" for i grp u
    using ok that by (rule registry_ok_but_store_same_key) (simp add: registry_key_def)
  have upd: "registry_ok_but R (store_group g1 (aseGroups c))"
    if "FindById (aseGroups c) i = Some grp" "apply_UpdateActiveContextsMap env grp u = (r, g1)"
    for i grp u r g1
    using ok that(1) key_apply_UpdateActiveContextsMap [of env grp u] that(2)
    by (intro registry_ok_but_store_same_key [where x = grp]) simp_all
  show ?thesis
    using ok
    by (auto simp: LeAudioCharValueHandle_audio_avail_def Let_def
             split: option.splits prod.splits if_splits dest: pend upd)
qed

lemma aseGroups_SendAudioDataToAF:
  "SendAudioDataToAF bt af l r c = Inr c' \<Longrightarrow> aseGroups c' = aseGroups c"
  by (auto simp: SendAudioDataToAF_def split: if_splits option.splits)

lemma aseGroups_SendAudioData_decode:
  "SendAudioData_decode env data cis_hdl c = Inr (r, c1) \<Longrightarrow> aseGroups c1 = aseGroups c"
  by (auto simp: SendAudioData_decode_def Let_def
           split: if_splits option.splits sum.splits prod.splits)

lemma aseGroups_SendAudioData_deliver:
  "SendAudioData_deliver af is_left one_channel pcm timestamp c1 = Inr c' \<Longrightarrow>
     aseGroups c' = aseGroups c1"
  by (auto simp: SendAudioData_deliver_def send_cached_then_cache_def map_sum_def
           split: if_splits sum.splits dest!: aseGroups_SendAudioDataToAF)

lemma aseGroups_SendAudioData:
  "SendAudioData env data cis_hdl timestamp c = Inr c' \<Longrightarrow> aseGroups c' = aseGroups c"
  by (auto simp: SendAudioData_def split: sum.splits option.splits prod.splits
           dest!: aseGroups_SendAudioData_decode aseGroups_SendAudioData_deliver)

lemma keep_StatusReportCb:
  assumes ok: "registry_ok_but R (aseGroups c)" and run: "StatusReportCb env gid status c = Inr c'"
  shows "registry_ok_but R (aseGroups c')"
proof -
  have fin: "registry_ok_but R (aseGroups (HandlePendingAvailableContexts env gid
                                             (CancelStreamingRequest c1)))"
    if "aseGroups c1 = aseGroups c" for c1
    using keep_HandlePendingAvailableContexts [of R "CancelStreamingRequest c1" env gid] ok that
    by simp
  show ?thesis
  proof (cases status)
    case GroupStreamStatus_STREAMING
    with run obtain c1 where
      s: "(if audio_sender_state c = READY_TO_START
           then map_sum id snd (StartSendingAudio env gid c) else Inr c) = Inr c1"
      by (auto simp: StatusReportCb_def Let_def split: if_splits sum.splits)
    have ok1: "registry_ok_but R (aseGroups c1)"
      using s ok keep_StartSendingAudio [of R c env gid]
      by (auto simp: map_sum_def split: if_splits sum.splits)
    from run GroupStreamStatus_STREAMING s
    have "aseGroups c' = aseGroups c1 \<or>
          (\<exists>c2. StartReceivingAudio env gid c1 = Inr c2 \<and> aseGroups c' = aseGroups c2)"
      by (auto simp: StatusReportCb_def Let_def split: if_splits sum.splits)
    with ok1 show ?thesis using keep_StartReceivingAudio [of R c1 env gid] by auto
  next
    case GroupStreamStatus_IDLE
    with run ok show ?thesis
      by (auto simp: StatusReportCb_def Let_def split: if_splits option.splits intro!: fin)
  next
    case GroupStreamStatus_CONFIGURED_AUTONOMOUS
    with run ok show ?thesis
      by (auto simp: StatusReportCb_def Let_def split: if_splits option.splits intro!: fin)
  next
    case GroupStreamStatus_CONFIGURED_BY_USER
    with run ok show ?thesis
      by (auto simp: StatusReportCb_def Let_def intro!: fin)
  qed (use run ok in \<open>auto simp: StatusReportCb_def Let_def\<close>)
qed

lemma keep_run_event:
  assumes ok: "registry_ok_but R (aseGroups c)" and env: "create_keeps_cig env"
    and run: "run_event env ev c = Inr c'"
  shows "registry_ok_but R (aseGroups c')"
proof (cases ev)
  case (Ev_group_add_node gid addr upd)
  with run ok show ?thesis by (auto simp: run_event_def intro: keep_group_add_node)
next
  case (Ev_group_remove_node gid addr upd)
  with run ok show ?thesis by (auto simp: run_event_def intro: keep_group_remove_node)
next
  case (Ev_IsoCigEventsCb e)
  with run ok env show ?thesis by (auto simp: run_event_def intro: keep_IsoCigEventsCb)
next
  case (Ev_OnLeAudioDeviceSetStateTimeout gid)
  with run ok show ?thesis
    by (auto simp: run_event_def intro: keep_OnLeAudioDeviceSetStateTimeout)
next
  case (Ev_UpdateContextAndLocations gid addr)
  with run ok show ?thesis by (auto simp: run_event_def intro: keep_UpdateContextAndLocations)
next
  case (Ev_GroupStream gid t)
  with run ok show ?thesis
    by (auto simp: run_event_def GroupStream_def keep_InternalGroupStream)
next
  case (Ev_AttachToStreamingGroupIfNeeded addr)
  with run ok show ?thesis
    by (auto simp: run_event_def intro: keep_AttachToStreamingGroupIfNeeded)
next
  case Ev_OnAudioSinkResume
  with run ok show ?thesis by (auto simp: run_event_def intro: keep_OnAudioSinkResume)
next
  case Ev_OnAudioSourceResume
  with run ok show ?thesis by (auto simp: run_event_def intro: keep_OnAudioSourceResume)
next
  case (Ev_StatusReportCb gid status)
  with run ok show ?thesis by (auto simp: run_event_def intro: keep_StatusReportCb)
next
  case (Ev_audio_avail addr snk src)
  with run ok show ?thesis by (auto simp: run_event_def intro: keep_audio_avail)
next
  case (Ev_SendAudioData data cis_hdl timestamp)
  with run ok show ?thesis by (auto simp: run_event_def dest: aseGroups_SendAudioData)
qed (use run ok in \<open>auto simp: run_event_def\<close>)

text \<open>
  Which groups leave the registry.  Most functions keep the list of ids as it is;
  the three that do not are \<^verbatim>\<open>group_remove_node\<close>, \<^verbatim>\<open>group_add_node\<close> and
  \<^verbatim>\<open>IsoCigEventsCb\<close>.
\<close>

lemma ids_FindById:
  "map group_id gs' = map group_id gs \<Longrightarrow> FindById gs' i = None \<longleftrightarrow> FindById gs i = None"
proof -
  assume "map group_id gs' = map group_id gs"
  then have "set (map group_id gs') = set (map group_id gs)" by simp
  then show ?thesis by (simp add: FindById_None_iff)
qed

lemma ids_report_after_removal:
  "map group_id (aseGroups (report_after_removal env g c)) = map group_id (aseGroups c)"
  by (simp add: report_after_removal_def Let_def group_id_store_group split: prod.splits)

lemma ids_UpdateContextAndLocations:
  "UpdateContextAndLocations env gid addr c = Inr c' \<Longrightarrow>
     map group_id (aseGroups c') = map group_id (aseGroups c)"
  by (auto simp: UpdateContextAndLocations_def Let_def group_id_store_group
           split: option.splits prod.splits if_splits)

lemma ids_OnLeAudioDeviceSetStateTimeout:
  "map group_id (aseGroups (OnLeAudioDeviceSetStateTimeout env gid c)) = map group_id (aseGroups c)"
  by (simp add: OnLeAudioDeviceSetStateTimeout_def Let_def disconnect_loop_frame
        group_id_store_group split: option.splits)

lemma ids_AttachToStreamingGroupIfNeeded:
  "AttachToStreamingGroupIfNeeded env addr c = Inr c' \<Longrightarrow>
     map group_id (aseGroups c') = map group_id (aseGroups c)"
proof -
  have conf: "aseGroups (snd (configure_entries env t snk src ents sn srn dev c)) = aseGroups c"
    for t snk src ents sn srn dev
    by (rule aseGroups_configure_entries)
  assume "AttachToStreamingGroupIfNeeded env addr c = Inr c'"
  then show ?thesis
    by (auto simp: AttachToStreamingGroupIfNeeded_def Let_def group_id_store_group
             split: option.splits if_splits prod.splits)
       (metis conf snd_conv)+
qed

lemma ids_StartSendingAudio:
  "StartSendingAudio env gid c = Inr (b, c') \<Longrightarrow>
     map group_id (aseGroups c') = map group_id (aseGroups c)"
  by (auto simp: StartSendingAudio_def Let_def group_id_store_group
           split: if_splits sum.splits option.splits prod.splits CodecLocation.splits)

lemma ids_StartReceivingAudio:
  "StartReceivingAudio env gid c = Inr c' \<Longrightarrow>
     map group_id (aseGroups c') = map group_id (aseGroups c)"
  by (auto simp: StartReceivingAudio_def Let_def group_id_store_group
           split: if_splits sum.splits option.splits prod.splits CodecLocation.splits)

lemma ids_OnAudioSinkResume:
  assumes run: "OnAudioSinkResume env c = Inr c'"
  shows "map group_id (aseGroups c') = map group_id (aseGroups c)"
proof -
  have start: "map group_id (aseGroups c2) = map group_id (aseGroups c)"
    if "StartSendingAudio env gid (c\<lparr>audio_sender_state := READY_TO_START\<rparr>) = Inr (b, c2)"
    for gid b c2
    using ids_StartSendingAudio [OF that] by simp
  have resume: "map group_id (aseGroups c1) = map group_id (aseGroups c)"
    if "OnAudioResume env grp c = (b, c1)" for grp b c1
    using aseGroups_OnAudioResume [of env grp c] that by simp
  show ?thesis
    using run
    by (auto simp: OnAudioSinkResume_def Let_def map_sum_def
             split: option.splits if_splits AudioState.splits prod.splits sum.splits bool.splits
             dest: start resume)
qed

lemma ids_OnAudioSourceResume:
  assumes run: "OnAudioSourceResume env c = Inr c'"
  shows "map group_id (aseGroups c') = map group_id (aseGroups c)"
proof -
  have start: "map group_id (aseGroups c2) = map group_id (aseGroups c)"
    if "StartReceivingAudio env gid (c\<lparr>audio_receiver_state := READY_TO_START\<rparr>) = Inr c2"
    for gid c2
    using ids_StartReceivingAudio [OF that] by simp
  have resume: "map group_id (aseGroups c1) = map group_id (aseGroups c)"
    if "OnAudioResume env grp c = (b, c1)" for grp b c1
    using aseGroups_OnAudioResume [of env grp c] that by simp
  show ?thesis
    using run
    by (auto simp: OnAudioSourceResume_def Let_def
             split: option.splits if_splits AudioState.splits prod.splits bool.splits
             dest: start resume)
qed

lemma ids_HandlePendingAvailableContexts:
  "map group_id (aseGroups (HandlePendingAvailableContexts env gid c)) = map group_id (aseGroups c)"
  by (simp add: HandlePendingAvailableContexts_def Let_def group_id_store_group
           split: option.splits prod.splits)

lemma ids_audio_avail:
  "map group_id (aseGroups (LeAudioCharValueHandle_audio_avail env addr snk src c)) =
     map group_id (aseGroups c)"
  by (simp add: LeAudioCharValueHandle_audio_avail_def Let_def group_id_store_group
           split: option.splits prod.splits)

lemma ids_StatusReportCb:
  assumes run: "StatusReportCb env gid status c = Inr c'"
  shows "map group_id (aseGroups c') = map group_id (aseGroups c)"
proof (cases status)
  case GroupStreamStatus_STREAMING
  with run obtain c1 where
    s: "(if audio_sender_state c = READY_TO_START
         then map_sum id snd (StartSendingAudio env gid c) else Inr c) = Inr c1"
    by (auto simp: StatusReportCb_def Let_def split: if_splits sum.splits)
  have i1: "map group_id (aseGroups c1) = map group_id (aseGroups c)"
    using s ids_StartSendingAudio [of env gid c]
    by (auto simp: map_sum_def split: if_splits sum.splits)
  from run GroupStreamStatus_STREAMING s
  have "aseGroups c' = aseGroups c1 \<or>
        (\<exists>c2. StartReceivingAudio env gid c1 = Inr c2 \<and> aseGroups c' = aseGroups c2)"
    by (auto simp: StatusReportCb_def Let_def split: if_splits sum.splits)
  with i1 show ?thesis using ids_StartReceivingAudio [of env gid c1] by auto
next
  case GroupStreamStatus_IDLE
  with run show ?thesis
    by (auto simp: StatusReportCb_def Let_def ids_HandlePendingAvailableContexts
             split: if_splits option.splits)
next
  case GroupStreamStatus_CONFIGURED_AUTONOMOUS
  with run show ?thesis
    by (auto simp: StatusReportCb_def Let_def ids_HandlePendingAvailableContexts
             split: if_splits option.splits)
next
  case GroupStreamStatus_CONFIGURED_BY_USER
  with run show ?thesis
    by (auto simp: StatusReportCb_def Let_def ids_HandlePendingAvailableContexts)
qed (use run in \<open>auto simp: StatusReportCb_def Let_def\<close>)

lemma gone_group_remove_node:
  assumes run: "group_remove_node env gid addr upd c = Inr c'"
    and before: "FindById (aseGroups c) i = Some g"
    and after: "FindById (aseGroups c') i = None"
  shows "i = gid \<and> removeAll addr (grp_leAudioDevices g) = [] \<and> \<not> cig_created g"
proof -
  from run obtain grp d where
    grp: "FindById (aseGroups c) gid = Some grp" and d: "FindByAddress (leAudioDevices c) addr = Some d"
    by (auto simp: group_remove_node_def split: option.splits)
  let ?g1 = "grp\<lparr>grp_leAudioDevices := removeAll addr (grp_leAudioDevices grp)\<rparr>"
  let ?c1 = "put_device (d\<lparr>dev_group_id := kGroupUnknown\<rparr>) (put_group ?g1 c)"
  let ?c2 = "if upd \<and> GetGroupId env addr = gid then emit (DeviceGroups_RemoveDevice addr gid) ?c1
             else ?c1"
  let ?c3 = "emit (OnGroupNodeStatus_REMOVED addr gid) ?c2"
  have gid: "group_id grp = gid" using grp by (rule FindById_group_id)
  have groups3: "aseGroups ?c3 = store_group ?g1 (aseGroups c)" by simp
  have c': "c' = (if IsEmpty ?g1 then remove_group_if_possible (Some ?g1) ?c3
                  else report_after_removal env ?g1 ?c3)"
    using run grp d by (auto simp: group_remove_node_def Let_def split: if_splits)
  have stays: "FindById gs i \<noteq> None" if "map group_id gs = map group_id (aseGroups c)" for gs
    using ids_FindById [OF that, of i] before by simp
  show ?thesis
  proof (cases "IsEmpty ?g1 \<and> \<not> cig_created grp")
    case False
    have "map group_id (aseGroups c') = map group_id (aseGroups c)"
      using False c' ids_report_after_removal [of env ?g1 ?c3]
      by (auto simp: remove_group_if_possible_def group_id_store_group)
    with stays after show ?thesis by blast
  next
    case True
    have removed: "aseGroups c' = Remove_group gid (store_group ?g1 (aseGroups c))"
      using True c' gid by (simp add: remove_group_if_possible_def)
    have "i = gid"
    proof (rule ccontr)
      assume "i \<noteq> gid"
      then have "FindById (aseGroups c') i = FindById (aseGroups c) i"
        using gid by (simp add: removed FindById_Remove_group_other FindById_store_group_other)
      with before after show False by simp
    qed
    then have "g = grp" using before grp by simp
    with True \<open>i = gid\<close> show ?thesis by (simp add: IsEmpty_def)
  qed
qed

lemma gone_group_add_node_move:
  assumes run: "group_add_node_move env new_gid addr upd old c = Inr c'"
    and before: "FindById (aseGroups c) i = Some g"
    and after: "FindById (aseGroups c') i = None"
  shows "removeAll addr (grp_leAudioDevices g) = [] \<and> \<not> cig_created g"
proof -
  from run obtain c1 where
    c1: "(case old of None \<Rightarrow> Inr c | Some old_gid \<Rightarrow> group_remove_node env old_gid addr upd c)
           = Inr c1"
    by (auto simp: group_add_node_move_def split: sum.splits)
  from run c1 obtain new_grp d where
    ng: "FindById (aseGroups c1) new_gid = Some new_grp"
    and d: "FindByAddress (leAudioDevices c1) addr = Some d"
    by (auto simp: group_add_node_move_def split: option.splits)
  let ?g1 = "new_grp\<lparr>grp_leAudioDevices := grp_leAudioDevices new_grp @ [addr]\<rparr>"
  let ?c3 = "emit (OnGroupNodeStatus_ADDED addr new_gid)
               (put_device (d\<lparr>dev_group_id := new_gid\<rparr>) (put_group ?g1 c1))"
  let ?c4 = "if conn_id d \<noteq> None then emit (AseInitialStateReadRequest addr) ?c3 else ?c3"
  let ?old_id = "case old of None \<Rightarrow> kGroupUnknown | Some old_gid \<Rightarrow> old_gid"
  have ids4: "map group_id (aseGroups ?c4) = map group_id (aseGroups c1)"
    by (simp add: group_id_store_group)
  have tail: "(case FindById (aseGroups ?c4) ?old_id of
                 None \<Rightarrow> UpdateContextAndLocations env new_gid addr ?c4
               | Some old_grp \<Rightarrow>
                   if old = None then Inl NullDereference
                   else UpdateContextAndLocations env new_gid addr
                          (report_after_removal env old_grp ?c4)) = Inr c'"
    using run c1 ng d
    by (cases old; cases "conn_id d")
       (auto simp: group_add_node_move_def Let_def split: option.splits)
  have "map group_id (aseGroups c') = map group_id (aseGroups ?c4)"
  proof (cases "FindById (aseGroups ?c4) ?old_id")
    case None
    with tail show ?thesis by (auto dest: ids_UpdateContextAndLocations)
  next
    case (Some old_grp)
    with tail have "UpdateContextAndLocations env new_gid addr
                      (report_after_removal env old_grp ?c4) = Inr c'"
      by (auto split: if_splits)
    from ids_UpdateContextAndLocations [OF this] show ?thesis
      by (simp only: ids_report_after_removal)
  qed
  then have "map group_id (aseGroups c') = map group_id (aseGroups c1)"
    using ids4 by simp
  from ids_FindById [OF this, of i] after have gone1: "FindById (aseGroups c1) i = None" by simp
  show ?thesis
  proof (cases old)
    case None
    with c1 before gone1 show ?thesis by simp
  next
    case (Some old_gid)
    with c1 have "group_remove_node env old_gid addr upd c = Inr c1" by simp
    from gone_group_remove_node [OF this before gone1] show ?thesis by simp
  qed
qed

lemma find_append_Some: "find P xs = Some x \<Longrightarrow> find P (xs @ ys) = Some x"
  by (induction xs) (auto split: if_splits)

lemma FindById_Add_group:
  "Add_group j gs = Some gs' \<Longrightarrow> FindById gs i = Some g \<Longrightarrow> FindById gs' i = Some g"
  by (auto simp: Add_group_def FindById_def find_append_Some split: option.splits)

lemma gone_group_add_node_join:
  assumes run: "group_add_node_join env gid addr upd old c = Inr c'"
    and before: "FindById (aseGroups c) i = Some g"
    and after: "FindById (aseGroups c') i = None"
  shows "removeAll addr (grp_leAudioDevices g) = [] \<and> \<not> cig_created g"
proof -
  have "aseGroups c' = aseGroups c \<or>
        (\<exists>j gs. Add_group j (aseGroups c) = Some gs \<and>
                group_add_node_move env j addr upd old (c\<lparr>aseGroups := gs\<rparr>) = Inr c') \<or>
        (\<exists>j. group_add_node_move env j addr upd old c = Inr c')"
    using run
    by (simp add: group_add_node_join_def Let_def split: if_splits option.splits) auto
  then consider
    (same) "aseGroups c' = aseGroups c"
    | (added) j gs where "Add_group j (aseGroups c) = Some gs"
        "group_add_node_move env j addr upd old (c\<lparr>aseGroups := gs\<rparr>) = Inr c'"
    | (moved) j where "group_add_node_move env j addr upd old c = Inr c'"
    by blast
  then show ?thesis
  proof cases
    case same
    with before after show ?thesis by simp
  next
    case added
    have "FindById (aseGroups (c\<lparr>aseGroups := gs\<rparr>)) i = Some g"
      using FindById_Add_group [OF added(1) before] by simp
    from gone_group_add_node_move [OF added(2) this after] show ?thesis .
  next
    case moved
    from gone_group_add_node_move [OF moved before after] show ?thesis .
  qed
qed

lemma gone_group_add_node:
  assumes run: "group_add_node env gid addr upd c = Inr c'"
    and before: "FindById (aseGroups c) i = Some g"
    and after: "FindById (aseGroups c') i = None"
  shows "removeAll addr (grp_leAudioDevices g) = [] \<and> \<not> cig_created g"
proof -
  have joined: "removeAll addr (grp_leAudioDevices g) = [] \<and> \<not> cig_created g"
    if "group_add_node_join env j addr upd old c0 = Inr c'" "aseGroups c0 = aseGroups c"
    for j old c0
    using gone_group_add_node_join [OF that(1) _ after] before that(2) by simp
  show ?thesis
    using run before after
    by (auto simp: group_add_node_def split: if_splits option.splits dest!: joined)
qed

lemma gone_IsoCigEventsCb:
  assumes before: "FindById (aseGroups c) i = Some g"
    and after: "FindById (aseGroups (IsoCigEventsCb env event c)) i = None"
  shows "\<exists>status. event = kIsoEventCigOnRemoveCmpl status i \<and> IsEmpty g \<and>
                  \<not> OnCigRemove_cig_created env status g"
proof (cases event)
  case (kIsoEventCigOnCreateCmpl cig_id status)
  then have "map group_id (aseGroups (IsoCigEventsCb env event c)) = map group_id (aseGroups c)"
    by (simp add: IsoCigEventsCb_def Let_def group_id_store_group split: option.splits)
  from ids_FindById [OF this, of i] before after show ?thesis by simp
next
  case cig_event_unlisted
  with before after show ?thesis by (simp add: IsoCigEventsCb_def)
next
  case (kIsoEventCigOnRemoveCmpl status cig_id)
  show ?thesis
  proof (cases "FindById (aseGroups c) cig_id")
    case None
    with kIsoEventCigOnRemoveCmpl before after show ?thesis
      by (simp add: IsoCigEventsCb_def remove_group_if_possible_def)
  next
    case (Some grp)
    let ?g1 = "grp\<lparr>cig_created := OnCigRemove_cig_created env status grp\<rparr>"
    have gid: "group_id grp = cig_id" using Some by (rule FindById_group_id)
    have res: "aseGroups (IsoCigEventsCb env event c)
                 = (if IsEmpty ?g1 \<and> \<not> cig_created ?g1
                    then Remove_group cig_id (store_group ?g1 (aseGroups c))
                    else store_group ?g1 (aseGroups c))"
      using kIsoEventCigOnRemoveCmpl Some gid
      by (simp add: IsoCigEventsCb_def remove_group_if_possible_def Let_def IsEmpty_def)
    show ?thesis
    proof (cases "IsEmpty ?g1 \<and> \<not> cig_created ?g1")
      case False
      then have "map group_id (aseGroups (IsoCigEventsCb env event c)) = map group_id (aseGroups c)"
        by (auto simp: res group_id_store_group)
      from ids_FindById [OF this, of i] before after show ?thesis by simp
    next
      case True
      then have removed: "aseGroups (IsoCigEventsCb env event c)
                            = Remove_group cig_id (store_group ?g1 (aseGroups c))"
        by (auto simp: res)
      have "i = cig_id"
      proof (rule ccontr)
        assume "i \<noteq> cig_id"
        then have "FindById (aseGroups (IsoCigEventsCb env event c)) i = FindById (aseGroups c) i"
          using gid by (simp add: removed FindById_Remove_group_other FindById_store_group_other)
        with before after show False by simp
      qed
      then have "g = grp" using before Some by simp
      with True \<open>i = cig_id\<close> kIsoEventCigOnRemoveCmpl show ?thesis by (simp add: IsEmpty_def)
    qed
  qed
qed

lemma gone_run_event:
  assumes run: "run_event env ev c = Inr c'"
    and before: "FindById (aseGroups c) i = Some g"
    and after: "FindById (aseGroups c') i = None"
  shows "removal_justified env ev g"
proof -
  have gid: "group_id g = i" using before by (rule FindById_group_id)
  have kept: False if "map group_id (aseGroups c') = map group_id (aseGroups c)"
    using ids_FindById [OF that, of i] before after by simp
  show ?thesis
  proof (cases ev)
    case (Ev_group_add_node gid addr upd)
    with run have "group_add_node env gid addr upd c = Inr c'" by (simp add: run_event_def)
    from gone_group_add_node [OF this before after] Ev_group_add_node show ?thesis
      by (simp add: removal_justified_def)
  next
    case (Ev_group_remove_node gid' addr upd)
    with run have "group_remove_node env gid' addr upd c = Inr c'" by (simp add: run_event_def)
    from gone_group_remove_node [OF this before after] Ev_group_remove_node gid show ?thesis
      by (simp add: removal_justified_def)
  next
    case (Ev_IsoCigEventsCb e)
    with run have "c' = IsoCigEventsCb env e c" by (simp add: run_event_def)
    with gone_IsoCigEventsCb [OF before, of env e] after Ev_IsoCigEventsCb gid show ?thesis
      by (auto simp: removal_justified_def)
  next
    case (Ev_OnLeAudioDeviceSetStateTimeout gid')
    with run kept ids_OnLeAudioDeviceSetStateTimeout [of env gid' c] show ?thesis
      by (auto simp: run_event_def)
  next
    case (Ev_UpdateContextAndLocations gid' addr)
    with run kept show ?thesis by (auto simp: run_event_def dest: ids_UpdateContextAndLocations)
  next
    case (Ev_GroupStream gid' t)
    with run kept show ?thesis
      by (auto simp: run_event_def GroupStream_def keep_InternalGroupStream)
  next
    case (Ev_GroupStop gid')
    with run kept show ?thesis by (auto simp: run_event_def)
  next
    case (Ev_AttachToStreamingGroupIfNeeded addr)
    with run kept show ?thesis
      by (auto simp: run_event_def dest: ids_AttachToStreamingGroupIfNeeded)
  next
    case Ev_OnAudioSinkResume
    with run kept show ?thesis by (auto simp: run_event_def dest: ids_OnAudioSinkResume)
  next
    case Ev_OnAudioSourceResume
    with run kept show ?thesis by (auto simp: run_event_def dest: ids_OnAudioSourceResume)
  next
    case Ev_OnAudioSinkSuspend
    with run kept show ?thesis by (auto simp: run_event_def)
  next
    case Ev_OnAudioSourceSuspend
    with run kept show ?thesis by (auto simp: run_event_def)
  next
    case Ev_suspend_timeout_expired
    with run kept show ?thesis by (auto simp: run_event_def)
  next
    case (Ev_StatusReportCb gid' status)
    with run kept show ?thesis by (auto simp: run_event_def dest: ids_StatusReportCb)
  next
    case (Ev_audio_avail addr snk src)
    with run kept ids_audio_avail [of env addr snk src c] show ?thesis
      by (auto simp: run_event_def)
  next
    case (Ev_SendAudioData data cis_hdl timestamp)
    with run kept show ?thesis by (auto simp: run_event_def dest: aseGroups_SendAudioData)
  qed
qed

lemma remove_group_if_possible_only_if:
  "aseGroups (remove_group_if_possible p c) \<noteq> aseGroups c \<Longrightarrow>
     \<exists>g. p = Some g \<and> IsEmpty g \<and> \<not> cig_created g"
  by (auto simp: remove_group_if_possible_def split: option.splits if_splits)

lemma group_remove_node_last_member:
  assumes ok: "registry_ok (aseGroups c)"
    and grp: "FindById (aseGroups c) gid = Some g"
    and dev: "FindByAddress (leAudioDevices c) addr = Some d"
    and last: "set (grp_leAudioDevices g) = {addr}"
  shows "\<exists>c1. group_remove_node env gid addr upd c = Inr c1 \<and>
              (if cig_created g
               then FindById (aseGroups c1) gid = Some (g\<lparr>grp_leAudioDevices := []\<rparr>)
               else FindById (aseGroups c1) gid = None)"
proof -
  let ?g1 = "g\<lparr>grp_leAudioDevices := removeAll addr (grp_leAudioDevices g)\<rparr>"
  have "set (removeAll addr (grp_leAudioDevices g)) = {}"
    using last by auto
  then have e: "removeAll addr (grp_leAudioDevices g) = []"
    by (simp only: set_empty)
  have gid: "group_id g = gid" using grp by (rule FindById_group_id)
  have d: "distinct (map group_id (aseGroups c))"
    using ok by (simp add: registry_ok_def registry_ok_but_def)
  have stored: "FindById (store_group ?g1 (aseGroups c)) gid = Some ?g1"
    using FindById_store_group [of "aseGroups c" ?g1 g] grp gid by simp
  have removed: "FindById (Remove_group gid (store_group ?g1 (aseGroups c))) gid = None"
    using d by (intro FindById_Remove_group_same) (simp add: group_id_store_group)
  show ?thesis
    using grp dev e gid stored removed
    by (auto simp: group_remove_node_def Let_def IsEmpty_def remove_group_if_possible_def)
qed

lemma cig_remove_completion_removes:
  assumes ok: "registry_ok (aseGroups c)"
    and grp: "FindById (aseGroups c) gid = Some g"
    and empty: "IsEmpty g" and cleared: "\<not> OnCigRemove_cig_created env status g"
  shows "FindById (aseGroups (IsoCigEventsCb env (kIsoEventCigOnRemoveCmpl status gid) c)) gid = None"
proof -
  let ?g1 = "g\<lparr>cig_created := OnCigRemove_cig_created env status g\<rparr>"
  have gid: "group_id g = gid" using grp by (rule FindById_group_id)
  have d: "distinct (map group_id (aseGroups c))"
    using ok by (simp add: registry_ok_def registry_ok_but_def)
  have "FindById (Remove_group gid (store_group ?g1 (aseGroups c))) gid = None"
    using d by (intro FindById_Remove_group_same) (simp add: group_id_store_group)
  then show ?thesis
    using grp empty cleared gid
    by (simp add: IsoCigEventsCb_def Let_def remove_group_if_possible_def IsEmpty_def)
qed

text \<open>
  When the two membership operations return: \<^verbatim>\<open>group_remove_node\<close> whenever the group
  and the device exist, and the join of a known, unassigned device to an existing
  group unless \<^verbatim>\<open>UpdateContextAndLocations\<close> reads the empty optional.
\<close>

lemma group_remove_node_returns:
  "FindById (aseGroups c) gid = Some g \<Longrightarrow> FindByAddress (leAudioDevices c) addr = Some d \<Longrightarrow>
     \<exists>c1. group_remove_node env gid addr upd c = Inr c1"
  by (simp add: group_remove_node_def Let_def)

lemma FindByAddress_store_same:
  "FindByAddress devs (address d) = Some x \<Longrightarrow>
     FindByAddress (store_device d devs) (address d) = Some d"
  by (induction devs) (auto simp: FindByAddress_def split: if_splits)

lemma UpdateContextAndLocations_outcome:
  assumes grp: "FindById (aseGroups c) gid = Some grp"
    and dev: "FindByAddress (leAudioDevices c) addr = Some d"
  shows "UpdateContextAndLocations env gid addr c = Inl EmptyOptionalAccess \<or>
         (\<exists>c' g2. UpdateContextAndLocations env gid addr c = Inr c' \<and>
                  FindById (aseGroups c') gid = Some g2 \<and> registry_key g2 = registry_key grp)"
proof -
  obtain u g1 where a: "apply_UpdateActiveContextsMap env grp (GetAvailableContexts d) = (u, g1)"
    by (cases "apply_UpdateActiveContextsMap env grp (GetAvailableContexts d)")
  obtain b g2 where r: "(if u \<noteq> None then (True, g1)
                         else ReloadAudioLocations (leAudioDevices c) g1) = (b, g2)"
    by (cases "if u \<noteq> None then (True, g1) else ReloadAudioLocations (leAudioDevices c) g1")
  have k1: "registry_key g1 = registry_key grp"
    using key_apply_UpdateActiveContextsMap [of env grp "GetAvailableContexts d"] a by simp
  have k2: "registry_key g2 = registry_key grp"
    using key_ReloadAudioLocations [of "leAudioDevices c" g1] r k1 by (auto split: if_splits)
  have "group_id g2 = gid"
    using k2 FindById_group_id [OF grp] by (simp add: registry_key_def)
  then have stored: "FindById (store_group g2 (aseGroups c)) gid = Some g2"
    using FindById_store_group [of "aseGroups c" g2 grp] grp by simp
  show ?thesis
    using grp dev a r k2 stored
    by (cases u; cases b) (auto simp: UpdateContextAndLocations_def Let_def)
qed

lemma group_add_node_ordinary_join:
  assumes dev: "FindByAddress (leAudioDevices c) addr = Some d"
    and free: "dev_group_id d = kGroupUnknown"
    and gid: "gid \<noteq> kGroupUnknown" "GetGroupId env addr = gid"
    and grp: "FindById (aseGroups c) gid = Some g"
    and new: "addr \<notin> set (grp_leAudioDevices g)"
    and none: "FindById (aseGroups c) kGroupUnknown = None"
  shows "(\<exists>c1 g1. group_add_node env gid addr upd c = Inr c1 \<and>
                  FindById (aseGroups c1) gid = Some g1 \<and>
                  grp_leAudioDevices g1 = grp_leAudioDevices g @ [addr] \<and>
                  cig_created g1 = cig_created g) \<or>
         group_add_node env gid addr upd c = Inl EmptyOptionalAccess"
proof -
  let ?g1 = "g\<lparr>grp_leAudioDevices := grp_leAudioDevices g @ [addr]\<rparr>"
  let ?c3 = "emit (OnGroupNodeStatus_ADDED addr gid)
               (put_device (d\<lparr>dev_group_id := gid\<rparr>) (put_group ?g1 c))"
  let ?c4 = "if conn_id d \<noteq> None then emit (AseInitialStateReadRequest addr) ?c3 else ?c3"
  have g_id: "group_id g = gid" using grp by (rule FindById_group_id)
  have ad: "address d = addr" using dev by (rule FindByAddress_address)
  have groups4: "aseGroups ?c4 = store_group ?g1 (aseGroups c)" by simp
  have devs4: "leAudioDevices ?c4 = store_device (d\<lparr>dev_group_id := gid\<rparr>) (leAudioDevices c)"
    by (simp add: put_device_def put_group_def emit_def)
  have found4: "FindById (aseGroups ?c4) gid = Some ?g1"
    unfolding groups4 using FindById_store_group [of "aseGroups c" ?g1 g] grp g_id by simp
  have dev4: "FindByAddress (leAudioDevices ?c4) addr = Some (d\<lparr>dev_group_id := gid\<rparr>)"
    unfolding devs4
    using FindByAddress_store_same [of "leAudioDevices c" "d\<lparr>dev_group_id := gid\<rparr>" d] dev ad
    by simp
  have none4: "FindById (aseGroups ?c4) kGroupUnknown = None"
    unfolding groups4 using none gid(1) g_id by (simp add: FindById_store_group_other)
  have run: "group_add_node env gid addr upd c = UpdateContextAndLocations env gid addr ?c4"
    using dev free gid grp new none4
    by (cases "conn_id d")
       (simp_all add: group_add_node_def group_add_node_join_def group_add_node_move_def
          IsDeviceInTheGroup_def Let_def)
  from UpdateContextAndLocations_outcome [OF found4 dev4, of env]
  show ?thesis unfolding run by (auto simp: registry_key_def)
qed

text \<open>
  C4.  Every embedded operation that returns preserves the registry invariant
  (unique ids, and each registered group has a member or has \<open>cig_created\<close> set),
  provided a Create-CIG completion does not clear the flag; an operation that does
  not return leaves no registry behind.  An operation takes a registered group out
  of the registry only as \<open>removal_justified\<close> says: the group is empty once the
  operation has taken its device out, and has no CIG once the state machine has
  processed the event; \<^verbatim>\<open>remove_group_if_possible\<close>, the only place that removes a
  group, changes the registry only for a group that is empty and has no CIG.
  Removing the last member of a group removes the group unless \<open>cig_created\<close> is set,
  in which case the group stays, empty.  An empty group whose CIG was created is
  removed by the CIG-remove completion that leaves \<open>cig_created\<close> cleared.  Of the
  two membership operations, \<^verbatim>\<open>group_remove_node\<close> returns whenever the group and the
  device exist, and the join of a known, unassigned device to an existing group
  returns with the device as the last member unless it reads the empty optional in
  \<^verbatim>\<open>UpdateContextAndLocations\<close>.
\<close>

theorem C4_group_registry_invariant:
  "(registry_ok (aseGroups c) \<and> create_keeps_cig env \<and> run_event env ev c = Inr c'
      \<longrightarrow> registry_ok (aseGroups c')) \<and>
   (run_event env ev c = Inr c' \<and> FindById (aseGroups c) i = Some gi \<and>
    FindById (aseGroups c') i = None
      \<longrightarrow> removal_justified env ev gi) \<and>
   (aseGroups (remove_group_if_possible p c) \<noteq> aseGroups c
      \<longrightarrow> (\<exists>g0. p = Some g0 \<and> IsEmpty g0 \<and> \<not> cig_created g0)) \<and>
   (registry_ok (aseGroups c) \<and> FindById (aseGroups c) gid = Some g \<and>
    FindByAddress (leAudioDevices c) addr = Some d \<and> set (grp_leAudioDevices g) = {addr}
      \<longrightarrow> (\<exists>c1. group_remove_node env gid addr upd c = Inr c1 \<and>
                (if cig_created g
                 then FindById (aseGroups c1) gid = Some (g\<lparr>grp_leAudioDevices := []\<rparr>)
                 else FindById (aseGroups c1) gid = None))) \<and>
   (registry_ok (aseGroups c) \<and> FindById (aseGroups c) gid = Some g \<and> IsEmpty g \<and>
    cig_created g \<and> \<not> OnCigRemove_cig_created env status g
      \<longrightarrow> FindById (aseGroups (IsoCigEventsCb env (kIsoEventCigOnRemoveCmpl status gid) c)) gid
            = None) \<and>
   (FindById (aseGroups c) gid = Some g \<and> FindByAddress (leAudioDevices c) addr = Some d
      \<longrightarrow> (\<exists>c1. group_remove_node env gid addr upd c = Inr c1)) \<and>
   (FindByAddress (leAudioDevices c) addr = Some d \<and> dev_group_id d = kGroupUnknown \<and>
    gid \<noteq> kGroupUnknown \<and> GetGroupId env addr = gid \<and>
    FindById (aseGroups c) gid = Some g \<and> addr \<notin> set (grp_leAudioDevices g) \<and>
    FindById (aseGroups c) kGroupUnknown = None
      \<longrightarrow> (\<exists>c1 g1. group_add_node env gid addr upd c = Inr c1 \<and>
                   FindById (aseGroups c1) gid = Some g1 \<and>
                   grp_leAudioDevices g1 = grp_leAudioDevices g @ [addr] \<and>
                   cig_created g1 = cig_created g) \<or>
          group_add_node env gid addr upd c = Inl EmptyOptionalAccess)"
  using keep_run_event [of "\<lambda>i. False" c env ev c']
        gone_run_event [of env ev c c' i gi]
        remove_group_if_possible_only_if [of p c]
        group_remove_node_last_member [of c gid g addr d env upd]
        cig_remove_completion_removes [of c gid g env status]
        group_remove_node_returns [of c gid g addr d env upd]
        group_add_node_ordinary_join [of c addr d gid env g upd]
  unfolding registry_ok_def by blast

text \<open>
  On the demonstration: the left earbud leaves group 7 (the group stays with the
  right one); it leaves a group of which it is the only member (the group goes); an
  empty group 9 is removed; the CIG-remove completion removes the empty group 7; the
  right earbud joins group 7.
\<close>

theorem C4_group_registry_invariant_witness:
  "registry_ok (aseGroups demo_client) \<and> create_keeps_cig demo_env \<and>
   map grp_leAudioDevices
     (aseGroups (projr (run_event demo_env (Ev_group_remove_node 7 1 True) demo_client))) = [[2]] \<and>
   registry_ok
     (aseGroups (projr (run_event demo_env (Ev_group_remove_node 7 1 True) demo_client))) \<and>
   aseGroups (projr (run_event demo_env (Ev_group_remove_node 7 1 True)
                       (demo_client\<lparr>aseGroups := [demo_group\<lparr>grp_leAudioDevices := [1]\<rparr>]\<rparr>))) = [] \<and>
   removal_justified demo_env (Ev_group_remove_node 7 1 True)
     (demo_group\<lparr>grp_leAudioDevices := [1]\<rparr>) \<and>
   aseGroups (remove_group_if_possible (Some (new_group 9))
                (demo_client\<lparr>aseGroups := [demo_group, new_group 9]\<rparr>)) = [demo_group] \<and>
   (\<exists>g0. Some (new_group 9) = Some g0 \<and> IsEmpty g0 \<and> \<not> cig_created g0) \<and>
   FindById
     (aseGroups (projr (group_remove_node demo_env 7 1 True
                          (demo_client\<lparr>aseGroups := [demo_group\<lparr>grp_leAudioDevices := [1]\<rparr>]\<rparr>))))
     7 = None \<and>
   FindById
     (aseGroups (IsoCigEventsCb demo_env (kIsoEventCigOnRemoveCmpl 0 7)
                   (demo_client\<lparr>aseGroups := [(new_group 7)\<lparr>cig_created := True\<rparr>]\<rparr>))) 7 = None \<and>
   \<not> isl (group_remove_node demo_env 7 1 True demo_client) \<and>
   map grp_leAudioDevices
     (aseGroups (projr (group_add_node demo_env 7 2 False
                          (demo_client
                             \<lparr>leAudioDevices := [demo_left, demo_right\<lparr>dev_group_id := kGroupUnknown\<rparr>],
                              aseGroups := [demo_group\<lparr>grp_leAudioDevices := [1]\<rparr>]\<rparr>)))) = [[1, 2]]"
proof -
  let ?ev = "Ev_group_remove_node 7 1 True"
  let ?one = "demo_group\<lparr>grp_leAudioDevices := [1]\<rparr>"
  let ?c1 = "demo_client\<lparr>aseGroups := [?one]\<rparr>"
  let ?c9 = "demo_client\<lparr>aseGroups := [demo_group, new_group 9]\<rparr>"
  let ?cig = "(new_group 7)\<lparr>cig_created := True\<rparr>"
  let ?cc = "demo_client\<lparr>aseGroups := [?cig]\<rparr>"
  let ?free = "demo_right\<lparr>dev_group_id := kGroupUnknown\<rparr>"
  let ?cj = "demo_client\<lparr>leAudioDevices := [demo_left, ?free], aseGroups := [?one]\<rparr>"
  note defs = demo_defs registry_ok_def registry_ok_but_def create_keeps_cig_def IsEmpty_def
    removal_justified_def run_event_def group_remove_node_def remove_group_if_possible_def
    report_after_removal_def apply_UpdateActiveContextsMap_def ReloadAudioLocations_def
    group_add_node_def group_add_node_join_def group_add_node_move_def
    UpdateContextAndLocations_def IsDeviceInTheGroup_def
    group_devices_def List.map_filter_def put_group_def put_device_def emit_def
    FindById_def FindByAddress_def IsoCigEventsCb_def kGroupUnknown_def Let_def
  have ok: "registry_ok (aseGroups demo_client)" and env: "create_keeps_cig demo_env"
    by (simp_all add: defs)
  have run: "run_event demo_env ?ev demo_client = Inr (projr (run_event demo_env ?ev demo_client))"
    and left: "map grp_leAudioDevices (aseGroups (projr (run_event demo_env ?ev demo_client))) = [[2]]"
    by (simp_all add: defs)
  have kept: "registry_ok (aseGroups (projr (run_event demo_env ?ev demo_client)))"
    using C4_group_registry_invariant
            [where c = demo_client and env = demo_env and ev = ?ev
               and c' = "projr (run_event demo_env ?ev demo_client)", THEN conjunct1]
          ok env run
    by blast
  have run1: "run_event demo_env ?ev ?c1 = Inr (projr (run_event demo_env ?ev ?c1))"
    and gone: "aseGroups (projr (run_event demo_env ?ev ?c1)) = []"
    and before: "FindById (aseGroups ?c1) 7 = Some ?one"
    by (simp_all add: defs)
  have after: "FindById (aseGroups (projr (run_event demo_env ?ev ?c1))) 7 = None"
    unfolding gone by (simp add: FindById_def)
  have just: "removal_justified demo_env ?ev ?one"
    using C4_group_registry_invariant
            [where c = ?c1 and env = demo_env and ev = ?ev
               and c' = "projr (run_event demo_env ?ev ?c1)" and i = 7 and gi = ?one,
             THEN conjunct2, THEN conjunct1]
          run1 before after
    by blast
  have nine: "aseGroups (remove_group_if_possible (Some (new_group 9)) ?c9) = [demo_group]"
    and changed: "aseGroups (remove_group_if_possible (Some (new_group 9)) ?c9) \<noteq> aseGroups ?c9"
    by (simp_all add: defs)
  have empty: "\<exists>g0. Some (new_group 9) = Some g0 \<and> IsEmpty g0 \<and> \<not> cig_created g0"
    using C4_group_registry_invariant
            [where c = ?c9 and p = "Some (new_group 9)",
             THEN conjunct2, THEN conjunct2, THEN conjunct1]
          changed
    by blast
  have ok1: "registry_ok (aseGroups ?c1)"
    and dev: "FindByAddress (leAudioDevices ?c1) 1 = Some demo_left"
    and only: "set (grp_leAudioDevices ?one) = {1}"
    and nocig: "\<not> cig_created ?one"
    by (simp_all add: defs)
  have "\<exists>c1. group_remove_node demo_env 7 1 True ?c1 = Inr c1 \<and>
              (if cig_created ?one
               then FindById (aseGroups c1) 7 = Some (?one\<lparr>grp_leAudioDevices := []\<rparr>)
               else FindById (aseGroups c1) 7 = None)"
    using C4_group_registry_invariant
            [where c = ?c1 and env = demo_env and gid = 7 and addr = 1 and upd = True
               and d = demo_left and g = ?one,
             THEN conjunct2, THEN conjunct2, THEN conjunct2, THEN conjunct1]
          ok1 before dev only
    by blast
  then have last: "FindById (aseGroups (projr (group_remove_node demo_env 7 1 True ?c1))) 7 = None"
    using nocig by auto
  have okc: "registry_ok (aseGroups ?cc)" and gc: "FindById (aseGroups ?cc) 7 = Some ?cig"
    and ec: "IsEmpty ?cig" and cc: "cig_created ?cig"
    and cleared: "\<not> OnCigRemove_cig_created demo_env 0 ?cig"
    by (simp_all add: defs)
  have cig: "FindById (aseGroups (IsoCigEventsCb demo_env (kIsoEventCigOnRemoveCmpl 0 7) ?cc)) 7
               = None"
    using C4_group_registry_invariant
            [where c = ?cc and env = demo_env and gid = 7 and status = 0 and g = ?cig,
             THEN conjunct2, THEN conjunct2, THEN conjunct2, THEN conjunct2, THEN conjunct1]
          okc gc ec cc cleared
    by blast
  have g7: "FindById (aseGroups demo_client) 7 = Some demo_group"
    and d1: "FindByAddress (leAudioDevices demo_client) 1 = Some demo_left"
    by (simp_all add: defs)
  have "\<exists>c1. group_remove_node demo_env 7 1 True demo_client = Inr c1"
    using C4_group_registry_invariant
            [where c = demo_client and env = demo_env and gid = 7 and addr = 1 and upd = True
               and d = demo_left and g = demo_group,
             THEN conjunct2, THEN conjunct2, THEN conjunct2, THEN conjunct2, THEN conjunct2,
             THEN conjunct1]
          g7 d1
    by blast
  then have returns: "\<not> isl (group_remove_node demo_env 7 1 True demo_client)"
    by auto
  have j1: "FindByAddress (leAudioDevices ?cj) 2 = Some ?free"
    and j2: "dev_group_id ?free = kGroupUnknown"
    and j3: "(7::int) \<noteq> kGroupUnknown" "GetGroupId demo_env 2 = 7"
    and j4: "FindById (aseGroups ?cj) 7 = Some ?one"
    and j5: "(2::nat) \<notin> set (grp_leAudioDevices ?one)"
    and j6: "FindById (aseGroups ?cj) kGroupUnknown = None"
    and j7: "group_add_node demo_env 7 2 False ?cj \<noteq> Inl EmptyOptionalAccess"
    by (simp_all add: defs)
  have "(\<exists>c1 g1. group_add_node demo_env 7 2 False ?cj = Inr c1 \<and>
                  FindById (aseGroups c1) 7 = Some g1 \<and>
                  grp_leAudioDevices g1 = grp_leAudioDevices ?one @ [2] \<and>
                  cig_created g1 = cig_created ?one) \<or>
        group_add_node demo_env 7 2 False ?cj = Inl EmptyOptionalAccess"
    using C4_group_registry_invariant
            [where c = ?cj and env = demo_env and gid = 7 and addr = 2 and upd = False
               and d = ?free and g = ?one,
             THEN conjunct2, THEN conjunct2, THEN conjunct2, THEN conjunct2, THEN conjunct2,
             THEN conjunct2]
          j1 j2 j3 j4 j5 j6
    by blast
  then obtain cj' gj where
    "group_add_node demo_env 7 2 False ?cj = Inr cj'" "FindById (aseGroups cj') 7 = Some gj"
    "grp_leAudioDevices gj = grp_leAudioDevices ?one @ [2]"
    using j7 by blast
  moreover have "length (aseGroups (projr (group_add_node demo_env 7 2 False ?cj))) = 1"
    by (simp add: defs)
  ultimately have joined:
    "map grp_leAudioDevices (aseGroups (projr (group_add_node demo_env 7 2 False ?cj))) = [[1, 2]]"
    by (cases "aseGroups cj'") (auto simp: FindById_def demo_group_def split: if_splits)
  show ?thesis
    using ok env left kept gone just nine empty last cig returns joined by blast
qed

subsection \<open>Deferred update of the available contexts\<close>








subsection \<open>A device joins the streaming group: attach or reconfigure\<close>

lemma calls_until_failure_Cons:
  "calls_until_failure ((e, ok) # xs) = e # (if ok then calls_until_failure xs else [])"
  by (simp add: calls_until_failure_def)

lemma configure_entries_attempts:
  "fst (configure_entries env ctx snk src ents sn srn dev c) =
     list_all snd (attach_attempts env ctx snk src ents (sn, srn, dev)) \<and>
   trace (snd (configure_entries env ctx snk src ents sn srn dev c)) =
     trace c @ calls_until_failure (attach_attempts env ctx snk src ents (sn, srn, dev))"
proof (induction ents arbitrary: sn srn dev c)
  case Nil
  show ?case by (simp add: calls_until_failure_def)
next
  case (Cons ent ents)
  define n where "n = (if ent_direction ent = kLeAudioDirectionSink then sn else srn)"
  obtain ok n' dev' where res: "ConfigureAses_result env dev ent ctx n snk src = (ok, n', dev')"
    by (cases "ConfigureAses_result env dev ent ctx n snk src") auto
  define c1 where "c1 = emit (ConfigureAses (address dev) ent) (put_device dev' c)"
  define st' where
    "st' = (if ent_direction ent = kLeAudioDirectionSink then (n', srn, dev') else (sn, n', dev'))"
  have step: "attach_step env ctx snk src ent (sn, srn, dev) = (ok, st')"
    using res by (auto simp: attach_step_def n_def st'_def)
  have att: "attach_attempts env ctx snk src (ent # ents) (sn, srn, dev) =
               (ConfigureAses (address dev) ent, ok) # attach_attempts env ctx snk src ents st'"
    using step by simp
  have t1: "trace c1 = trace c @ [ConfigureAses (address dev) ent]"
    by (simp add: c1_def)
  show ?case
  proof (cases ok)
    case False
    then have "configure_entries env ctx snk src (ent # ents) sn srn dev c = (False, c1)"
      using res by (simp add: n_def c1_def Let_def)
    then show ?thesis using att False t1 by (simp add: calls_until_failure_Cons)
  next
    case True
    have "configure_entries env ctx snk src (ent # ents) sn srn dev c =
            configure_entries env ctx snk src ents (fst st') (fst (snd st')) (snd (snd st')) c1"
      using res True by (simp add: n_def c1_def st'_def Let_def)
    moreover have "st' = (fst st', fst (snd st'), snd (snd st'))" by simp
    ultimately show ?thesis
      using Cons.IH [of "fst st'" "fst (snd st')" "snd (snd st')" c1] att True t1
      by (simp add: calls_until_failure_Cons)
  qed
qed

lemma length_attach_attempts [simp]:
  "length (attach_attempts env ctx snk src ents st) = length ents"
  by (induction ents arbitrary: st) simp_all

lemma configured_entries_attempts:
  "configured_entries (map fst (attach_attempts env ctx snk src ents st)) = ents"
  by (induction ents arbitrary: st) (simp_all add: configured_entries_def List.map_filter_simps)

text \<open>
  The calls made are those for the entries of the configuration, in order, up to and
  including the first entry that is refused.
\<close>

lemma configured_entries_until_failure:
  "configured_entries (calls_until_failure (attach_attempts env ctx snk src ents st)) =
     take (Suc (length (takeWhile snd (attach_attempts env ctx snk src ents st)))) ents"
proof (induction ents arbitrary: st)
  case Nil
  show ?case by (simp add: calls_until_failure_def configured_entries_def List.map_filter_simps)
next
  case (Cons ent ents)
  show ?case
    using Cons.IH [of "snd (attach_step env ctx snk src ent st)"]
    by (simp add: calls_until_failure_Cons configured_entries_def List.map_filter_simps)
qed

lemma calls_until_failure_subset: "set (calls_until_failure xs) \<subseteq> fst ` set xs"
  by (auto simp: calls_until_failure_def dest: set_takeWhileD in_set_takeD set_dropWhileD)

lemma attach_attempts_calls:
  "x \<in> set (attach_attempts env ctx snk src ents st) \<Longrightarrow> \<exists>a ent. fst x = ConfigureAses a ent"
proof (induction ents arbitrary: st)
  case Nil
  then show ?case by simp
next
  case (Cons ent ents)
  from Cons.prems
  have "x = (ConfigureAses (address (snd (snd st))) ent, fst (attach_step env ctx snk src ent st)) \<or>
        x \<in> set (attach_attempts env ctx snk src ents (snd (attach_step env ctx snk src ent st)))"
    by simp
  then show ?case
    using Cons.IH [of "snd (attach_step env ctx snk src ent st)"] by fastforce
qed

lemma calls_until_failure_no_others:
  "StopStream gid \<notin> set (calls_until_failure (attach_attempts env ctx snk src ents st))"
  "AttachToStream gid a \<notin> set (calls_until_failure (attach_attempts env ctx snk src ents st))"
  using calls_until_failure_subset [of "attach_attempts env ctx snk src ents st"]
        attach_attempts_calls [of _ env ctx snk src ents st]
  by fastforce+

text \<open>
  Claim C6, as the code has it.  A device of the active group connects while one of
  the two audio directions is not idle, and the group has a stream configuration
  \<open>cf\<close>.  The handler returns.  It marks the configuration of the group as pending
  and calls \<^verbatim>\<open>StopStream\<close>, and nothing else, exactly when the number of devices of \<open>cf\<close>
  is less than the number of connected members.  Otherwise the groups stay as they
  are and \<^verbatim>\<open>StopStream\<close> is not called: \<^verbatim>\<open>ConfigureAses\<close> is called for the entries of
  \<open>cf\<close> in order, starting with the counters of the streams of the group and the
  device as it is, up to and including the first entry that is refused; if no entry
  is refused, and only then, \<^verbatim>\<open>AttachToStream\<close> follows as the last call.
\<close>

theorem C6_attach_or_reconfigure:
  fixes env :: environment and c :: LeAudioClientImpl and addr :: RawAddress
    and d :: LeAudioDevice and grp :: LeAudioDeviceGroup and cf :: AudioSetConfiguration
  assumes dev: "FindByAddress (leAudioDevices c) addr = Some d"
    and active: "dev_group_id d = active_group_id c"
    and in_use: "\<not> (audio_sender_state c = IDLE \<and> audio_receiver_state c = IDLE)"
    and grp: "FindById (aseGroups c) (active_group_id c) = Some grp"
    and cf: "conf (stream_conf grp) = Some cf"
  defines "attempts \<equiv>
             attach_attempts env (GetCurrentContextType grp)
               (stream_locations (sink_streams (stream_conf grp)))
               (stream_locations (source_streams (stream_conf grp)))
               (confs cf)
               (length (sink_streams (stream_conf grp)) mod 256,
                length (source_streams (stream_conf grp)) mod 256, d)"
  shows "\<exists>c'. AttachToStreamingGroupIfNeeded env addr c = Inr c' \<and>
           (StopStream (group_id grp) \<in> set (emitted c c') \<longleftrightarrow>
              get_num_of_devices_in_configuration env cf < NumOfConnected (leAudioDevices c) grp) \<and>
           (if get_num_of_devices_in_configuration env cf < NumOfConnected (leAudioDevices c) grp
            then emitted c c' = [StopStream (group_id grp)] \<and>
                 FindById (aseGroups c') (active_group_id c) =
                   Some (grp\<lparr>pending_configuration := True\<rparr>)
            else aseGroups c' = aseGroups c \<and>
                 emitted c c' =
                   calls_until_failure attempts @
                   (if list_all snd attempts then [AttachToStream (group_id grp) addr] else []) \<and>
                 configured_entries (emitted c c') =
                   take (Suc (length (takeWhile snd attempts))) (confs cf))"
proof (cases "get_num_of_devices_in_configuration env cf < NumOfConnected (leAudioDevices c) grp")
  case True
  define c' where
    "c' = emit (StopStream (group_id grp)) (put_group (grp\<lparr>pending_configuration := True\<rparr>) c)"
  have run: "AttachToStreamingGroupIfNeeded env addr c = Inr c'"
    using dev active in_use grp cf True
    by (auto simp: AttachToStreamingGroupIfNeeded_def Let_def c'_def)
  have gid: "group_id grp = active_group_id c" using grp by (rule FindById_group_id)
  have "trace c' = trace c @ [StopStream (group_id grp)]" by (simp add: c'_def)
  then have em: "emitted c c' = [StopStream (group_id grp)]" by (rule emitted_append)
  have "FindById (aseGroups c') (active_group_id c) = Some (grp\<lparr>pending_configuration := True\<rparr>)"
    using grp gid FindById_store_group [of "aseGroups c" "grp\<lparr>pending_configuration := True\<rparr>" grp]
    by (simp add: c'_def)
  then show ?thesis using run em True by simp
next
  case False
  define r where
    "r = configure_entries env (GetCurrentContextType grp)
           (stream_locations (sink_streams (stream_conf grp)))
           (stream_locations (source_streams (stream_conf grp)))
           (confs cf)
           (length (sink_streams (stream_conf grp)) mod 256)
           (length (source_streams (stream_conf grp)) mod 256) d c"
  define c' where
    "c' = (if fst r then emit (AttachToStream (group_id grp) addr) (snd r) else snd r)"
  have run: "AttachToStreamingGroupIfNeeded env addr c = Inr c'"
    using dev active in_use grp cf False
    by (cases r) (auto simp: AttachToStreamingGroupIfNeeded_def Let_def c'_def r_def)
  have ok: "fst r = list_all snd attempts"
    and tr: "trace (snd r) = trace c @ calls_until_failure attempts"
    unfolding r_def attempts_def using configure_entries_attempts by blast+
  define tl where "tl = (if list_all snd attempts then [AttachToStream (group_id grp) addr] else [])"
  have "trace c' = trace c @ (calls_until_failure attempts @ tl)"
    using tr ok by (simp add: c'_def tl_def)
  then have em: "emitted c c' = calls_until_failure attempts @ tl" by (rule emitted_append)
  have groups: "aseGroups c' = aseGroups c"
    by (simp add: c'_def r_def aseGroups_configure_entries)
  have no_stop: "StopStream (group_id grp) \<notin> set (emitted c c')"
    using calls_until_failure_no_others(1) by (simp add: em tl_def attempts_def)
  have "configured_entries (calls_until_failure attempts @ tl) =
          configured_entries (calls_until_failure attempts)"
    by (simp add: configured_entries_def tl_def List.map_filter_def)
  then have ents: "configured_entries (emitted c c') =
                     take (Suc (length (takeWhile snd attempts))) (confs cf)"
    using configured_entries_until_failure by (simp add: em attempts_def)
  show ?thesis
    using run False groups no_stop em ents by (simp add: tl_def)
qed

text \<open>
  The two branches on the configuration of the demonstration (one device in the
  configuration): with both earbuds connected the stream is stopped for a
  reconfiguration; with the left earbud gone and the right one back, the right one
  is attached.  With a configuration of two entries both calls of \<^verbatim>\<open>ConfigureAses\<close>
  are made before \<^verbatim>\<open>AttachToStream\<close>.
\<close>

theorem C6_attach_or_reconfigure_witness:
  "trace (projr (AttachToStreamingGroupIfNeeded demo_env 2 demo_streaming_client)) =
     [StopStream 7] \<and>
   map pending_configuration
     (aseGroups (projr (AttachToStreamingGroupIfNeeded demo_env 2 demo_streaming_client))) =
     [True] \<and>
   trace (projr (AttachToStreamingGroupIfNeeded demo_env 2
                   (demo_streaming_client
                      \<lparr>leAudioDevices := [demo_left\<lparr>conn_id := None\<rparr>, demo_right]\<rparr>))) =
     [ConfigureAses 2 (SetConfiguration kLeAudioDirectionSink), AttachToStream 7 2] \<and>
   trace (projr (AttachToStreamingGroupIfNeeded demo_env 2
                   (demo_streaming_client
                      \<lparr>aseGroups :=
                         [demo_group\<lparr>stream_conf := (stream_conf demo_group)
                            \<lparr>conf := Some (AudioSetConfiguration ''DualDev_OneChanStereoSnk_OneChanMonoSrc''
                                             [SetConfiguration kLeAudioDirectionSink,
                                              SetConfiguration kLeAudioDirectionSource])\<rparr>\<rparr>]\<rparr>))) =
     [ConfigureAses 2 (SetConfiguration kLeAudioDirectionSink),
      ConfigureAses 2 (SetConfiguration kLeAudioDirectionSource), AttachToStream 7 2]"
  using C6_attach_or_reconfigure
          [where c = demo_streaming_client and addr = 2 and d = demo_right and env = demo_env
             and grp = "demo_group\<lparr>current_state := BTA_LE_AUDIO_ASE_STATE_STREAMING,
                                   target_state := BTA_LE_AUDIO_ASE_STATE_STREAMING\<rparr>"
             and cf = "AudioSetConfiguration ''SingleDev_OneChanStereoSnk''
                         [SetConfiguration kLeAudioDirectionSink]"]
        C6_attach_or_reconfigure
          [where c = "demo_streaming_client
                        \<lparr>leAudioDevices := [demo_left\<lparr>conn_id := None\<rparr>, demo_right]\<rparr>"
             and addr = 2 and d = demo_right and env = demo_env
             and grp = "demo_group\<lparr>current_state := BTA_LE_AUDIO_ASE_STATE_STREAMING,
                                   target_state := BTA_LE_AUDIO_ASE_STATE_STREAMING\<rparr>"
             and cf = "AudioSetConfiguration ''SingleDev_OneChanStereoSnk''
                         [SetConfiguration kLeAudioDirectionSink]"]
        C6_attach_or_reconfigure
          [where c = "demo_streaming_client
                        \<lparr>aseGroups :=
                           [demo_group\<lparr>stream_conf := (stream_conf demo_group)
                              \<lparr>conf := Some (AudioSetConfiguration ''DualDev_OneChanStereoSnk_OneChanMonoSrc''
                                               [SetConfiguration kLeAudioDirectionSink,
                                                SetConfiguration kLeAudioDirectionSource])\<rparr>\<rparr>]\<rparr>"
             and addr = 2 and d = demo_right and env = demo_env
             and grp = "demo_group\<lparr>stream_conf := (stream_conf demo_group)
                              \<lparr>conf := Some (AudioSetConfiguration ''DualDev_OneChanStereoSnk_OneChanMonoSrc''
                                               [SetConfiguration kLeAudioDirectionSink,
                                                SetConfiguration kLeAudioDirectionSource])\<rparr>\<rparr>"
             and cf = "AudioSetConfiguration ''DualDev_OneChanStereoSnk_OneChanMonoSrc''
                         [SetConfiguration kLeAudioDirectionSink,
                          SetConfiguration kLeAudioDirectionSource]"]
  by (simp add: demo_defs AttachToStreamingGroupIfNeeded_def NumOfConnected_def
        group_devices_def List.map_filter_def FindById_def FindByAddress_def
        stream_locations_def put_group_def put_device_def emit_def emitted_def
        attach_step_def calls_until_failure_def configured_entries_def Let_def)

text \<open>
  The sentence of C6 about equal counts does not hold as worded.  One device in the
  configuration and one connected member (the left earbud is gone); the right earbud
  comes back without an ASE that \<^verbatim>\<open>ConfigureAses\<close> could use.  The handler returns
  after the failed \<^verbatim>\<open>ConfigureAses\<close>: the stream is not stopped, and \<^verbatim>\<open>AttachToStream\<close>
  is not called.
\<close>

theorem C6_counterexample:
  "get_num_of_devices_in_configuration demo_env
     (AudioSetConfiguration ''SingleDev_OneChanStereoSnk'' [SetConfiguration kLeAudioDirectionSink]) =
   NumOfConnected [demo_left\<lparr>conn_id := None\<rparr>, demo_right\<lparr>ases := []\<rparr>]
     (demo_group\<lparr>current_state := BTA_LE_AUDIO_ASE_STATE_STREAMING,
                 target_state := BTA_LE_AUDIO_ASE_STATE_STREAMING\<rparr>) \<and>
   \<not> isl (AttachToStreamingGroupIfNeeded demo_env 2
            (demo_streaming_client
               \<lparr>leAudioDevices := [demo_left\<lparr>conn_id := None\<rparr>, demo_right\<lparr>ases := []\<rparr>]\<rparr>)) \<and>
   trace (projr (AttachToStreamingGroupIfNeeded demo_env 2
                   (demo_streaming_client
                      \<lparr>leAudioDevices := [demo_left\<lparr>conn_id := None\<rparr>, demo_right\<lparr>ases := []\<rparr>]\<rparr>))) =
     [ConfigureAses 2 (SetConfiguration kLeAudioDirectionSink)]"
  by (simp add: demo_defs AttachToStreamingGroupIfNeeded_def NumOfConnected_def
        group_devices_def List.map_filter_def FindById_def FindByAddress_def
        stream_locations_def put_group_def put_device_def emit_def Let_def)

subsection \<open>Resume within the keep-alive window of a suspend\<close>

lemma codec_mem_GroupStop: "codec_mem (GroupStop gid c) = codec_mem c"
  by (simp add: GroupStop_def codec_mem_def emit_def split: option.splits)

lemma GroupStop_trace:
  "trace (GroupStop gid c) = trace c \<or> trace (GroupStop gid c) = trace c @ [StopStream gid]"
  by (simp add: GroupStop_def split: option.splits)

lemma OnAudioSinkResume_restores:
  assumes grp: "FindById (aseGroups c) (active_group_id c) = Some grp"
    and codec: "GetCodecConfigurationByDirection env grp (current_context_type c)
                  kLeAudioDirectionSink \<noteq> None"
    and st: "audio_sender_state c = READY_TO_RELEASE"
    and other: "audio_receiver_state c \<in> {STARTED, IDLE, READY_TO_RELEASE}"
  shows "OnAudioSinkResume env c =
           Inr (emit Source_ConfirmStreamingRequest
                  (c\<lparr>audio_sender_state := STARTED, suspend_timeout := None\<rparr>))"
  using assms by (auto simp: OnAudioSinkResume_def Let_def)

lemma OnAudioSourceResume_restores:
  assumes grp: "FindById (aseGroups c) (active_group_id c) = Some grp"
    and codec: "GetCodecConfigurationByDirection env grp (current_context_type c)
                  kLeAudioDirectionSource \<noteq> None"
    and st: "audio_receiver_state c = READY_TO_RELEASE"
    and other: "audio_sender_state c \<in> {STARTED, IDLE, READY_TO_RELEASE}"
  shows "OnAudioSourceResume env c =
           Inr (emit Sink_ConfirmStreamingRequest
                  (c\<lparr>audio_receiver_state := STARTED, suspend_timeout := None\<rparr>))"
  using assms by (auto simp: OnAudioSourceResume_def Let_def)

lemma suspend_timeout_expired_keeps_codec:
  assumes "suspend_timeout c = Some (t, gid)"
  shows "codec_mem (suspend_timeout_expired c) = codec_mem c"
    and "suspend_timeout (suspend_timeout_expired c) = None"
    and "set (emitted c (suspend_timeout_expired c)) \<subseteq> {StopStream gid}"
proof -
  have eq: "suspend_timeout_expired c = GroupStop gid (c\<lparr>suspend_timeout := None\<rparr>)"
    using assms by (simp add: suspend_timeout_expired_def)
  show "codec_mem (suspend_timeout_expired c) = codec_mem c"
    by (simp add: eq codec_mem_GroupStop) (simp add: codec_mem_def)
  show "suspend_timeout (suspend_timeout_expired c) = None"
    by (simp add: eq GroupStop_def emit_def split: option.splits)
  show "set (emitted c (suspend_timeout_expired c)) \<subseteq> {StopStream gid}"
    using GroupStop_trace [of gid "c\<lparr>suspend_timeout := None\<rparr>"]
    by (auto simp: eq emitted_def)
qed

lemma StatusReportCb_SUSPENDED_frees:
  "\<exists>c'. StatusReportCb env gid GroupStreamStatus_SUSPENDED c = Inr c' \<and>
        \<not> lc3_encoder_left_mem c' \<and> \<not> lc3_decoder_left_mem c' \<and>
        (lc3_encoder_left_mem c \<longrightarrow> \<not> lc3_encoder_right_mem c') \<and>
        (lc3_decoder_left_mem c \<longrightarrow> \<not> lc3_decoder_right_mem c') \<and>
        suspend_timeout c' = suspend_timeout c \<and> emitted c c' = []"
  by (simp add: StatusReportCb_def SuspendAudio_def clear_setup_timestamps_def Let_def
        emitted_def)

text \<open>
  Claim C7, as the code has it.  Let the active group exist and have a codec
  configuration for the current context in the direction that the audio framework
  resumes.  If that direction is READY_TO_RELEASE and the other one is STARTED, IDLE
  or READY_TO_RELEASE, the handler sets the direction to STARTED, cancels the suspend
  alarm and confirms the streaming request; it makes no other call (the stream of
  the group is not stopped), and the other direction, the groups and the four codec
  memories stay as they are.  When the suspend alarm fires, \<^verbatim>\<open>GroupStop\<close> runs: it
  calls at most \<^verbatim>\<open>StopStream\<close> and does not touch the codec memories.  The codec
  memories are freed by \<^verbatim>\<open>SuspendAudio\<close>, which runs when the state machine reports
  SUSPENDED, whether the alarm is armed or not.
\<close>

theorem C7_resume_in_keep_alive_window:
  "(FindById (aseGroups c) (active_group_id c) = Some grp \<and>
    GetCodecConfigurationByDirection env grp (current_context_type c) kLeAudioDirectionSink \<noteq> None \<and>
    audio_sender_state c = READY_TO_RELEASE \<and>
    audio_receiver_state c \<in> {STARTED, IDLE, READY_TO_RELEASE}
      \<longrightarrow> (\<exists>c'. OnAudioSinkResume env c = Inr c' \<and>
                audio_sender_state c' = STARTED \<and>
                audio_receiver_state c' = audio_receiver_state c \<and>
                suspend_timeout c' = None \<and>
                emitted c c' = [Source_ConfirmStreamingRequest] \<and>
                codec_mem c' = codec_mem c \<and> aseGroups c' = aseGroups c)) \<and>
   (FindById (aseGroups c) (active_group_id c) = Some grp \<and>
    GetCodecConfigurationByDirection env grp (current_context_type c) kLeAudioDirectionSource \<noteq> None \<and>
    audio_receiver_state c = READY_TO_RELEASE \<and>
    audio_sender_state c \<in> {STARTED, IDLE, READY_TO_RELEASE}
      \<longrightarrow> (\<exists>c'. OnAudioSourceResume env c = Inr c' \<and>
                audio_receiver_state c' = STARTED \<and>
                audio_sender_state c' = audio_sender_state c \<and>
                suspend_timeout c' = None \<and>
                emitted c c' = [Sink_ConfirmStreamingRequest] \<and>
                codec_mem c' = codec_mem c \<and> aseGroups c' = aseGroups c)) \<and>
   (suspend_timeout c = Some (t, gid)
      \<longrightarrow> codec_mem (suspend_timeout_expired c) = codec_mem c \<and>
          suspend_timeout (suspend_timeout_expired c) = None \<and>
          set (emitted c (suspend_timeout_expired c)) \<subseteq> {StopStream gid}) \<and>
   (\<exists>c'. StatusReportCb env gid GroupStreamStatus_SUSPENDED c = Inr c' \<and>
         \<not> lc3_encoder_left_mem c' \<and> \<not> lc3_decoder_left_mem c' \<and>
         (lc3_encoder_left_mem c \<longrightarrow> \<not> lc3_encoder_right_mem c') \<and>
         (lc3_decoder_left_mem c \<longrightarrow> \<not> lc3_decoder_right_mem c') \<and>
         suspend_timeout c' = suspend_timeout c \<and> emitted c c' = [])"
proof (intro conjI impI)
  assume a: "FindById (aseGroups c) (active_group_id c) = Some grp \<and>
    GetCodecConfigurationByDirection env grp (current_context_type c) kLeAudioDirectionSink \<noteq> None \<and>
    audio_sender_state c = READY_TO_RELEASE \<and>
    audio_receiver_state c \<in> {STARTED, IDLE, READY_TO_RELEASE}"
  have "OnAudioSinkResume env c =
          Inr (emit Source_ConfirmStreamingRequest
                 (c\<lparr>audio_sender_state := STARTED, suspend_timeout := None\<rparr>))"
    using a OnAudioSinkResume_restores [of c grp env] by blast
  then show "\<exists>c'. OnAudioSinkResume env c = Inr c' \<and>
                audio_sender_state c' = STARTED \<and>
                audio_receiver_state c' = audio_receiver_state c \<and>
                suspend_timeout c' = None \<and>
                emitted c c' = [Source_ConfirmStreamingRequest] \<and>
                codec_mem c' = codec_mem c \<and> aseGroups c' = aseGroups c"
    by (simp add: emit_def emitted_def codec_mem_def)
next
  assume a: "FindById (aseGroups c) (active_group_id c) = Some grp \<and>
    GetCodecConfigurationByDirection env grp (current_context_type c) kLeAudioDirectionSource \<noteq> None \<and>
    audio_receiver_state c = READY_TO_RELEASE \<and>
    audio_sender_state c \<in> {STARTED, IDLE, READY_TO_RELEASE}"
  have "OnAudioSourceResume env c =
          Inr (emit Sink_ConfirmStreamingRequest
                 (c\<lparr>audio_receiver_state := STARTED, suspend_timeout := None\<rparr>))"
    using a OnAudioSourceResume_restores [of c grp env] by blast
  then show "\<exists>c'. OnAudioSourceResume env c = Inr c' \<and>
                audio_receiver_state c' = STARTED \<and>
                audio_sender_state c' = audio_sender_state c \<and>
                suspend_timeout c' = None \<and>
                emitted c c' = [Sink_ConfirmStreamingRequest] \<and>
                codec_mem c' = codec_mem c \<and> aseGroups c' = aseGroups c"
    by (simp add: emit_def emitted_def codec_mem_def)
next
  assume a: "suspend_timeout c = Some (t, gid)"
  show "codec_mem (suspend_timeout_expired c) = codec_mem c"
    using a by (rule suspend_timeout_expired_keeps_codec(1))
  show "suspend_timeout (suspend_timeout_expired c) = None"
    using a by (rule suspend_timeout_expired_keeps_codec(2))
  show "set (emitted c (suspend_timeout_expired c)) \<subseteq> {StopStream gid}"
    using a by (rule suspend_timeout_expired_keeps_codec(3))
next
  show "\<exists>c'. StatusReportCb env gid GroupStreamStatus_SUSPENDED c = Inr c' \<and>
         \<not> lc3_encoder_left_mem c' \<and> \<not> lc3_decoder_left_mem c' \<and>
         (lc3_encoder_left_mem c \<longrightarrow> \<not> lc3_encoder_right_mem c') \<and>
         (lc3_decoder_left_mem c \<longrightarrow> \<not> lc3_decoder_right_mem c') \<and>
         suspend_timeout c' = suspend_timeout c \<and> emitted c c' = []"
    by (rule StatusReportCb_SUSPENDED_frees)
qed

text \<open>
  On the demonstration: the downlink is suspended and resumed; the uplink is
  suspended and resumed; the suspend alarm of the suspended downlink fires; the state
  machine reports SUSPENDED for the suspended downlink.
\<close>

theorem C7_resume_in_keep_alive_window_witness:
  "audio_sender_state demo_suspended_client = READY_TO_RELEASE \<and>
   suspend_timeout demo_suspended_client = Some (5000, 7) \<and>
   audio_sender_state (projr (OnAudioSinkResume demo_env demo_suspended_client)) = STARTED \<and>
   suspend_timeout (projr (OnAudioSinkResume demo_env demo_suspended_client)) = None \<and>
   trace (projr (OnAudioSinkResume demo_env demo_suspended_client)) =
     [Source_ConfirmStreamingRequest] \<and>
   codec_mem (projr (OnAudioSinkResume demo_env demo_suspended_client)) =
     (True, True, False, False) \<and>
   audio_receiver_state
     (projr (OnAudioSourceResume demo_env (OnAudioSourceSuspend demo_env demo_mic_client))) =
     STARTED \<and>
   trace (suspend_timeout_expired demo_suspended_client) = [StopStream 7] \<and>
   codec_mem (suspend_timeout_expired demo_suspended_client) = (True, True, False, False) \<and>
   codec_mem (projr (StatusReportCb demo_env 7 GroupStreamStatus_SUSPENDED demo_suspended_client)) =
     (False, False, False, False)"
  using C7_resume_in_keep_alive_window
          [where c = demo_suspended_client and env = demo_env and t = 5000 and gid = 7
             and grp = "demo_group\<lparr>current_state := BTA_LE_AUDIO_ASE_STATE_STREAMING,
                                   target_state := BTA_LE_AUDIO_ASE_STATE_STREAMING\<rparr>"]
        C7_resume_in_keep_alive_window
          [where c = "OnAudioSourceSuspend demo_env demo_mic_client" and env = demo_env
             and grp = "demo_group\<lparr>stream_conf := (stream_conf demo_group)
                         \<lparr>source_streams := [(0x70, 1)],
                          source_octets_per_codec_frame := 2\<rparr>\<rparr>"]
  by (simp add: demo_defs OnAudioSinkResume_def OnAudioSourceResume_def OnAudioSinkSuspend_def
        OnAudioSourceSuspend_def OnAudioSuspend_def suspend_timeout_expired_def GroupStop_def
        StatusReportCb_def SuspendAudio_def clear_setup_timestamps_def
        kAudioSuspentKeepIsoAliveTimeoutMs_def kGroupUnknown_def IsEmpty_def
        FindById_def emit_def emitted_def codec_mem_def Let_def)

text \<open>
  Two sentences of C7 do not hold as worded.  The downlink of the streaming client is
  suspended, and the context type changes to GAME, for which the group has no codec
  configuration, before the audio framework resumes: the request is cancelled, the
  direction stays READY_TO_RELEASE and the alarm stays armed.  And the encoders are
  not tied to the alarm: a SUSPENDED report frees them while the alarm is still
  armed, and the firing alarm, which runs \<^verbatim>\<open>GroupStop\<close>, leaves them allocated.
\<close>

theorem C7_counterexample:
  "audio_sender_state demo_suspended_client = READY_TO_RELEASE \<and>
   audio_receiver_state demo_suspended_client = IDLE \<and>
   audio_sender_state
     (projr (OnAudioSinkResume demo_env (demo_suspended_client\<lparr>current_context_type := GAME\<rparr>))) =
     READY_TO_RELEASE \<and>
   suspend_timeout
     (projr (OnAudioSinkResume demo_env (demo_suspended_client\<lparr>current_context_type := GAME\<rparr>))) =
     Some (5000, 7) \<and>
   trace (projr (OnAudioSinkResume demo_env (demo_suspended_client\<lparr>current_context_type := GAME\<rparr>))) =
     [Source_CancelStreamingRequest] \<and>
   codec_mem demo_suspended_client = (True, True, False, False) \<and>
   codec_mem (projr (StatusReportCb demo_env 7 GroupStreamStatus_SUSPENDED demo_suspended_client)) =
     (False, False, False, False) \<and>
   suspend_timeout
     (projr (StatusReportCb demo_env 7 GroupStreamStatus_SUSPENDED demo_suspended_client)) =
     Some (5000, 7) \<and>
   trace (projr (StatusReportCb demo_env 7 GroupStreamStatus_SUSPENDED demo_suspended_client)) = [] \<and>
   trace (suspend_timeout_expired demo_suspended_client) = [StopStream 7] \<and>
   codec_mem (suspend_timeout_expired demo_suspended_client) = (True, True, False, False)"
  by (simp add: demo_defs OnAudioSinkResume_def OnAudioSinkSuspend_def OnAudioSuspend_def
        suspend_timeout_expired_def GroupStop_def StatusReportCb_def SuspendAudio_def
        clear_setup_timestamps_def kAudioSuspentKeepIsoAliveTimeoutMs_def kGroupUnknown_def
        IsEmpty_def FindById_def emit_def codec_mem_def Let_def)

end
